theory Spec2Isabelle
  imports Complex_Main "HOL-Library.While_Combinator"
begin

section \<open>Single-precision values\<close>

text \<open>
  The renderer computes with C++ \<^verbatim>\<open>float\<close>, the IEEE-754 binary32 format. A value is
  a finite number, negative zero, an infinity or NaN; \<open>Fin 0\<close> is positive zero, \<open>NZero\<close>
  is negative zero, and \<open>Fin r\<close> is a value of the format when \<open>is_float r\<close> holds.
  The special values follow IEEE-754 (division by zero gives a signed infinity, \<open>0 * inf\<close>
  and \<open>inf - inf\<close> give NaN, every ordered comparison with NaN is false). Every
  operation is rounded on its own to binary32, in the default rounding mode (to nearest,
  ties to even): expressions are evaluated in the precision of their type
  (\<^verbatim>\<open>FLT_EVAL_METHOD == 0\<close>) and a product is not fused with a following sum.
\<close>

datatype fl = Fin real | NZero | PInf | NInf | NaN

fun is_nan :: "fl \<Rightarrow> bool" where
  "is_nan NaN = True"
| "is_nan _ = False"

fun is_inf :: "fl \<Rightarrow> bool" where
  "is_inf PInf = True"
| "is_inf NInf = True"
| "is_inf _ = False"

fun is_zero :: "fl \<Rightarrow> bool" where
  "is_zero (Fin r) = (r = 0)"
| "is_zero NZero = True"
| "is_zero _ = False"

text \<open>The sign bit (NaN is given sign False; no operation below reads it).\<close>

fun sign_bit :: "fl \<Rightarrow> bool" where
  "sign_bit (Fin r) = (r < 0)"
| "sign_bit NZero = True"
| "sign_bit PInf = False"
| "sign_bit NInf = True"
| "sign_bit NaN = False"

text \<open>The real number a finite value denotes (0 for the others).\<close>

fun rv :: "fl \<Rightarrow> real" where
  "rv (Fin r) = r"
| "rv _ = 0"

definition fin :: "fl \<Rightarrow> bool" where
  "fin a = (\<not> is_nan a \<and> \<not> is_inf a)"

definition zero_s :: "bool \<Rightarrow> fl" where
  "zero_s s = (if s then NZero else Fin 0)"

definition inf_s :: "bool \<Rightarrow> fl" where
  "inf_s s = (if s then NInf else PInf)"

text \<open>A finite result with sign \<open>s\<close>: the sign selects the zero.\<close>

definition mk_fin :: "bool \<Rightarrow> real \<Rightarrow> fl" where
  "mk_fin s r = (if r = 0 then zero_s s else Fin r)"

subsection \<open>Rounding\<close>

text \<open>
  Every arithmetic operation rounds its exact result to the nearest value of the format,
  ties to the even significand. \<open>expo x\<close> is the exponent of the binade of \<open>x\<close>, not
  below the smallest normal exponent \<open>-126\<close>; \<open>quantum x\<close> is the spacing of the format
  there (24 significant bits; \<open>2^-149\<close> in the subnormal range, which is gradual
  underflow); \<open>rne\<close> rounds a real to the nearest integer, ties to even. A rounded
  magnitude of \<open>2^128\<close> or more overflows to an infinity; a result that rounds to zero
  keeps the sign of the exact result.
\<close>

definition expo :: "real \<Rightarrow> int" where
  "expo x = max \<lfloor>log 2 \<bar>x\<bar>\<rfloor> (- 126)"

definition quantum :: "real \<Rightarrow> real" where
  "quantum x = 2 powr (of_int (expo x) - 23)"

definition rne :: "real \<Rightarrow> int" where
  "rne y =
     (if y - of_int \<lfloor>y\<rfloor> < 1/2 then \<lfloor>y\<rfloor>
      else if 1/2 < y - of_int \<lfloor>y\<rfloor> then \<lfloor>y\<rfloor> + 1
      else if even \<lfloor>y\<rfloor> then \<lfloor>y\<rfloor> else \<lfloor>y\<rfloor> + 1)"

definition round_real :: "real \<Rightarrow> real" where
  "round_real x = of_int (rne (x / quantum x)) * quantum x"

text \<open>The finite numbers of the format, and the values whose finite part is one of them.\<close>

definition is_float :: "real \<Rightarrow> bool" where
  "is_float r = (round_real r = r \<and> \<bar>r\<bar> < 2 ^ 128)"

fun valid :: "fl \<Rightarrow> bool" where
  "valid (Fin r) = is_float r"
| "valid _ = True"

text \<open>The value of the format for an exact result \<open>x\<close> of sign \<open>s\<close>.\<close>

definition fround :: "bool \<Rightarrow> real \<Rightarrow> fl" where
  "fround s x =
     (let r = round_real x in if 2 ^ 128 \<le> \<bar>r\<bar> then inf_s s else mk_fin s r)"

text \<open>The conversion of an integer (\<^verbatim>\<open>int\<close>, \<^verbatim>\<open>size_t\<close>) to \<^verbatim>\<open>float\<close>.\<close>

definition float_of_int :: "int \<Rightarrow> fl" where
  "float_of_int i = fround (i < 0) (of_int i)"

subsection \<open>Arithmetic and comparisons\<close>

fun fneg :: "fl \<Rightarrow> fl" where
  "fneg (Fin r) = (if r = 0 then NZero else Fin (- r))"
| "fneg NZero = Fin 0"
| "fneg PInf = NInf"
| "fneg NInf = PInf"
| "fneg NaN = NaN"

text \<open>An exact sum of zero is \<open>+0\<close> unless both operands are \<open>-0\<close>.\<close>

definition fadd :: "fl \<Rightarrow> fl \<Rightarrow> fl" where
  "fadd a b =
     (if is_nan a \<or> is_nan b then NaN
      else if is_inf a then (if is_inf b \<and> sign_bit a \<noteq> sign_bit b then NaN else a)
      else if is_inf b then b
      else if a = NZero \<and> b = NZero then NZero
      else if rv a + rv b = 0 then Fin 0
      else fround (rv a + rv b < 0) (rv a + rv b))"

definition fsub :: "fl \<Rightarrow> fl \<Rightarrow> fl" where
  "fsub a b = fadd a (fneg b)"

definition fmul :: "fl \<Rightarrow> fl \<Rightarrow> fl" where
  "fmul a b =
     (if is_nan a \<or> is_nan b then NaN
      else if is_inf a \<or> is_inf b then
        (if is_zero a \<or> is_zero b then NaN else inf_s (sign_bit a \<noteq> sign_bit b))
      else fround (sign_bit a \<noteq> sign_bit b) (rv a * rv b))"

definition fdiv :: "fl \<Rightarrow> fl \<Rightarrow> fl" where
  "fdiv a b =
     (if is_nan a \<or> is_nan b then NaN
      else if is_inf a then (if is_inf b then NaN else inf_s (sign_bit a \<noteq> sign_bit b))
      else if is_inf b then zero_s (sign_bit a \<noteq> sign_bit b)
      else if is_zero b then (if is_zero a then NaN else inf_s (sign_bit a \<noteq> sign_bit b))
      else fround (sign_bit a \<noteq> sign_bit b) (rv a / rv b))"

text \<open>Comparisons: false whenever an operand is NaN; the two zeros are equal.\<close>

definition flt :: "fl \<Rightarrow> fl \<Rightarrow> bool" where
  "flt a b =
     (if is_nan a \<or> is_nan b then False
      else if a = NInf then b \<noteq> NInf
      else if b = PInf then a \<noteq> PInf
      else if a = PInf \<or> b = NInf then False
      else rv a < rv b)"

definition feq :: "fl \<Rightarrow> fl \<Rightarrow> bool" where
  "feq a b =
     (if is_nan a \<or> is_nan b then False
      else if is_inf a \<or> is_inf b then a = b
      else rv a = rv b)"

definition fle :: "fl \<Rightarrow> fl \<Rightarrow> bool" where
  "fle a b = (flt a b \<or> feq a b)"

definition fgt :: "fl \<Rightarrow> fl \<Rightarrow> bool" where
  "fgt a b = flt b a"

definition fge :: "fl \<Rightarrow> fl \<Rightarrow> bool" where
  "fge a b = fle b a"

text \<open>\<^verbatim>\<open>std::max(a, b)\<close> is \<^verbatim>\<open>(a < b) ? b : a\<close> and \<^verbatim>\<open>std::min(a, b)\<close> is
  \<^verbatim>\<open>(b < a) ? b : a\<close>: a NaN first argument is returned, a NaN second argument is dropped.\<close>

definition std_max :: "fl \<Rightarrow> fl \<Rightarrow> fl" where
  "std_max a b = (if flt a b then b else a)"

definition std_min :: "fl \<Rightarrow> fl \<Rightarrow> fl" where
  "std_min a b = (if flt b a then b else a)"

text \<open>
  The floating-point overload of \<^verbatim>\<open>abs\<close>: clears the sign bit. The file calls
  \<^verbatim>\<open>abs\<close> and \<^verbatim>\<open>pow\<close> unqualified on \<^verbatim>\<open>float\<close> operands and multiplies a
  \<^verbatim>\<open>glm::vec3\<close> by the results (\<^verbatim>\<open>k.y * (I * S) * abs(cos_theta)\<close>), which needs a
  \<^verbatim>\<open>float\<close> result: the calls are the \<^verbatim>\<open>float\<close> overloads, not \<^verbatim>\<open>abs(int)\<close>.
\<close>

fun fabs :: "fl \<Rightarrow> fl" where
  "fabs (Fin r) = Fin \<bar>r\<bar>"
| "fabs NZero = Fin 0"
| "fabs PInf = PInf"
| "fabs NInf = PInf"
| "fabs NaN = NaN"

text \<open>The square root is correctly rounded.\<close>

fun fsqrt :: "fl \<Rightarrow> fl" where
  "fsqrt (Fin r) = (if r < 0 then NaN else fround False (sqrt r))"
| "fsqrt NZero = NZero"
| "fsqrt PInf = PInf"
| "fsqrt NInf = NaN"
| "fsqrt NaN = NaN"

text \<open>\<^verbatim>\<open>pow(x, 100.f)\<close>: an even integral exponent; the result is taken as the rounded
  power (the library function may differ from it in the last bit).\<close>

fun fpow100 :: "fl \<Rightarrow> fl" where
  "fpow100 (Fin r) = fround False (r ^ 100)"
| "fpow100 NZero = Fin 0"
| "fpow100 PInf = PInf"
| "fpow100 NInf = PInf"
| "fpow100 NaN = NaN"

section \<open>Vectors (glm)\<close>

record vec2 =
  x2 :: fl
  y2 :: fl

record vec3 =
  vx :: fl
  vy :: fl
  vz :: fl

record vec4 =
  cr :: fl
  cg :: fl
  cb :: fl
  ca :: fl

definition vec3_of :: "fl \<Rightarrow> vec3" where
  "vec3_of s = \<lparr>vx = s, vy = s, vz = s\<rparr>"

definition vec4_of :: "fl \<Rightarrow> vec4" where
  "vec4_of s = \<lparr>cr = s, cg = s, cb = s, ca = s\<rparr>"

definition vec4_v3 :: "vec3 \<Rightarrow> fl \<Rightarrow> vec4" where
  "vec4_v3 v w = \<lparr>cr = vx v, cg = vy v, cb = vz v, ca = w\<rparr>"

definition vadd :: "vec3 \<Rightarrow> vec3 \<Rightarrow> vec3" where
  "vadd u v = \<lparr>vx = fadd (vx u) (vx v), vy = fadd (vy u) (vy v), vz = fadd (vz u) (vz v)\<rparr>"

definition vsub :: "vec3 \<Rightarrow> vec3 \<Rightarrow> vec3" where
  "vsub u v = \<lparr>vx = fsub (vx u) (vx v), vy = fsub (vy u) (vy v), vz = fsub (vz u) (vz v)\<rparr>"

definition vmul :: "vec3 \<Rightarrow> vec3 \<Rightarrow> vec3" where
  "vmul u v = \<lparr>vx = fmul (vx u) (vx v), vy = fmul (vy u) (vy v), vz = fmul (vz u) (vz v)\<rparr>"

definition vscale :: "fl \<Rightarrow> vec3 \<Rightarrow> vec3" where
  "vscale s v = \<lparr>vx = fmul s (vx v), vy = fmul s (vy v), vz = fmul s (vz v)\<rparr>"

definition vneg :: "vec3 \<Rightarrow> vec3" where
  "vneg v = \<lparr>vx = fneg (vx v), vy = fneg (vy v), vz = fneg (vz v)\<rparr>"

definition vdivs :: "vec3 \<Rightarrow> fl \<Rightarrow> vec3" where
  "vdivs v s = \<lparr>vx = fdiv (vx v) s, vy = fdiv (vy v) s, vz = fdiv (vz v) s\<rparr>"

definition v4add :: "vec4 \<Rightarrow> vec4 \<Rightarrow> vec4" where
  "v4add u v = \<lparr>cr = fadd (cr u) (cr v), cg = fadd (cg u) (cg v),
                 cb = fadd (cb u) (cb v), ca = fadd (ca u) (ca v)\<rparr>"

definition v4scale :: "fl \<Rightarrow> vec4 \<Rightarrow> vec4" where
  "v4scale s v = \<lparr>cr = fmul s (cr v), cg = fmul s (cg v), cb = fmul s (cb v), ca = fmul s (ca v)\<rparr>"

text \<open>\<^verbatim>\<open>glm::dot\<close>, \<^verbatim>\<open>glm::length\<close>, \<^verbatim>\<open>glm::normalize\<close> (\<open>v * inversesqrt(dot(v, v))\<close>).\<close>

definition dot :: "vec3 \<Rightarrow> vec3 \<Rightarrow> fl" where
  "dot u v = fadd (fadd (fmul (vx u) (vx v)) (fmul (vy u) (vy v))) (fmul (vz u) (vz v))"

definition vlength :: "vec3 \<Rightarrow> fl" where
  "vlength v = fsqrt (dot v v)"

definition normalize :: "vec3 \<Rightarrow> vec3" where
  "normalize v = vscale (fdiv (Fin 1) (fsqrt (dot v v))) v"

section \<open>Ray and bounding box\<close>

record Ray =
  origin :: vec3
  direction :: vec3
  tmin :: fl
  tmax :: fl

record Bounds =
  lower :: vec3
  upper :: vec3

text \<open>\<^verbatim>\<open>bounds.lowerUpper[s]\<close>: index 0 is the lower corner, index 1 the upper corner.\<close>

definition lowerUpper :: "Bounds \<Rightarrow> bool \<Rightarrow> vec3" where
  "lowerUpper b s = (if s then upper b else lower b)"

text \<open>
  \<^verbatim>\<open>instersectRayVolumeBounds(Ray& ray, const Bounds& bounds)\<close>: the result is the returned
  flag and the ray after the call (unchanged on a miss).
\<close>

definition instersectRayVolumeBounds :: "Ray \<Rightarrow> Bounds \<Rightarrow> bool \<times> Ray" where
  "instersectRayVolumeBounds ray bounds =
    (let invDirx = fdiv (Fin 1) (vx (direction ray));
         invDiry = fdiv (Fin 1) (vy (direction ray));
         invDirz = fdiv (Fin 1) (vz (direction ray));
         sign0 = flt invDirx (Fin 0);
         sign1 = flt invDiry (Fin 0);
         sign2 = flt invDirz (Fin 0);
         tmin0 = fmul (fsub (vx (lowerUpper bounds sign0)) (vx (origin ray))) invDirx;
         tmax0 = fmul (fsub (vx (lowerUpper bounds (\<not> sign0))) (vx (origin ray))) invDirx;
         tymin = fmul (fsub (vy (lowerUpper bounds sign1)) (vy (origin ray))) invDiry;
         tymax = fmul (fsub (vy (lowerUpper bounds (\<not> sign1))) (vy (origin ray))) invDiry
     in if fgt tmin0 tymax \<or> fgt tymin tmax0 then (False, ray)
        else
          let tmin1 = std_max tmin0 tymin;
              tmax1 = std_min tmax0 tymax;
              tzmin = fmul (fsub (vz (lowerUpper bounds sign2)) (vz (origin ray))) invDirz;
              tzmax = fmul (fsub (vz (lowerUpper bounds (\<not> sign2))) (vz (origin ray))) invDirz
          in if fgt tmin1 tzmax \<or> fgt tzmin tmax1 then (False, ray)
             else (True, ray\<lparr>tmin := std_max tmin1 tzmin, tmax := std_min tmax1 tzmax\<rparr>))"

section \<open>Collaborators and configuration\<close>

text \<open>
  The volume, the gradient volume and the camera are classes of the framework that the
  renderer only borrows (\<^verbatim>\<open>m_pVolume\<close>, \<^verbatim>\<open>m_pGradientVolume\<close>, \<^verbatim>\<open>m_pCamera\<close>); their
  member functions are the fields of \<open>Scene\<close>, arbitrary functions of their arguments.
\<close>

record GradientVoxel =
  dir :: vec3
  magnitude :: fl

record Scene =
  getSampleInterpolate :: "vec3 \<Rightarrow> fl"
  maximum :: fl
  dims :: "int \<times> int \<times> int"
  getGradientInterpolate :: "vec3 \<Rightarrow> GradientVoxel"
  maxMagnitude :: fl
  position :: vec3
  forward :: vec3
  generateRay :: "vec2 \<Rightarrow> Ray"

datatype RenderMode = RenderSlicer | RenderMIP | RenderComposite | RenderIso | RenderTF2D

record RenderConfig =
  renderResolution :: "int \<times> int"
  renderMode :: RenderMode
  isoValue :: fl
  volumeShading :: bool
  tfColorMap :: "vec4 list"
  tfColorMapIndexStart :: fl
  tfColorMapIndexRange :: fl
  TF2DIntensity :: fl
  TF2DRadius :: fl
  TF2DColor :: vec4

text \<open>Undefined behaviour of the C++ program is a value of the model.\<close>

datatype error = CastOutOfRange | IndexOutOfRange | IntOverflow

section \<open>Transfer functions\<close>

text \<open>
  \<^verbatim>\<open>static_cast<size_t>(float)\<close> truncates toward zero; the behaviour is undefined when
  the truncated value is not a value of \<^verbatim>\<open>size_t\<close> (64 bits).
\<close>

fun to_size_t :: "fl \<Rightarrow> error + nat" where
  "to_size_t (Fin r) =
     (if - 1 < r \<and> r < 2 ^ 64 then Inr (nat \<lfloor>r\<rfloor>) else Inl CastOutOfRange)"
| "to_size_t NZero = Inr 0"
| "to_size_t _ = Inl CastOutOfRange"

text \<open>The index \<^verbatim>\<open>i\<close> that \<^verbatim>\<open>getTFValue\<close> computes; \<^verbatim>\<open>size() - 1\<close> wraps for an empty table.\<close>

definition getTFIndex :: "RenderConfig \<Rightarrow> fl \<Rightarrow> error + nat" where
  "getTFIndex cfg val =
    (let range01 = fdiv (fsub val (tfColorMapIndexStart cfg)) (tfColorMapIndexRange cfg);
         n = length (tfColorMap cfg)
     in case to_size_t (fmul range01 (float_of_int (int n))) of
          Inl e \<Rightarrow> Inl e
        | Inr k \<Rightarrow> Inr (min k (if n = 0 then 2 ^ 64 - 1 else n - 1)))"

definition getTFValue :: "RenderConfig \<Rightarrow> fl \<Rightarrow> error + vec4" where
  "getTFValue cfg val =
    (case getTFIndex cfg val of
       Inl e \<Rightarrow> Inl e
     | Inr i \<Rightarrow> if i < length (tfColorMap cfg) then Inr (tfColorMap cfg ! i)
                else Inl IndexOutOfRange)"

text \<open>The test \<^verbatim>\<open>gradientMagnitude >= slope * input\<close> that guards the division.\<close>

definition tf2dInside :: "Scene \<Rightarrow> RenderConfig \<Rightarrow> fl \<Rightarrow> fl \<Rightarrow> bool" where
  "tf2dInside scene cfg intensity gradientMagnitude =
    (let slope = fdiv (maxMagnitude scene) (TF2DRadius cfg);
         input = fabs (fsub intensity (TF2DIntensity cfg))
     in fge gradientMagnitude (fmul slope input))"

definition getTF2DOpacity :: "Scene \<Rightarrow> RenderConfig \<Rightarrow> fl \<Rightarrow> fl \<Rightarrow> fl" where
  "getTF2DOpacity scene cfg intensity gradientMagnitude =
    (let slope = fdiv (maxMagnitude scene) (TF2DRadius cfg);
         input = fabs (fsub intensity (TF2DIntensity cfg))
     in if tf2dInside scene cfg intensity gradientMagnitude then
          let factor = fdiv input (fdiv gradientMagnitude slope);
              interp_val = fadd (fsub (Fin 1) factor) (fmul factor (Fin 0))
          in fmul (ca (TF2DColor cfg)) interp_val
        else Fin 0)"

section \<open>Phong shading\<close>

text \<open>The literals \<^verbatim>\<open>.1f\<close>, \<^verbatim>\<open>.7f\<close>, \<^verbatim>\<open>.2f\<close>, \<^verbatim>\<open>0.8f\<close> as the binary32 numbers they denote.\<close>

definition f01 :: fl where "f01 = Fin (13421773 / 2 ^ 27)"
definition f07 :: fl where "f07 = Fin (11744051 / 2 ^ 24)"
definition f02 :: fl where "f02 = Fin (13421773 / 2 ^ 26)"
definition f08 :: fl where "f08 = Fin (13421773 / 2 ^ 24)"

definition computePhongShading :: "vec3 \<Rightarrow> GradientVoxel \<Rightarrow> vec3 \<Rightarrow> vec3 \<Rightarrow> vec3" where
  "computePhongShading color gradient L V =
    (let n = normalize (dir gradient);
         L_norm = normalize L;
         R = vsub (vscale (fmul (Fin 2) (dot n L_norm)) n) L_norm;
         I = color;
         S = I;
         cos_theta = fdiv (dot L_norm n) (fmul (vlength L_norm) (vlength n));
         cos_phi = fdiv (dot R V) (fmul (vlength R) (vlength V));
         ambient = vscale f01 (vmul I S);
         diffuse = vscale (fabs cos_theta) (vscale f07 (vmul I S));
         specular = vscale (fpow100 cos_phi) (vscale f02 (vmul I S))
     in vadd (vadd ambient diffuse) specular)"

section \<open>Slice and maximum-intensity projection\<close>

definition traceRaySlice :: "Scene \<Rightarrow> Ray \<Rightarrow> vec3 \<Rightarrow> vec3 \<Rightarrow> vec4" where
  "traceRaySlice scene ray volumeCenter planeNormal =
    (let t = fdiv (dot (vsub volumeCenter (origin ray)) planeNormal)
                  (dot (direction ray) planeNormal);
         samplePos = vadd (origin ray) (vscale t (direction ray));
         val = getSampleInterpolate scene samplePos
     in vec4_v3 (vec3_of (std_max (fdiv val (maximum scene)) (Fin 0))) (Fin 1))"

text \<open>
  A marching loop \<^verbatim>\<open>for (float t = ...; cond; t += sampleStep, samplePos += increment)\<close>
  is \<open>while_option\<close> on the record of the loop's variables: \<open>None\<close> when the loop never
  ends.
\<close>

record mip_state =
  mip_t :: fl
  mip_pos :: vec3
  mip_maxVal :: fl

definition mipBody :: "Scene \<Rightarrow> Ray \<Rightarrow> fl \<Rightarrow> mip_state \<Rightarrow> mip_state" where
  "mipBody scene ray sampleStep s =
     \<lparr>mip_t = fadd (mip_t s) sampleStep,
      mip_pos = vadd (mip_pos s) (vscale sampleStep (direction ray)),
      mip_maxVal = std_max (getSampleInterpolate scene (mip_pos s)) (mip_maxVal s)\<rparr>"

definition traceRayMIP :: "Scene \<Rightarrow> Ray \<Rightarrow> fl \<Rightarrow> vec4 option" where
  "traceRayMIP scene ray sampleStep =
     map_option
       (\<lambda>s. vec4_v3 (vdivs (vec3_of (mip_maxVal s)) (maximum scene)) (Fin 1))
       (while_option (\<lambda>s. fle (mip_t s) (tmax ray)) (mipBody scene ray sampleStep)
          \<lparr>mip_t = tmin ray,
           mip_pos = vadd (origin ray) (vscale (tmin ray) (direction ray)),
           mip_maxVal = Fin 0\<rparr>)"

section \<open>Isosurface\<close>

definition max_iter :: nat where "max_iter = 10"

text \<open>\<^verbatim>\<open>0.01f\<close>\<close>

definition threshold :: fl where "threshold = Fin (5368709 / 2 ^ 29)"

text \<open>
  The loop of \<^verbatim>\<open>bisectionAccuracy\<close>. The result is the returned \<open>t\<close>, the value of the
  counter \<open>i\<close> when the function returns, and whether it returned from inside the loop
  (the sample at \<open>t\<close> was within the threshold).
\<close>

function bisectionLoop ::
  "Scene \<Rightarrow> Ray \<Rightarrow> fl \<Rightarrow> nat \<Rightarrow> fl \<Rightarrow> fl \<Rightarrow> fl \<Rightarrow> fl \<times> nat \<times> bool" where
  "bisectionLoop scene ray isoVal i t_left t_right t =
    (if i < max_iter then
       let t' = fdiv (fadd t_left t_right) (Fin 2);
           samplePos = vadd (origin ray) (vscale t' (direction ray));
           val = getSampleInterpolate scene samplePos
       in if flt (fabs (fsub val isoVal)) threshold then (t', i, True)
          else if fgt val isoVal then bisectionLoop scene ray isoVal (Suc i) t_left t' t'
          else bisectionLoop scene ray isoVal (Suc i) t' t_right t'
     else (t, i, False))"
  by pat_completeness auto
termination
  by (relation "measure (\<lambda>(scene, ray, isoVal, i, t_left, t_right, t). max_iter - i)") auto

definition bisectionAccuracy :: "Scene \<Rightarrow> Ray \<Rightarrow> fl \<Rightarrow> fl \<Rightarrow> fl \<Rightarrow> fl" where
  "bisectionAccuracy scene ray t0 t1 isoVal =
     fst (bisectionLoop scene ray isoVal 0 t0 t1 (fdiv (fadd t0 t1) (Fin 2)))"

text \<open>
  The refined parameter \<^verbatim>\<open>t_new\<close> of \<^verbatim>\<open>traceRayISO\<close> for a sample \<open>val\<close> at \<open>t\<close> that
  reached the iso value (shading enabled).
\<close>

definition isoRefine :: "Scene \<Rightarrow> Ray \<Rightarrow> fl \<Rightarrow> fl \<Rightarrow> fl \<Rightarrow> fl" where
  "isoRefine scene ray isoVal t val =
     (if \<not> feq val isoVal then bisectionAccuracy scene ray (fsub t (Fin 1)) t isoVal else t)"

definition isoColor :: vec3 where
  "isoColor = \<lparr>vx = f08, vy = f08, vz = f02\<rparr>"

text \<open>The value returned from inside the loop of \<^verbatim>\<open>traceRayISO\<close>.\<close>

definition isoHit :: "Scene \<Rightarrow> RenderConfig \<Rightarrow> Ray \<Rightarrow> fl \<Rightarrow> fl \<Rightarrow> vec4" where
  "isoHit scene cfg ray t val =
     (if \<not> volumeShading cfg then vec4_v3 isoColor (Fin 1)
      else
        let t_new = isoRefine scene ray (isoValue cfg) t val;
            samplePos_t = vadd (origin ray) (vscale t_new (direction ray));
            gradient = getGradientInterpolate scene samplePos_t;
            shading = computePhongShading isoColor gradient (position scene) (direction ray)
        in vec4_v3 shading (Fin 1))"

record iso_state =
  iso_t :: fl
  iso_pos :: vec3
  iso_ret :: "vec4 option"

definition isoBody :: "Scene \<Rightarrow> RenderConfig \<Rightarrow> Ray \<Rightarrow> fl \<Rightarrow> iso_state \<Rightarrow> iso_state" where
  "isoBody scene cfg ray sampleStep s =
     (let val = getSampleInterpolate scene (iso_pos s)
      in if fge val (isoValue cfg) then s\<lparr>iso_ret := Some (isoHit scene cfg ray (iso_t s) val)\<rparr>
         else s\<lparr>iso_t := fadd (iso_t s) sampleStep,
                 iso_pos := vadd (iso_pos s) (vscale sampleStep (direction ray))\<rparr>)"

definition isoInit :: "Ray \<Rightarrow> iso_state" where
  "isoInit ray =
     \<lparr>iso_t = tmin ray,
      iso_pos = vadd (origin ray) (vscale (tmin ray) (direction ray)),
      iso_ret = None\<rparr>"

definition traceRayISO :: "Scene \<Rightarrow> RenderConfig \<Rightarrow> Ray \<Rightarrow> fl \<Rightarrow> vec4 option" where
  "traceRayISO scene cfg ray sampleStep =
     map_option
       (\<lambda>s. case iso_ret s of Some c \<Rightarrow> c | None \<Rightarrow> vec4_v3 (vec3_of (Fin 0)) (Fin 1))
       (while_option (\<lambda>s. iso_ret s = None \<and> fle (iso_t s) (tmax ray))
          (isoBody scene cfg ray sampleStep) (isoInit ray))"

section \<open>Compositing with the 1D transfer function\<close>

text \<open>
  The colour \<^verbatim>\<open>C_i\<close> that one sample of \<^verbatim>\<open>traceRayComposite\<close> contributes, for the
  transfer-function entry \<open>TFval\<close> of the sample at \<open>samplePos\<close>. The test
  \<^verbatim>\<open>!glm::all(glm::equal(gradient.dir, glm::vec3(0)))\<close> compares each component with \<open>==\<close>.
\<close>

definition gradientNonZero :: "GradientVoxel \<Rightarrow> bool" where
  "gradientNonZero gradient =
     (\<not> (feq (vx (dir gradient)) (Fin 0) \<and> feq (vy (dir gradient)) (Fin 0) \<and>
         feq (vz (dir gradient)) (Fin 0)))"

definition compositeContribution :: "Scene \<Rightarrow> RenderConfig \<Rightarrow> Ray \<Rightarrow> vec3 \<Rightarrow> vec4 \<Rightarrow> vec4" where
  "compositeContribution scene cfg ray samplePos TFval =
    (let color = \<lparr>vx = cr TFval, vy = cg TFval, vz = cb TFval\<rparr>;
         A = ca TFval
     in if volumeShading cfg then
          let light = position scene;
              gradient = getGradientInterpolate scene samplePos
          in if gradientNonZero gradient then
               vec4_v3 (vscale A (computePhongShading color gradient light (direction ray))) A
             else vec4_of (Fin 0)
        else vec4_v3 (vscale A color) A)"

record comp_state =
  comp_t :: fl
  comp_pos :: vec3
  comp_C :: vec4
  comp_err :: "error option"

definition compositeBody :: "Scene \<Rightarrow> RenderConfig \<Rightarrow> Ray \<Rightarrow> fl \<Rightarrow> comp_state \<Rightarrow> comp_state" where
  "compositeBody scene cfg ray sampleStep s =
    (let val = getSampleInterpolate scene (comp_pos s)
     in case getTFValue cfg val of
          Inl e \<Rightarrow> s\<lparr>comp_err := Some e\<rparr>
        | Inr TFval \<Rightarrow>
            let A = ca TFval;
                C_i = compositeContribution scene cfg ray (comp_pos s) TFval
            in \<lparr>comp_t = fsub (comp_t s) sampleStep,
                comp_pos = vsub (comp_pos s) (vscale sampleStep (direction ray)),
                comp_C = v4add C_i (v4scale (fsub (Fin 1) A) (comp_C s)),
                comp_err = None\<rparr>)"

definition compositeCond :: "Ray \<Rightarrow> comp_state \<Rightarrow> bool" where
  "compositeCond ray s = (comp_err s = None \<and> fge (comp_t s) (tmin ray))"

definition compositeInit :: "Ray \<Rightarrow> comp_state" where
  "compositeInit ray =
     \<lparr>comp_t = tmax ray,
      comp_pos = vadd (origin ray) (vscale (tmax ray) (direction ray)),
      comp_C = vec4_of (Fin 0),
      comp_err = None\<rparr>"

definition traceRayComposite :: "Scene \<Rightarrow> RenderConfig \<Rightarrow> Ray \<Rightarrow> fl \<Rightarrow> (error + vec4) option" where
  "traceRayComposite scene cfg ray sampleStep =
     map_option (\<lambda>s. case comp_err s of Some e \<Rightarrow> Inl e | None \<Rightarrow> Inr (comp_C s))
       (while_option (compositeCond ray) (compositeBody scene cfg ray sampleStep)
          (compositeInit ray))"

section \<open>Compositing with the 2D transfer function\<close>

text \<open>The \<^verbatim>\<open>double\<close> literal \<^verbatim>\<open>0.95\<close> that the \<^verbatim>\<open>float\<close> \<^verbatim>\<open>Ai\<close> is compared with.\<close>

definition d095 :: fl where "d095 = Fin (4278419646001971 / 2 ^ 52)"

record tf2d_state =
  tf_t :: fl
  tf_pos :: vec3
  tf_Ci :: vec3
  tf_Ai :: fl
  tf_C :: vec4
  tf_err :: "error option"

definition tf2dBody :: "Scene \<Rightarrow> RenderConfig \<Rightarrow> Ray \<Rightarrow> fl \<Rightarrow> tf2d_state \<Rightarrow> tf2d_state" where
  "tf2dBody scene cfg ray sampleStep s =
    (let val = getSampleInterpolate scene (tf_pos s)
     in case getTFValue cfg val of
          Inl e \<Rightarrow> s\<lparr>tf_err := Some e\<rparr>
        | Inr TFval \<Rightarrow>
            let gradient = getGradientInterpolate scene (tf_pos s);
                TFOpacity = getTF2DOpacity scene cfg val (magnitude gradient);
                colorVector = TF2DColor cfg;
                Ai = tf_Ai s;
                x0 = fmul (fmul (cr colorVector) TFOpacity) (fsub (Fin 1) Ai);
                x1 = fmul (fmul (cg colorVector) TFOpacity) (fsub (Fin 1) Ai);
                x2 = fmul (fmul (cb colorVector) TFOpacity) (fsub (Fin 1) Ai);
                Ci = vadd (tf_Ci s) \<lparr>vx = x0, vy = x1, vz = x2\<rparr>;
                Ai' = fadd Ai (fmul (fsub (Fin 1) Ai) TFOpacity)
            in \<lparr>tf_t = fadd (tf_t s) sampleStep,
                tf_pos = vadd (tf_pos s) (vscale sampleStep (direction ray)),
                tf_Ci = Ci, tf_Ai = Ai', tf_C = vec4_v3 Ci Ai', tf_err = None\<rparr>)"

text \<open>The loop runs while \<^verbatim>\<open>t <= ray.tmax\<close> and the \<^verbatim>\<open>break\<close> on \<^verbatim>\<open>Ai >= 0.95\<close> is not taken.\<close>

definition tf2dCond :: "Ray \<Rightarrow> tf2d_state \<Rightarrow> bool" where
  "tf2dCond ray s = (tf_err s = None \<and> fle (tf_t s) (tmax ray) \<and> \<not> fge (tf_Ai s) d095)"

definition tf2dInit :: "Ray \<Rightarrow> tf2d_state" where
  "tf2dInit ray =
     \<lparr>tf_t = tmin ray,
      tf_pos = vadd (origin ray) (vscale (tmin ray) (direction ray)),
      tf_Ci = vec3_of (Fin 0), tf_Ai = Fin 0, tf_C = vec4_of (Fin 0), tf_err = None\<rparr>"

definition tf2dResult :: "tf2d_state \<Rightarrow> error + vec4" where
  "tf2dResult s = (case tf_err s of Some e \<Rightarrow> Inl e | None \<Rightarrow> Inr (tf_C s))"

definition traceRayTF2D :: "Scene \<Rightarrow> RenderConfig \<Rightarrow> Ray \<Rightarrow> fl \<Rightarrow> (error + vec4) option" where
  "traceRayTF2D scene cfg ray sampleStep =
     map_option tf2dResult
       (while_option (tf2dCond ray) (tf2dBody scene cfg ray sampleStep) (tf2dInit ray))"

text \<open>
  The variant the specification compares with: the same march with every sample up to
  \<open>tmax\<close> evaluated (no exit on the accumulated alpha).
\<close>

definition tf2dCondFull :: "Ray \<Rightarrow> tf2d_state \<Rightarrow> bool" where
  "tf2dCondFull ray s = (tf_err s = None \<and> fle (tf_t s) (tmax ray))"

definition traceRayTF2D_full :: "Scene \<Rightarrow> RenderConfig \<Rightarrow> Ray \<Rightarrow> fl \<Rightarrow> (error + vec4) option" where
  "traceRayTF2D_full scene cfg ray sampleStep =
     map_option tf2dResult
       (while_option (tf2dCondFull ray) (tf2dBody scene cfg ray sampleStep) (tf2dInit ray))"

text \<open>The state of a loop after \<open>n\<close> passes through its body (fewer when it has ended).\<close>

fun iter_while :: "('s \<Rightarrow> bool) \<Rightarrow> ('s \<Rightarrow> 's) \<Rightarrow> nat \<Rightarrow> 's \<Rightarrow> 's" where
  "iter_while b c 0 s = s"
| "iter_while b c (Suc n) s = (if b s then iter_while b c n (c s) else s)"

section \<open>The frame\<close>

record Renderer =
  m_config :: RenderConfig
  m_frameBuffer :: "vec4 list"

text \<open>
  \<^verbatim>\<open>resizeImage\<close>: \<^verbatim>\<open>std::vector::resize\<close> keeps the leading elements and appends zero
  pixels; the size is the product of the two \<^verbatim>\<open>size_t\<close> conversions (allocation failure
  is not modelled).
\<close>

definition resizeImage :: "Renderer \<Rightarrow> int \<times> int \<Rightarrow> Renderer" where
  "resizeImage r resolution =
    (let n = nat (((fst resolution mod 2 ^ 64) * (snd resolution mod 2 ^ 64)) mod 2 ^ 64)
     in r\<lparr>m_frameBuffer :=
            take n (m_frameBuffer r) @ replicate (n - length (m_frameBuffer r)) (vec4_of (Fin 0))\<rparr>)"

definition newRenderer :: "RenderConfig \<Rightarrow> Renderer" where
  "newRenderer initialConfig =
     resizeImage \<lparr>m_config = initialConfig, m_frameBuffer = []\<rparr> (renderResolution initialConfig)"

definition setConfig :: "Renderer \<Rightarrow> RenderConfig \<Rightarrow> Renderer" where
  "setConfig r config =
     (if renderResolution config \<noteq> renderResolution (m_config r)
      then resizeImage r (renderResolution config) else r)\<lparr>m_config := config\<rparr>"

definition resetImage :: "Renderer \<Rightarrow> Renderer" where
  "resetImage r = r\<lparr>m_frameBuffer := replicate (length (m_frameBuffer r)) (vec4_of (Fin 0))\<rparr>"

text \<open>
  \<^verbatim>\<open>fillColor\<close>: the index is computed on 32-bit \<^verbatim>\<open>int\<close> (overflow is undefined),
  converted to \<^verbatim>\<open>size_t\<close>, and the vector is written without a bounds check.
\<close>

definition int32 :: "int \<Rightarrow> bool" where
  "int32 i = (- (2 ^ 31) \<le> i \<and> i < 2 ^ 31)"

definition pixelIndex :: "RenderConfig \<Rightarrow> int \<Rightarrow> int \<Rightarrow> nat" where
  "pixelIndex cfg x y = nat ((fst (renderResolution cfg) * y + x) mod 2 ^ 64)"

definition fillColor :: "Renderer \<Rightarrow> int \<Rightarrow> int \<Rightarrow> vec4 \<Rightarrow> error + Renderer" where
  "fillColor r x y color =
    (let w = fst (renderResolution (m_config r))
     in if \<not> int32 (w * y) \<or> \<not> int32 (w * y + x) then Inl IntOverflow
        else
          let index = pixelIndex (m_config r) x y
          in if index < length (m_frameBuffer r)
             then Inr (r\<lparr>m_frameBuffer := (m_frameBuffer r)[index := color]\<rparr>)
             else Inl IndexOutOfRange)"

text \<open>\<^verbatim>\<open>static constexpr float sampleStep = 1.0f\<close>\<close>

definition sampleStep0 :: fl where "sampleStep0 = Fin 1"

definition volumeBounds :: "Scene \<Rightarrow> Bounds" where
  "volumeBounds scene =
    (case dims scene of (dx, dy, dz) \<Rightarrow>
       \<lparr>lower = vec3_of (Fin 0),
        upper = \<lparr>vx = float_of_int (dx - 1), vy = float_of_int (dy - 1),
                  vz = float_of_int (dz - 1)\<rparr>\<rparr>)"

definition volumeCenter :: "Scene \<Rightarrow> vec3" where
  "volumeCenter scene =
    (case dims scene of (dx, dy, dz) \<Rightarrow>
       vdivs \<lparr>vx = float_of_int dx, vy = float_of_int dy, vz = float_of_int dz\<rparr> (Fin 2))"

definition planeNormal :: "Scene \<Rightarrow> vec3" where
  "planeNormal scene = vneg (normalize (forward scene))"

text \<open>The ray of pixel \<open>(x, y)\<close>: \<^verbatim>\<open>generateRay(vec2(x, y) / vec2(resolution) * 2.0f - 1.0f)\<close>.\<close>

definition pixelRay :: "Scene \<Rightarrow> RenderConfig \<Rightarrow> int \<Rightarrow> int \<Rightarrow> Ray" where
  "pixelRay scene cfg x y =
     generateRay scene
       \<lparr>x2 = fsub (fmul (fdiv (float_of_int x) (float_of_int (fst (renderResolution cfg)))) (Fin 2))
                  (Fin 1),
        y2 = fsub (fmul (fdiv (float_of_int y) (float_of_int (snd (renderResolution cfg)))) (Fin 2))
                  (Fin 1)\<rparr>"

text \<open>The \<^verbatim>\<open>switch\<close> on the render mode.\<close>

definition tracePixel :: "Scene \<Rightarrow> RenderConfig \<Rightarrow> Ray \<Rightarrow> (error + vec4) option" where
  "tracePixel scene cfg ray =
    (case renderMode cfg of
       RenderSlicer \<Rightarrow> Some (Inr (traceRaySlice scene ray (volumeCenter scene) (planeNormal scene)))
     | RenderMIP \<Rightarrow> map_option Inr (traceRayMIP scene ray sampleStep0)
     | RenderComposite \<Rightarrow> traceRayComposite scene cfg ray sampleStep0
     | RenderIso \<Rightarrow> map_option Inr (traceRayISO scene cfg ray sampleStep0)
     | RenderTF2D \<Rightarrow> traceRayTF2D scene cfg ray sampleStep0)"

text \<open>The body of the pixel loop: \<open>None\<close> when the tracer never returns.\<close>

definition renderPixel :: "Scene \<Rightarrow> Renderer \<Rightarrow> int \<times> int \<Rightarrow> (error + Renderer) option" where
  "renderPixel scene r p =
    (case instersectRayVolumeBounds (pixelRay scene (m_config r) (fst p) (snd p)) (volumeBounds scene) of
       (False, ray) \<Rightarrow> Some (Inr r)
     | (True, ray) \<Rightarrow>
         (case tracePixel scene (m_config r) ray of
            None \<Rightarrow> None
          | Some (Inl e) \<Rightarrow> Some (Inl e)
          | Some (Inr color) \<Rightarrow> Some (fillColor r (fst p) (snd p) color)))"

fun renderLoop :: "Scene \<Rightarrow> (int \<times> int) list \<Rightarrow> Renderer \<Rightarrow> (error + Renderer) option" where
  "renderLoop scene [] r = Some (Inr r)"
| "renderLoop scene (p # ps) r =
     (case renderPixel scene r p of
        None \<Rightarrow> None
      | Some (Inl e) \<Rightarrow> Some (Inl e)
      | Some (Inr r') \<Rightarrow> renderLoop scene ps r')"

text \<open>The pixels in the order of the sequential loops: \<open>x\<close> outside, \<open>y\<close> inside.\<close>

definition pixels :: "RenderConfig \<Rightarrow> (int \<times> int) list" where
  "pixels cfg =
     concat (map (\<lambda>x. map (\<lambda>y. (x, y)) [0..snd (renderResolution cfg) - 1])
               [0..fst (renderResolution cfg) - 1])"

definition render :: "Scene \<Rightarrow> Renderer \<Rightarrow> (error + Renderer) option" where
  "render scene r = renderLoop scene (pixels (m_config r)) (resetImage r)"

text \<open>
  Whether the ray of a pixel passes the test \<^verbatim>\<open>instersectRayVolumeBounds(ray, bounds)\<close>
  in \<open>render\<close>, and the ray with the interval that the test wrote into it.
\<close>

definition hitPixel :: "Scene \<Rightarrow> RenderConfig \<Rightarrow> int \<times> int \<Rightarrow> bool" where
  "hitPixel scene cfg p =
     fst (instersectRayVolumeBounds (pixelRay scene cfg (fst p) (snd p)) (volumeBounds scene))"

definition clippedRay :: "Scene \<Rightarrow> RenderConfig \<Rightarrow> int \<times> int \<Rightarrow> Ray" where
  "clippedRay scene cfg p =
     snd (instersectRayVolumeBounds (pixelRay scene cfg (fst p) (snd p)) (volumeBounds scene))"

section \<open>The samples of a front-to-back march\<close>

text \<open>
  The parameter and the position of the \<open>k\<close>-th sample of a loop
  \<^verbatim>\<open>for (t = ray.tmin; ...; t += sampleStep, samplePos += increment)\<close>.
\<close>

fun marchT :: "Ray \<Rightarrow> fl \<Rightarrow> nat \<Rightarrow> fl" where
  "marchT ray sampleStep 0 = tmin ray"
| "marchT ray sampleStep (Suc k) = fadd (marchT ray sampleStep k) sampleStep"

fun marchPos :: "Ray \<Rightarrow> fl \<Rightarrow> nat \<Rightarrow> vec3" where
  "marchPos ray sampleStep 0 = vadd (origin ray) (vscale (tmin ray) (direction ray))"
| "marchPos ray sampleStep (Suc k) =
     vadd (marchPos ray sampleStep k) (vscale sampleStep (direction ray))"

text \<open>Opaque black, \<^verbatim>\<open>glm::vec4(glm::vec3(0.0f), 1.0f)\<close>.\<close>

definition black :: vec4 where
  "black = vec4_v3 (vec3_of (Fin 0)) (Fin 1)"

section \<open>The states of the compositing loops\<close>

text \<open>
  The 2D opacity of the sample at a position, and the state of the loop of
  \<open>traceRayComposite\<close> and of the march of all samples of \<open>traceRayTF2D\<close> after \<open>n\<close>
  passes.
\<close>

definition tf2dSampleOpacity :: "Scene \<Rightarrow> RenderConfig \<Rightarrow> vec3 \<Rightarrow> fl" where
  "tf2dSampleOpacity scene cfg p =
     getTF2DOpacity scene cfg (getSampleInterpolate scene p)
       (magnitude (getGradientInterpolate scene p))"

definition compositeMarch :: "Scene \<Rightarrow> RenderConfig \<Rightarrow> Ray \<Rightarrow> fl \<Rightarrow> nat \<Rightarrow> comp_state" where
  "compositeMarch scene cfg ray sampleStep n =
     iter_while (compositeCond ray) (compositeBody scene cfg ray sampleStep) n (compositeInit ray)"

definition tf2dMarchFull :: "Scene \<Rightarrow> RenderConfig \<Rightarrow> Ray \<Rightarrow> fl \<Rightarrow> nat \<Rightarrow> tf2d_state" where
  "tf2dMarchFull scene cfg ray sampleStep n =
     iter_while (tf2dCondFull ray) (tf2dBody scene cfg ray sampleStep) n (tf2dInit ray)"

text \<open>
  The states in which the colour \<open>C\<close> is the pair of \<open>Ci\<close> and \<open>Ai\<close> and the
  accumulators are values of the format other than negative zero (as in every state the
  loop of \<open>traceRayTF2D\<close> reaches from its initial state).
\<close>

definition tf2dRegular :: "tf2d_state \<Rightarrow> bool" where
  "tf2dRegular s =
     (tf_C s = vec4_v3 (tf_Ci s) (tf_Ai s) \<and> valid (tf_Ai s) \<and> tf_Ai s \<noteq> NZero
      \<and> valid (vx (tf_Ci s)) \<and> valid (vy (tf_Ci s)) \<and> valid (vz (tf_Ci s))
      \<and> vx (tf_Ci s) \<noteq> NZero \<and> vy (tf_Ci s) \<noteq> NZero \<and> vz (tf_Ci s) \<noteq> NZero)"

section \<open>Example scenes\<close>

text \<open>
  Small concrete scenes on which the definitions are evaluated: a scalar field \<open>f\<close> and
  a gradient field \<open>g\<close> over a volume of 2 x 2 x 2 voxels, a camera whose rays run along
  the z axis, and rays along the x axis from the origin.
\<close>

definition exScene :: "(vec3 \<Rightarrow> fl) \<Rightarrow> (vec3 \<Rightarrow> GradientVoxel) \<Rightarrow> Scene" where
  "exScene f g =
     \<lparr>getSampleInterpolate = f, maximum = Fin 1, dims = (2, 2, 2),
      getGradientInterpolate = g, maxMagnitude = Fin 1,
      position = \<lparr>vx = Fin 1, vy = Fin 0, vz = Fin 0\<rparr>,
      forward = \<lparr>vx = Fin 0, vy = Fin 0, vz = Fin 1\<rparr>,
      generateRay = (\<lambda>v. \<lparr>origin = \<lparr>vx = fadd (x2 v) (Fin (1/2)), vy = Fin (1/2), vz = Fin (- 1)\<rparr>,
                            direction = \<lparr>vx = Fin 0, vy = Fin 0, vz = Fin 1\<rparr>,
                            tmin = Fin 0, tmax = Fin 0\<rparr>)\<rparr>"

definition exConfig :: "RenderMode \<Rightarrow> bool \<Rightarrow> fl \<Rightarrow> vec4 list \<Rightarrow> vec4 \<Rightarrow> RenderConfig" where
  "exConfig mode shading isoV cmap col =
     \<lparr>renderResolution = (2, 1), renderMode = mode, isoValue = isoV, volumeShading = shading,
      tfColorMap = cmap, tfColorMapIndexStart = Fin 0, tfColorMapIndexRange = Fin 1,
      TF2DIntensity = Fin 0, TF2DRadius = Fin 1, TF2DColor = col\<rparr>"

definition exRay :: "fl \<Rightarrow> fl \<Rightarrow> Ray" where
  "exRay t0 t1 =
     \<lparr>origin = vec3_of (Fin 0), direction = \<lparr>vx = Fin 1, vy = Fin 0, vz = Fin 0\<rparr>,
      tmin = t0, tmax = t1\<rparr>"

text \<open>A gradient field that is zero except on the plane \<open>x = 1\<close>.\<close>

definition exGradient :: "vec3 \<Rightarrow> GradientVoxel" where
  "exGradient p =
     \<lparr>dir = (if feq (vx p) (Fin 1) then \<lparr>vx = Fin 1, vy = Fin 0, vz = Fin 0\<rparr> else vec3_of (Fin 0)),
      magnitude = Fin 1\<rparr>"

text \<open>The gradient field of a uniform region: zero everywhere.\<close>

definition exFlat :: "vec3 \<Rightarrow> GradientVoxel" where
  "exFlat p = \<lparr>dir = vec3_of (Fin 0), magnitude = Fin 0\<rparr>"

definition rgba :: "real \<Rightarrow> real \<Rightarrow> real \<Rightarrow> real \<Rightarrow> vec4" where
  "rgba r g b a = \<lparr>cr = Fin r, cg = Fin g, cb = Fin b, ca = Fin a\<rparr>"

text \<open>A field that is \<open>0\<close> on the plane \<open>x = 0\<close> and \<open>5\<close> elsewhere.\<close>

definition exStepField :: "vec3 \<Rightarrow> fl" where
  "exStepField p = (if feq (vx p) (Fin 0) then Fin 0 else Fin 5)"

section \<open>Rounding to the format\<close>

text \<open>
  Rounding is odd, monotone and idempotent; its values are multiples of \<open>2^-149\<close>; a
  number \<open>m * 2^e\<close> with \<open>|m| < 2^24\<close> and \<open>e \<ge> -149\<close> is left unchanged, and so is
  the double of a number that is left unchanged.
\<close>

lemma quantum_pos: "0 < quantum x"
  by (simp add: quantum_def)

lemma rne_of_int: "rne (of_int n) = n"
  by (simp add: rne_def)

lemma rne_err: "\<bar>of_int (rne y) - y\<bar> \<le> 1/2"
proof -
  have "of_int \<lfloor>y\<rfloor> \<le> y" "y < of_int \<lfloor>y\<rfloor> + 1" by linarith+
  then show ?thesis by (auto simp: rne_def)
qed

lemma rne_mono: "y \<le> z \<Longrightarrow> rne y \<le> rne z"
proof (rule ccontr)
  assume yz: "y \<le> z" and "\<not> rne y \<le> rne z"
  then have "rne z + 1 \<le> rne y" by simp
  then have r: "of_int (rne z) + (1::real) \<le> of_int (rne y)" by linarith
  have "\<bar>of_int (rne y) - y\<bar> \<le> 1/2" "\<bar>of_int (rne z) - z\<bar> \<le> 1/2" by (rule rne_err)+
  with r yz have "y = z" by linarith
  with \<open>\<not> rne y \<le> rne z\<close> show False by simp
qed

lemma rne_minus: "rne (- y) = - rne y"
proof (cases "y = of_int \<lfloor>y\<rfloor>")
  case True
  then obtain n where "y = of_int n" ..
  then have "- y = of_int (- n)" by simp
  then show ?thesis unfolding \<open>y = of_int n\<close> by (simp only: rne_of_int)
next
  case False
  have b: "of_int \<lfloor>y\<rfloor> < y" "y < of_int \<lfloor>y\<rfloor> + 1" using False by linarith+
  have f: "\<lfloor>- y\<rfloor> = - \<lfloor>y\<rfloor> - 1" using b by linarith
  show ?thesis using b by (auto simp: rne_def f)
qed

lemma expo_minus: "expo (- x) = expo x" by (simp add: expo_def)
lemma quantum_minus: "quantum (- x) = quantum x" by (simp add: quantum_def expo_minus)
lemma round_real_minus: "round_real (- x) = - round_real x"
  by (simp add: round_real_def quantum_minus rne_minus)

lemma round_real_0: "round_real 0 = 0"
  by (simp add: round_real_def rne_def)

lemma expo_ge: "- 126 \<le> expo x" by (simp add: expo_def)

lemma expo_upper: assumes "x \<noteq> 0" shows "\<bar>x\<bar> < 2 powr (of_int (expo x) + 1)"
proof -
  have "\<bar>x\<bar> < 2 powr (of_int \<lfloor>log 2 \<bar>x\<bar>\<rfloor> + 1)"
    using floor_log_eq_powr_iff[of "\<bar>x\<bar>" 2 "\<lfloor>log 2 \<bar>x\<bar>\<rfloor>"] assms by simp
  also have "\<dots> \<le> 2 powr (of_int (expo x) + 1)" by (simp add: expo_def)
  finally show ?thesis .
qed

lemma expo_lower: assumes "x \<noteq> 0" "expo x \<noteq> - 126 \<or> 2 powr (- 126) \<le> \<bar>x\<bar>"
  shows "2 powr (of_int (expo x)) \<le> \<bar>x\<bar>"
proof (cases "expo x = - 126")
  case True
  then show ?thesis using assms by simp
next
  case False
  then have "expo x = \<lfloor>log 2 \<bar>x\<bar>\<rfloor>" by (simp add: expo_def max_def split: if_splits)
  then show ?thesis using floor_log_eq_powr_iff[of "\<bar>x\<bar>" 2 "\<lfloor>log 2 \<bar>x\<bar>\<rfloor>"] assms by simp
qed

lemma expo_eqI:
  assumes "- 126 \<le> e" "2 powr (of_int e) \<le> \<bar>x\<bar>" "\<bar>x\<bar> < 2 powr (of_int e + 1)"
  shows "expo x = e"
proof -
  have "0 < \<bar>x\<bar>" using assms(2) powr_gt_zero[of 2 "of_int e"] by linarith
  then have "\<lfloor>log 2 \<bar>x\<bar>\<rfloor> = e" using floor_log_eq_powr_iff[of "\<bar>x\<bar>" 2 e] assms by simp
  then show ?thesis using assms(1) by (simp add: expo_def)
qed

lemma expo_sub:
  assumes "x \<noteq> 0" "\<bar>x\<bar> < 2 powr (- 126)"
  shows "expo x = - 126"
proof -
  have "\<not> 2 powr (of_int \<lfloor>log 2 \<bar>x\<bar>\<rfloor>) > \<bar>x\<bar>"
    using floor_log_eq_powr_iff[of "\<bar>x\<bar>" 2 "\<lfloor>log 2 \<bar>x\<bar>\<rfloor>"] assms by simp
  then have "(2::real) powr (of_int \<lfloor>log 2 \<bar>x\<bar>\<rfloor>) < 2 powr (- 126)" using assms(2) by linarith
  then have "of_int \<lfloor>log 2 \<bar>x\<bar>\<rfloor> < (- 126 :: real)" by simp
  then have "\<lfloor>log 2 \<bar>x\<bar>\<rfloor> < - 126" by linarith
  then show ?thesis by (simp add: expo_def)
qed

lemma expo_mono: assumes "0 < x" "x \<le> y" shows "expo x \<le> expo y"
proof -
  have "log 2 \<bar>x\<bar> \<le> log 2 \<bar>y\<bar>" using assms by simp
  then have "\<lfloor>log 2 \<bar>x\<bar>\<rfloor> \<le> \<lfloor>log 2 \<bar>y\<bar>\<rfloor>" by (rule floor_mono)
  then show ?thesis by (auto simp: expo_def)
qed

lemma quantum_scale: "quantum x * 2 ^ 24 = 2 powr (of_int (expo x) + 1)"
  "quantum x * 2 ^ 23 = 2 powr (of_int (expo x))"
proof -
  have "(2::real) powr (of_int (expo x) - 23) * 2 powr 24 = 2 powr (of_int (expo x) - 23 + 24)"
    by (simp only: powr_add)
  then show "quantum x * 2 ^ 24 = 2 powr (of_int (expo x) + 1)" by (simp add: quantum_def add.commute)
  have "(2::real) powr (of_int (expo x) - 23) * 2 powr 23 = 2 powr (of_int (expo x) - 23 + 23)"
    by (simp only: powr_add)
  then show "quantum x * 2 ^ 23 = 2 powr (of_int (expo x))" by (simp add: quantum_def)
qed

lemma scaled_upper: assumes "0 < x" shows "x / quantum x < 2 ^ 24"
  using expo_upper[of x] assms quantum_pos[of x] quantum_scale(1)[of x]
  by (simp add: pos_divide_less_eq mult.commute)

lemma scaled_lower: assumes "0 < x" "expo x \<noteq> - 126 \<or> 2 powr (- 126) \<le> x"
  shows "2 ^ 23 \<le> x / quantum x"
  using expo_lower[of x] assms quantum_pos[of x] quantum_scale(2)[of x]
  by (simp add: pos_le_divide_eq mult.commute)

lemma rne_scaled_upper: assumes "0 < x" shows "rne (x / quantum x) \<le> 2 ^ 24"
proof -
  have "rne (x / quantum x) \<le> rne (of_int (2 ^ 24))"
    using scaled_upper[OF assms] by (intro rne_mono) simp
  then show ?thesis by (simp only: rne_of_int)
qed

lemma rne_scaled_lower: assumes "0 < x" "expo x \<noteq> - 126 \<or> 2 powr (- 126) \<le> x"
  shows "2 ^ 23 \<le> rne (x / quantum x)"
proof -
  have "rne (of_int (2 ^ 23)) \<le> rne (x / quantum x)"
    using scaled_lower[OF assms] by (intro rne_mono) simp
  then show ?thesis by (simp only: rne_of_int)
qed

lemma rne_scaled_nonneg: assumes "0 < x" shows "0 \<le> rne (x / quantum x)"
proof -
  have "rne (of_int 0) \<le> rne (x / quantum x)"
    using assms quantum_pos[of x] by (intro rne_mono) simp
  then show ?thesis by (simp only: rne_of_int)
qed

lemma round_real_upper: assumes "0 < x" shows "round_real x \<le> 2 powr (of_int (expo x) + 1)"
proof -
  have "of_int (rne (x / quantum x)) \<le> (2 ^ 24 :: real)"
    using rne_scaled_upper[OF assms] by (metis of_int_le_iff of_int_numeral of_int_power)
  then have "round_real x \<le> 2 ^ 24 * quantum x"
    unfolding round_real_def using quantum_pos[of x] by (intro mult_right_mono) simp_all
  then show ?thesis using quantum_scale(1)[of x] by (simp add: mult.commute)
qed

lemma round_real_lower: assumes "0 < x" "expo x \<noteq> - 126 \<or> 2 powr (- 126) \<le> x"
  shows "2 powr (of_int (expo x)) \<le> round_real x"
proof -
  have "(2 ^ 23 :: real) \<le> of_int (rne (x / quantum x))"
    using rne_scaled_lower[OF assms] by (metis of_int_le_iff of_int_numeral of_int_power)
  then have "2 ^ 23 * quantum x \<le> round_real x"
    unfolding round_real_def using quantum_pos[of x] by (intro mult_right_mono) simp_all
  then show ?thesis using quantum_scale(2)[of x] by (simp add: mult.commute)
qed

lemma round_real_nonneg: assumes "0 \<le> x" shows "0 \<le> round_real x"
proof (cases "x = 0")
  case True then show ?thesis by (simp add: round_real_0)
next
  case False
  then have "0 < x" using assms by simp
  then show ?thesis unfolding round_real_def
    using rne_scaled_nonneg[of x] quantum_pos[of x] by simp
qed

lemma round_real_mono_pos: assumes "0 < x" "x \<le> y" shows "round_real x \<le> round_real y"
proof (cases "expo x = expo y")
  case True
  then have q: "quantum x = quantum y" by (simp add: quantum_def)
  have "x / quantum y \<le> y / quantum y" using assms quantum_pos[of y] by (simp add: divide_right_mono)
  then have "rne (x / quantum y) \<le> rne (y / quantum y)" by (rule rne_mono)
  then show ?thesis unfolding round_real_def q using quantum_pos[of y]
    by (intro mult_right_mono) simp_all
next
  case False
  then have lt: "expo x < expo y" using expo_mono[OF assms] by simp
  then have ny: "expo y \<noteq> - 126" using expo_ge[of x] by simp
  have "round_real x \<le> 2 powr (of_int (expo x) + 1)" using round_real_upper[OF assms(1)] .
  also have "\<dots> \<le> 2 powr (of_int (expo y))" using lt by simp
  also have "\<dots> \<le> round_real y" using round_real_lower[of y] ny assms by simp
  finally show ?thesis .
qed

lemma round_real_mono: assumes "x \<le> y" shows "round_real x \<le> round_real y"
proof -
  consider "0 < x" | "x \<le> 0" "0 \<le> y" | "y < 0" by linarith
  then show ?thesis
  proof cases
    case 1 then show ?thesis using round_real_mono_pos assms by simp
  next
    case 2
    have "round_real x = - round_real (- x)" by (simp add: round_real_minus)
    then have "round_real x \<le> 0" using round_real_nonneg[of "- x"] 2 by simp
    then show ?thesis using round_real_nonneg[of y] 2 by simp
  next
    case 3
    then have "round_real (- y) \<le> round_real (- x)" using assms by (intro round_real_mono_pos) simp_all
    then show ?thesis by (simp add: round_real_minus)
  qed
qed

lemma round_real_fixI: assumes "x = of_int k * quantum x" shows "round_real x = x"
proof -
  have "x / quantum x = of_int k" using assms quantum_pos[of x] by (simp add: field_simps)
  then have "round_real x = of_int (rne (of_int k)) * quantum x" by (simp only: round_real_def)
  then show ?thesis by (simp add: rne_of_int assms[symmetric])
qed

lemma pow2_split: "(2::real) powr (of_int a + of_int b) = 2 powr of_int a * 2 powr of_int b"
  by (simp add: powr_add)

lemma pow2_nat: "0 \<le> k \<Longrightarrow> (2::real) powr (of_int k) = of_int (2 ^ nat k)"
  using powr_realpow[of "2::real" "nat k"] by simp

lemma quantum_grid: "quantum x = of_int (2 ^ nat (expo x + 126)) * 2 powr (- 149)"
proof -
  have "quantum x = 2 powr (of_int (expo x + 126) + (- 149))"
    by (simp add: quantum_def)
  also have "\<dots> = 2 powr (of_int (expo x + 126)) * 2 powr (- 149)" by (simp only: powr_add)
  also have "\<dots> = of_int (2 ^ nat (expo x + 126)) * 2 powr (- 149)"
    using pow2_nat[of "expo x + 126"] expo_ge[of x] by simp
  finally show ?thesis .
qed

lemma round_real_grid: "\<exists>k::int. round_real x = of_int k * 2 powr (- 149)"
proof -
  have "round_real x = of_int (rne (x / quantum x) * 2 ^ nat (expo x + 126)) * 2 powr (- 149)"
    unfolding round_real_def by (subst quantum_grid) simp
  then show ?thesis by blast
qed

lemma fix_int_quantum_pos:
  assumes r: "r = of_int n * 2 powr (of_int e - 23)" and e: "- 126 \<le> e" and n0: "0 < n"
    and n1: "n \<le> 2 ^ 24" and nrm: "e = - 126 \<or> 2 ^ 23 \<le> n"
  shows "round_real r = r"
proof -
  let ?q = "(2::real) powr (of_int e - 23)"
  have q: "0 < ?q" by simp
  have q24: "?q * 2 ^ 24 = 2 powr (of_int e + 1)"
  proof -
    have "?q * 2 powr 24 = 2 powr (of_int e - 23 + 24)" by (simp only: powr_add)
    then show ?thesis by (simp add: add.commute)
  qed
  have q23: "?q * 2 ^ 23 = 2 powr (of_int e)"
  proof -
    have "?q * 2 powr 23 = 2 powr (of_int e - 23 + 23)" by (simp only: powr_add)
    then show ?thesis by simp
  qed
  have rpos: "0 < r" using r n0 by simp
  consider (top) "n = 2 ^ 24" | (mid) "2 ^ 23 \<le> n" "n < 2 ^ 24" | (low) "n < 2 ^ 23" using n1 by linarith
  then show ?thesis
  proof cases
    case top
    have rv: "r = 2 powr (of_int (e + 1))" using r top q24 by (simp add: mult.commute)
    have "expo r = e + 1" using e rpos by (intro expo_eqI) (simp_all add: rv)
    then have "quantum r = 2 powr (of_int e - 23 + 1)" by (simp add: quantum_def)
    also have "\<dots> = ?q * 2" by (simp only: powr_add) simp
    finally have "r = of_int (2 ^ 23) * quantum r" using r top by simp
    then show ?thesis by (rule round_real_fixI)
  next
    case mid
    have "(2 ^ 23 :: real) \<le> of_int n" "of_int n < (2 ^ 24 :: real)"
      using mid by (metis of_int_le_iff of_int_numeral of_int_power, metis of_int_less_iff of_int_numeral of_int_power)
    then have "2 ^ 23 * ?q \<le> r" "r < 2 ^ 24 * ?q" using q unfolding r by simp_all
    then have "2 powr (of_int e) \<le> \<bar>r\<bar>" "\<bar>r\<bar> < 2 powr (of_int e + 1)"
      using q23 q24 rpos by (simp_all add: mult.commute)
    then have "expo r = e" using e by (intro expo_eqI)
    then have "r = of_int n * quantum r" using r by (simp add: quantum_def)
    then show ?thesis by (rule round_real_fixI)
  next
    case low
    then have e': "e = - 126" using nrm by simp
    have "of_int n < (2 ^ 23 :: real)"
      using low by (metis of_int_less_iff of_int_numeral of_int_power)
    then have "r < 2 ^ 23 * ?q" using q unfolding r by simp
    then have "\<bar>r\<bar> < 2 powr (- 126)" using q23 rpos e' by (simp add: mult.commute)
    then have "expo r = - 126" using rpos by (intro expo_sub) simp_all
    then have "r = of_int n * quantum r" using r e' by (simp add: quantum_def)
    then show ?thesis by (rule round_real_fixI)
  qed
qed

lemma round_real_idem_pos: assumes "0 < x" shows "round_real (round_real x) = round_real x"
proof (cases "rne (x / quantum x) = 0")
  case True
  then show ?thesis by (simp add: round_real_def[of x] round_real_0)
next
  case False
  then have n0: "0 < rne (x / quantum x)" using rne_scaled_nonneg[OF assms] by simp
  have nrm: "expo x = - 126 \<or> 2 ^ 23 \<le> rne (x / quantum x)"
    using rne_scaled_lower[OF assms] by blast
  have r: "round_real x = of_int (rne (x / quantum x)) * 2 powr (of_int (expo x) - 23)"
    by (simp add: round_real_def quantum_def)
  show ?thesis
    by (rule fix_int_quantum_pos[OF r expo_ge n0 rne_scaled_upper[OF assms] nrm])
qed

lemma round_real_idem: "round_real (round_real x) = round_real x"
proof -
  consider "0 < x" | "x = 0" | "x < 0" by linarith
  then show ?thesis
  proof cases
    case 1 then show ?thesis by (rule round_real_idem_pos)
  next
    case 2 then show ?thesis by (simp add: round_real_0)
  next
    case 3
    then have "round_real (round_real (- x)) = round_real (- x)" by (intro round_real_idem_pos) simp
    then show ?thesis by (simp add: round_real_minus)
  qed
qed

lemma round_real_dyadic:
  assumes m: "\<bar>m\<bar> < 2 ^ 24" and e: "- 149 \<le> e"
  shows "round_real (of_int m * 2 powr of_int e) = of_int m * 2 powr of_int e"
proof (cases "m = 0")
  case True then show ?thesis by (simp add: round_real_0)
next
  case False
  let ?x = "of_int m * (2::real) powr of_int e"
  have x0: "?x \<noteq> 0" using False by simp
  have ax: "\<bar>?x\<bar> = of_int \<bar>m\<bar> * 2 powr of_int e" by (simp add: abs_mult)
  have "of_int \<bar>m\<bar> < (2 ^ 24 :: real)"
    using m by (metis of_int_less_iff of_int_numeral of_int_power)
  then have "\<bar>?x\<bar> < 2 ^ 24 * 2 powr of_int e" unfolding ax by simp
  also have "\<dots> = 2 powr (of_int e + 24)"
  proof -
    have "(2::real) powr of_int e * 2 powr 24 = 2 powr (of_int e + 24)" by (simp only: powr_add)
    then show ?thesis by (simp add: mult.commute)
  qed
  finally have up: "\<bar>?x\<bar> < 2 powr (of_int e + 24)" .
  have le: "expo ?x - 23 \<le> e"
  proof (cases "expo ?x = - 126")
    case True then show ?thesis using e by simp
  next
    case False
    then have "2 powr (of_int (expo ?x)) \<le> \<bar>?x\<bar>" using expo_lower[OF x0] by simp
    then have "(2::real) powr (of_int (expo ?x)) < 2 powr (of_int e + 24)" using up by linarith
    then have "of_int (expo ?x) < (of_int e + 24 :: real)" by simp
    then show ?thesis by linarith
  qed
  define k where "k = e - (expo ?x - 23)"
  have k: "0 \<le> k" using le by (simp add: k_def)
  have "(2::real) powr of_int e = 2 powr (of_int k + (of_int (expo ?x) - 23))"
    by (simp add: k_def)
  also have "\<dots> = 2 powr (of_int k) * quantum ?x" by (simp only: powr_add quantum_def)
  also have "\<dots> = of_int (2 ^ nat k) * quantum ?x" using pow2_nat[OF k] by simp
  finally have "?x = of_int (m * 2 ^ nat k) * quantum ?x" by simp
  then show ?thesis by (rule round_real_fixI)
qed

lemma round_real_double: assumes "round_real r = r" shows "round_real (2 * r) = 2 * r"
proof (cases "r = 0")
  case True then show ?thesis by (simp add: round_real_0)
next
  case False
  define n where "n = rne (r / quantum r)"
  have rn: "r = of_int n * quantum r" using assms by (simp add: round_real_def n_def)
  show ?thesis
  proof (cases "2 powr (- 126) \<le> \<bar>r\<bar>")
    case True
    have lo: "2 powr (of_int (expo r)) \<le> \<bar>r\<bar>" using expo_lower[OF False] True by simp
    have up: "\<bar>r\<bar> < 2 powr (of_int (expo r) + 1)" using expo_upper[OF False] .
    have p1: "(2::real) powr (of_int (expo r) + 1) = 2 * 2 powr (of_int (expo r))"
      using powr_add[of "2::real" "of_int (expo r)" 1] by simp
    have p2: "(2::real) powr (of_int (expo r) + 1 + 1) = 2 * 2 powr (of_int (expo r) + 1)"
      using powr_add[of "2::real" "of_int (expo r) + 1" 1] by simp
    have a: "2 powr (of_int (expo r + 1)) \<le> \<bar>2 * r\<bar>" using lo p1 by (simp add: abs_mult)
    have b: "\<bar>2 * r\<bar> < 2 powr (of_int (expo r + 1) + 1)" using up p2 by (simp add: abs_mult)
    have "expo (2 * r) = expo r + 1"
      using expo_ge[of r] by (intro expo_eqI a b) simp
    then have "quantum (2 * r) = 2 powr (of_int (expo r) - 23 + 1)" by (simp add: quantum_def)
    also have "\<dots> = 2 * quantum r" unfolding quantum_def by (simp only: powr_add) simp
    finally have "2 * r = of_int n * quantum (2 * r)" using rn by simp
    then show ?thesis by (rule round_real_fixI)
  next
    case False
    then have sub: "\<bar>r\<bar> < 2 powr (- 126)" by simp
    have er: "expo r = - 126" using \<open>r \<noteq> 0\<close> sub by (rule expo_sub)
    have p: "(2::real) powr (- 126 + 1) = 2 * 2 powr (- 126)"
      by (simp only: powr_add) simp
    have "expo (2 * r) = - 126"
    proof (cases "\<bar>2 * r\<bar> < 2 powr (- 126)")
      case True then show ?thesis using \<open>r \<noteq> 0\<close> by (intro expo_sub) simp_all
    next
      case False
      then have "2 powr (of_int (- 126)) \<le> \<bar>2 * r\<bar>" by simp
      moreover have "\<bar>2 * r\<bar> < 2 powr (of_int (- 126) + 1)" using sub p by simp
      ultimately show ?thesis by (intro expo_eqI) simp_all
    qed
    then have "quantum (2 * r) = quantum r" using er by (simp add: quantum_def)
    then have "2 * r = of_int (2 * n) * quantum (2 * r)" using rn by simp
    then show ?thesis by (rule round_real_fixI)
  qed
qed

lemma rne_small: "\<bar>y\<bar> \<le> 1/2 \<Longrightarrow> rne y = 0"
proof -
  assume a: "\<bar>y\<bar> \<le> 1/2"
  have p: "rne z = 0" if "0 \<le> z" "z \<le> 1/2" for z
  proof -
    have "\<lfloor>z\<rfloor> = 0" using that by linarith
    then show ?thesis using that by (simp add: rne_def)
  qed
  show ?thesis
  proof (cases "0 \<le> y")
    case True then show ?thesis using p[of y] a by simp
  next
    case False
    then have "rne (- y) = 0" using p[of "- y"] a by simp
    then show ?thesis by (simp add: rne_minus)
  qed
qed

lemma round_real_underflow: assumes "\<bar>x\<bar> \<le> 2 powr (- 150)" shows "round_real x = 0"
proof (cases "x = 0")
  case True then show ?thesis by (simp add: round_real_0)
next
  case False
  have "(2::real) powr (- 150) < 2 powr (- 126)" by simp
  then have "\<bar>x\<bar> < 2 powr (- 126)" using assms by linarith
  then have "expo x = - 126" using False by (intro expo_sub)
  then have q: "quantum x = 2 powr (- 149)" by (simp add: quantum_def)
  have "(2::real) powr (- 150) = 2 powr (- 149 + (- 1))" by simp
  also have "\<dots> = 2 powr (- 149) * (1/2)" by (simp only: powr_add) simp
  finally have "\<bar>x\<bar> \<le> 2 powr (- 149) * (1/2)" using assms by simp
  then have "\<bar>x / quantum x\<bar> \<le> 1/2" unfolding q by (simp add: field_simps)
  then have "rne (x / quantum x) = 0" by (rule rne_small)
  then show ?thesis by (simp add: round_real_def)
qed

lemma round_real_tie_2_24: "round_real (2 ^ 24 + 1) = 2 ^ 24"
proof -
  have "expo (2 ^ 24 + 1) = 24" by (intro expo_eqI) simp_all
  then have q: "quantum (2 ^ 24 + 1) = 2" by (simp add: quantum_def)
  have "rne ((2 ^ 24 + 1) / 2) = 2 ^ 23" by (simp add: rne_def)
  then show ?thesis unfolding round_real_def q by simp
qed

section \<open>Values of the format\<close>

lemma is_float_0: "is_float 0"
  by (simp add: is_float_def round_real_0)

lemma is_float_minus [simp]: "is_float (- r) = is_float r"
  by (auto simp: is_float_def round_real_minus)

lemma is_float_dyadic:
  assumes "\<bar>m\<bar> < 2 ^ 24" "- 149 \<le> e" "e \<le> 104"
  shows "is_float (of_int m * 2 powr of_int e)"
proof -
  have "of_int \<bar>m\<bar> < (2 ^ 24 :: real)"
    using assms(1) by (metis of_int_less_iff of_int_numeral of_int_power)
  moreover have "(2::real) powr of_int e \<le> 2 powr 104"
    by (rule powr_mono) (use assms(3) in simp_all)
  ultimately have "of_int \<bar>m\<bar> * (2::real) powr of_int e < 2 ^ 24 * 2 powr 104"
    by (intro mult_less_le_imp_less) simp_all
  then have "\<bar>of_int m * (2::real) powr of_int e\<bar> < 2 ^ 128" by (simp add: abs_mult)
  then show ?thesis using round_real_dyadic[OF assms(1,2)] by (simp add: is_float_def)
qed

lemma is_float_div_pow2:
  assumes "\<bar>m\<bar> < 2 ^ 24" "k \<le> 149"
  shows "is_float (of_int m / 2 ^ k)"
proof -
  have "(2::real) powr of_int (- int k) = 1 / 2 ^ k"
    using powr_realpow[of "2::real" k] by (simp add: powr_minus divide_simps)
  then show ?thesis using is_float_dyadic[OF assms(1), of "- int k"] assms(2) by simp
qed

lemma is_float_mul_pow2:
  assumes "\<bar>m\<bar> < 2 ^ 24" "k \<le> 104"
  shows "is_float (of_int m * 2 ^ k)"
proof -
  have "(2::real) powr of_int (int k) = 2 ^ k"
    using powr_realpow[of "2::real" k] by simp
  then show ?thesis using is_float_dyadic[OF assms(1), of "int k"] assms(2) by simp
qed

lemma is_float_round: "\<bar>round_real x\<bar> < 2 ^ 128 \<Longrightarrow> is_float (round_real x)"
  by (simp add: is_float_def round_real_idem)

lemma is_float_grid: "is_float r \<Longrightarrow> \<exists>k::int. r = of_int k * 2 powr (- 149)"
  using round_real_grid[of r] by (simp add: is_float_def)

lemma is_float_double: "is_float r \<Longrightarrow> \<bar>2 * r\<bar> < 2 ^ 128 \<Longrightarrow> is_float (2 * r)"
  using round_real_double[of r] by (simp add: is_float_def)

lemma round_real_between:
  assumes "is_float a" "is_float b" "a \<le> x" "x \<le> b"
  shows "a \<le> round_real x" "round_real x \<le> b" "is_float (round_real x)"
proof -
  show a: "a \<le> round_real x" using round_real_mono[OF assms(3)] assms(1) by (simp add: is_float_def)
  show b: "round_real x \<le> b" using round_real_mono[OF assms(4)] assms(2) by (simp add: is_float_def)
  have "\<bar>round_real x\<bar> < 2 ^ 128" using a b assms(1,2) unfolding is_float_def by linarith
  then show "is_float (round_real x)" by (rule is_float_round)
qed

text \<open>The numbers that the evaluations below meet.\<close>

lemma float_vals:
  "is_float 0" "is_float 1" "is_float 2" "is_float 3" "is_float 4" "is_float 5"
  "is_float (1/2)" "is_float (3/2)" "is_float (1/4)" "is_float (3/4)"
  "is_float (31/32)" "is_float (1/32)" "is_float (1023/1024)" "is_float (31/1024)"
  using is_float_0 is_float_mul_pow2[of 1 0] is_float_mul_pow2[of 2 0] is_float_mul_pow2[of 3 0]
    is_float_mul_pow2[of 4 0] is_float_mul_pow2[of 5 0]
    is_float_div_pow2[of 1 1] is_float_div_pow2[of 3 1] is_float_div_pow2[of 1 2]
    is_float_div_pow2[of 3 2] is_float_div_pow2[of 31 5] is_float_div_pow2[of 1 5]
    is_float_div_pow2[of 1023 10] is_float_div_pow2[of 31 10]
  by simp_all

lemma float_pows:
  "is_float (2 ^ 24)" "is_float (2 ^ 24 + 2)" "is_float (2 ^ 70)" "is_float (2 ^ 71)"
  "is_float (2 ^ 100)" "is_float (2 ^ 127)" "is_float (1 / 2 ^ 100)"
  using is_float_mul_pow2[of 1 24] is_float_mul_pow2[of "2 ^ 23 + 1" 1] is_float_mul_pow2[of 1 70]
    is_float_mul_pow2[of 1 71] is_float_mul_pow2[of 1 100] is_float_mul_pow2[of "2 ^ 23" 104]
    is_float_div_pow2[of 1 100]
  by simp_all

lemma fround_float: "is_float r \<Longrightarrow> fround s r = mk_fin s r"
  by (simp add: fround_def is_float_def)

lemma valid_zero_s [simp]: "valid (zero_s s)"
  by (simp add: zero_s_def is_float_0)

lemma valid_inf_s [simp]: "valid (inf_s s)"
  by (simp add: inf_s_def)

lemma valid_fround [simp]: "valid (fround s x)"
  using is_float_round[of x] by (simp add: fround_def Let_def mk_fin_def not_le)

lemma valid_fadd [simp]: "valid (fadd a b)"
  by (cases a; cases b) (simp_all add: fadd_def is_float_0)

lemma valid_fmul [simp]: "valid (fmul a b)"
  by (simp add: fmul_def)

lemma valid_fdiv [simp]: "valid (fdiv a b)"
  by (simp add: fdiv_def)

lemma valid_fneg: "valid a \<Longrightarrow> valid (fneg a)"
  by (cases a) (simp_all add: is_float_0)

lemma valid_fsub [simp]: "valid (fsub a b)"
  by (simp add: fsub_def)

lemma fin_simps [simp]: "fin (Fin r)" "fin NZero" "\<not> fin PInf" "\<not> fin NInf" "\<not> fin NaN"
  by (auto simp: fin_def)

lemmas fl_arith = fadd_def fsub_def fmul_def fdiv_def mk_fin_def zero_s_def inf_s_def
  float_of_int_def fround_float float_vals
lemmas fl_cmp = flt_def feq_def fle_def fgt_def fge_def
lemmas vec_defs = vec3_of_def vec4_of_def vec4_v3_def vadd_def vsub_def vmul_def vscale_def
  vneg_def vdivs_def v4add_def v4scale_def
lemmas ex_defs = exScene_def exConfig_def exRay_def exGradient_def rgba_def

lemma Fin_ops:
  "is_float (a + b) \<Longrightarrow> fadd (Fin a) (Fin b) = Fin (a + b)"
  "is_float (a - b) \<Longrightarrow> fsub (Fin a) (Fin b) = Fin (a - b)"
  "is_float (a * b) \<Longrightarrow> 0 \<le> a \<Longrightarrow> 0 \<le> b \<Longrightarrow> fmul (Fin a) (Fin b) = Fin (a * b)"
  "flt (Fin a) (Fin b) = (a < b)"
  "fle (Fin a) (Fin b) = (a \<le> b)"
  "fge (Fin a) (Fin b) = (b \<le> a)"
  "fgt (Fin a) (Fin b) = (b < a)"
  "feq (Fin a) (Fin b) = (a = b)"
  by (auto simp: fl_arith fl_cmp)

section \<open>Rounded results\<close>

declare bisectionLoop.simps [simp del]

lemma pow2_150: "(2::real) powr (- 150) = 1 / 2 ^ 150"
  by (simp add: powr_neg_numeral)

lemma fround_underflow: "\<bar>x\<bar> \<le> 1 / 2 ^ 150 \<Longrightarrow> fround s x = zero_s s"
  using round_real_underflow[of x] by (simp add: fround_def mk_fin_def pow2_150)

lemma round_real_pow2_128: "round_real (2 ^ 128) = 2 ^ 128"
  using round_real_dyadic[of 1 128] powr_realpow[of "2::real" 128] by simp

lemma round_real_overflow: assumes "2 ^ 128 \<le> \<bar>x\<bar>" shows "2 ^ 128 \<le> \<bar>round_real x\<bar>"
proof (cases "0 \<le> x")
  case True
  then have "round_real (2 ^ 128) \<le> round_real x" using assms by (intro round_real_mono) simp
  then have "2 ^ 128 \<le> round_real x" by (simp only: round_real_pow2_128)
  then show ?thesis by linarith
next
  case False
  then have "round_real (2 ^ 128) \<le> round_real (- x)" using assms by (intro round_real_mono) simp
  then have "2 ^ 128 \<le> - round_real x" by (simp only: round_real_pow2_128 round_real_minus)
  then show ?thesis by linarith
qed

lemma fround_overflow: "2 ^ 128 \<le> \<bar>x\<bar> \<Longrightarrow> fround s x = inf_s s"
  using round_real_overflow[of x] by (simp add: fround_def)

lemma fround_cases:
  "fround s x = inf_s s \<or> (round_real x = 0 \<and> fround s x = zero_s s)
   \<or> (round_real x \<noteq> 0 \<and> is_float (round_real x) \<and> fround s x = Fin (round_real x))"
  using is_float_round[of x] by (auto simp: fround_def Let_def mk_fin_def not_le)

lemma fround_nonneg:
  assumes "0 \<le> x"
  shows "fround False x = PInf \<or> (\<exists>y. 0 \<le> y \<and> fround False x = Fin y)"
  using fround_cases[of False x] round_real_nonneg[OF assms] by (auto simp: inf_s_def zero_s_def)

lemma fround_ge:
  assumes "is_float a" "0 < a" "a \<le> x"
  shows "fround False x = PInf \<or> (\<exists>y. a \<le> y \<and> is_float y \<and> fround False x = Fin y)"
proof -
  have "a \<le> round_real x" using round_real_mono[OF assms(3)] assms(1) by (simp add: is_float_def)
  then show ?thesis using fround_cases[of False x] assms(2) by (auto simp: inf_s_def zero_s_def)
qed

section \<open>Evaluating the example scenes\<close>

lemma exScene_sel [simp]:
  "getSampleInterpolate (exScene f g) = f"
  "getGradientInterpolate (exScene f g) = g"
  "maximum (exScene f g) = Fin 1"
  "maxMagnitude (exScene f g) = Fin 1"
  "dims (exScene f g) = (2, 2, 2)"
  "position (exScene f g) = \<lparr>vx = Fin 1, vy = Fin 0, vz = Fin 0\<rparr>"
  "forward (exScene f g) = \<lparr>vx = Fin 0, vy = Fin 0, vz = Fin 1\<rparr>"
  by (simp_all add: exScene_def)

lemma exConfig_sel [simp]:
  "renderResolution (exConfig m sh i cm col) = (2, 1)"
  "renderMode (exConfig m sh i cm col) = m"
  "isoValue (exConfig m sh i cm col) = i"
  "volumeShading (exConfig m sh i cm col) = sh"
  "tfColorMap (exConfig m sh i cm col) = cm"
  "tfColorMapIndexStart (exConfig m sh i cm col) = Fin 0"
  "tfColorMapIndexRange (exConfig m sh i cm col) = Fin 1"
  "TF2DIntensity (exConfig m sh i cm col) = Fin 0"
  "TF2DRadius (exConfig m sh i cm col) = Fin 1"
  "TF2DColor (exConfig m sh i cm col) = col"
  by (simp_all add: exConfig_def)

lemma exRay_sel [simp]:
  "origin (exRay a b) = \<lparr>vx = Fin 0, vy = Fin 0, vz = Fin 0\<rparr>"
  "direction (exRay a b) = \<lparr>vx = Fin 1, vy = Fin 0, vz = Fin 0\<rparr>"
  "tmin (exRay a b) = a"
  "tmax (exRay a b) = b"
  by (simp_all add: exRay_def vec3_of_def)

lemma rgba_sel [simp]:
  "cr (rgba r g b a) = Fin r" "cg (rgba r g b a) = Fin g" "cb (rgba r g b a) = Fin b"
  "ca (rgba r g b a) = Fin a"
  by (simp_all add: rgba_def)

section \<open>Ray/box intersection\<close>

text \<open>
  C4. The claim: whenever \<open>instersectRayVolumeBounds\<close> returns true the interval it writes
  satisfies \<open>tmin \<le> tmax\<close>, and for an origin inside the box it returns true with
  \<open>tmin \<le> 0 \<le> tmax\<close>. The code at the ray with origin \<open>(0, 1/2, 1/2)\<close> (on the face
  \<open>x = 0\<close> of the unit box) and direction \<open>(0, 0, 1)\<close>: the x slab computes
  \<open>(0 - 0) * (1 / 0) = 0 * inf = NaN\<close>, no comparison with NaN rejects the ray, and
  \<open>std::max\<close> returns its NaN first argument. The function returns true with
  \<open>tmin = NaN\<close>, so neither \<open>tmin \<le> tmax\<close> nor \<open>tmin \<le> 0\<close> holds.
\<close>

theorem intersect_boundary_ray_nan:
  "instersectRayVolumeBounds
     \<lparr>origin = \<lparr>vx = Fin 0, vy = Fin (1/2), vz = Fin (1/2)\<rparr>,
      direction = \<lparr>vx = Fin 0, vy = Fin 0, vz = Fin 1\<rparr>, tmin = Fin 0, tmax = Fin 0\<rparr>
     \<lparr>lower = vec3_of (Fin 0), upper = vec3_of (Fin 1)\<rparr>
   = (True,
      \<lparr>origin = \<lparr>vx = Fin 0, vy = Fin (1/2), vz = Fin (1/2)\<rparr>,
       direction = \<lparr>vx = Fin 0, vy = Fin 0, vz = Fin 1\<rparr>, tmin = NaN, tmax = Fin (1/2)\<rparr>)
   \<and> \<not> fle NaN (Fin (1/2)) \<and> \<not> fle NaN (Fin 0)"
  by (simp add: instersectRayVolumeBounds_def Let_def fl_arith fl_cmp std_max_def std_min_def
      lowerUpper_def vec3_of_def)

section \<open>The pixel loop\<close>

lemma renderPixel_effect:
  assumes "renderPixel scene r p = Some (Inr r')"
  shows "m_config r' = m_config r \<and> length (m_frameBuffer r') = length (m_frameBuffer r)
    \<and> (if hitPixel scene (m_config r) p
        then \<exists>c. tracePixel scene (m_config r) (clippedRay scene (m_config r) p) = Some (Inr c)
               \<and> pixelIndex (m_config r) (fst p) (snd p) < length (m_frameBuffer r)
               \<and> m_frameBuffer r' = (m_frameBuffer r)[pixelIndex (m_config r) (fst p) (snd p) := c]
        else r' = r)"
  using assms
  by (auto simp: renderPixel_def hitPixel_def clippedRay_def fillColor_def Let_def
      split: prod.splits bool.splits option.splits sum.splits if_splits)

lemma renderLoop_frame:
  assumes "renderLoop scene ps r = Some (Inr r')"
  shows "m_config r' = m_config r \<and> length (m_frameBuffer r') = length (m_frameBuffer r)
    \<and> (\<forall>i. (\<forall>p \<in> set ps. hitPixel scene (m_config r) p
                 \<longrightarrow> pixelIndex (m_config r) (fst p) (snd p) \<noteq> i)
          \<longrightarrow> m_frameBuffer r' ! i = m_frameBuffer r ! i)"
  using assms
proof (induction ps arbitrary: r)
  case Nil
  then show ?case by simp
next
  case (Cons p ps)
  from Cons.prems obtain r1 where r1: "renderPixel scene r p = Some (Inr r1)"
    and rest: "renderLoop scene ps r1 = Some (Inr r')"
    by (auto split: option.splits sum.splits)
  note e = renderPixel_effect[OF r1]
  note ih = Cons.IH[OF rest]
  have cfg: "m_config r1 = m_config r" using e by simp
  show ?case
  proof (intro conjI allI impI)
    show "m_config r' = m_config r" using ih cfg by simp
    show "length (m_frameBuffer r') = length (m_frameBuffer r)" using ih e by simp
    fix i
    assume a: "\<forall>q \<in> set (p # ps). hitPixel scene (m_config r) q
                 \<longrightarrow> pixelIndex (m_config r) (fst q) (snd q) \<noteq> i"
    have "m_frameBuffer r' ! i = m_frameBuffer r1 ! i" using ih a cfg by simp
    also have "m_frameBuffer r1 ! i = m_frameBuffer r ! i"
    proof (cases "hitPixel scene (m_config r) p")
      case True
      then have "pixelIndex (m_config r) (fst p) (snd p) \<noteq> i" using a by simp
      then show ?thesis using e True by auto
    next
      case False
      then show ?thesis using e by simp
    qed
    finally show "m_frameBuffer r' ! i = m_frameBuffer r ! i" .
  qed
qed

lemma renderLoop_hit:
  assumes "renderLoop scene ps r = Some (Inr r')"
    and "p \<in> set ps" "hitPixel scene (m_config r) p"
  shows "\<exists>q \<in> set ps. hitPixel scene (m_config r) q
           \<and> pixelIndex (m_config r) (fst q) (snd q) = pixelIndex (m_config r) (fst p) (snd p)
           \<and> (\<exists>c. tracePixel scene (m_config r) (clippedRay scene (m_config r) q) = Some (Inr c)
                  \<and> m_frameBuffer r' ! pixelIndex (m_config r) (fst p) (snd p) = c)"
  using assms
proof (induction ps arbitrary: r p)
  case Nil
  then show ?case by simp
next
  case (Cons a ps)
  from Cons.prems(1) obtain r1 where r1: "renderPixel scene r a = Some (Inr r1)"
    and rest: "renderLoop scene ps r1 = Some (Inr r')"
    by (auto split: option.splits sum.splits)
  note e = renderPixel_effect[OF r1]
  have cfg: "m_config r1 = m_config r" using e by simp
  show ?case
  proof (cases "\<exists>q \<in> set ps. hitPixel scene (m_config r) q
           \<and> pixelIndex (m_config r) (fst q) (snd q) = pixelIndex (m_config r) (fst p) (snd p)")
    case True
    then obtain q where q: "q \<in> set ps" "hitPixel scene (m_config r) q"
      "pixelIndex (m_config r) (fst q) (snd q) = pixelIndex (m_config r) (fst p) (snd p)" by blast
    have "hitPixel scene (m_config r1) q" using q(2) cfg by simp
    from Cons.IH[OF rest q(1) this] q(3) cfg show ?thesis by auto
  next
    case False
    then have pa: "p = a" using Cons.prems(2,3) by auto
    have "\<forall>q \<in> set ps. hitPixel scene (m_config r1) q
            \<longrightarrow> pixelIndex (m_config r1) (fst q) (snd q) \<noteq> pixelIndex (m_config r) (fst p) (snd p)"
      using False cfg by auto
    then have keep: "m_frameBuffer r' ! pixelIndex (m_config r) (fst p) (snd p)
            = m_frameBuffer r1 ! pixelIndex (m_config r) (fst p) (snd p)"
      using renderLoop_frame[OF rest] by blast
    from e Cons.prems(3) pa obtain c where
      c: "tracePixel scene (m_config r) (clippedRay scene (m_config r) a) = Some (Inr c)"
        "pixelIndex (m_config r) (fst a) (snd a) < length (m_frameBuffer r)"
        "m_frameBuffer r1 = (m_frameBuffer r)[pixelIndex (m_config r) (fst a) (snd a) := c]"
      by auto
    have "m_frameBuffer r' ! pixelIndex (m_config r) (fst p) (snd p) = c"
      using keep c pa by simp
    then show ?thesis using c(1) pa Cons.prems(3) by auto
  qed
qed

lemma set_pixels:
  "set (pixels cfg) = {(x, y). 0 \<le> x \<and> x < fst (renderResolution cfg)
                               \<and> 0 \<le> y \<and> y < snd (renderResolution cfg)}"
  by (auto simp: pixels_def)

lemma pixelIndex_grid:
  assumes "int32 w" "int32 h" "0 \<le> x" "x < w" "0 \<le> y" "y < h" "fst (renderResolution cfg) = w"
  shows "pixelIndex cfg x y = nat (w * y + x)" and "w * y + x < w * h"
proof -
  have "w * y + x < w * y + w" using assms by simp
  also have "\<dots> = w * (y + 1)" by (simp add: algebra_simps)
  also have "\<dots> \<le> w * h" using assms by (intro mult_left_mono) auto
  finally show lt: "w * y + x < w * h" .
  have "w * h < 2 ^ 31 * 2 ^ 31"
    using assms by (intro mult_strict_mono) (auto simp: int32_def)
  then have "w * y + x < 2 ^ 64" using lt by simp
  moreover have "0 \<le> w * y + x" using assms by simp
  ultimately show "pixelIndex cfg x y = nat (w * y + x)"
    using assms(7) by (simp add: pixelIndex_def)
qed

lemma pixelIndex_inj:
  assumes "int32 w" "int32 h" "fst (renderResolution cfg) = w"
    and "0 \<le> x" "x < w" "0 \<le> y" "y < h" "0 \<le> x'" "x' < w" "0 \<le> y'" "y' < h"
    and "pixelIndex cfg x y = pixelIndex cfg x' y'"
  shows "x = x' \<and> y = y'"
proof -
  have a: "pixelIndex cfg x y = nat (w * y + x)"
    using pixelIndex_grid(1)[OF assms(1,2,4,5,6,7,3)] .
  have b: "pixelIndex cfg x' y' = nat (w * y' + x')"
    using pixelIndex_grid(1)[OF assms(1,2,8,9,10,11,3)] .
  have eq: "w * y + x = w * y' + x'"
    using a b assms by (simp add: nat_eq_iff)
  have "(w * y + x) div w = y" using assms by simp
  moreover have "(w * y' + x') div w = y'" using assms by simp
  ultimately have "y = y'" using eq by simp
  then show ?thesis using eq by simp
qed

text \<open>
  The frame buffer has one slot per pixel: the constructor and \<open>setConfig\<close> size it to the
  resolution (a pair of non-negative 32-bit integers) and \<open>render\<close> keeps its size.
\<close>

lemma resizeImage_length:
  assumes "0 \<le> w" "0 \<le> h" "int32 w" "int32 h"
  shows "length (m_frameBuffer (resizeImage r (w, h))) = nat (w * h)"
    and "m_config (resizeImage r (w, h)) = m_config r"
proof -
  have "w * h \<le> 2 ^ 31 * 2 ^ 31"
    using assms by (intro mult_mono) (simp_all add: int32_def)
  then have lt: "w * h < 2 ^ 64" by simp
  have nn: "0 \<le> w * h" using assms by simp
  have "w mod 2 ^ 64 = w" "h mod 2 ^ 64 = h"
    using assms by (simp_all add: int32_def)
  then have n: "((w mod 2 ^ 64) * (h mod 2 ^ 64)) mod 2 ^ 64 = w * h"
    using lt nn by simp
  have "m_frameBuffer (resizeImage r (w, h))
      = take (nat (w * h)) (m_frameBuffer r)
        @ replicate (nat (w * h) - length (m_frameBuffer r)) (vec4_of (Fin 0))"
    by (simp only: resizeImage_def Let_def fst_conv snd_conv n) simp
  then show "length (m_frameBuffer (resizeImage r (w, h))) = nat (w * h)"
    by (simp add: min_def)
  show "m_config (resizeImage r (w, h)) = m_config r"
    by (simp add: resizeImage_def Let_def)
qed

lemma newRenderer_frame_size:
  assumes "renderResolution cfg = (w, h)" "0 \<le> w" "0 \<le> h" "int32 w" "int32 h"
  shows "length (m_frameBuffer (newRenderer cfg)) = nat (w * h) \<and> m_config (newRenderer cfg) = cfg"
  using resizeImage_length[OF assms(2-5)] assms(1) by (simp add: newRenderer_def)

lemma setConfig_frame_size:
  assumes "renderResolution cfg = (w, h)" "0 \<le> w" "0 \<le> h" "int32 w" "int32 h"
    and "length (m_frameBuffer r)
         = nat (fst (renderResolution (m_config r)) * snd (renderResolution (m_config r)))"
  shows "length (m_frameBuffer (setConfig r cfg)) = nat (w * h) \<and> m_config (setConfig r cfg) = cfg"
proof (cases "renderResolution cfg = renderResolution (m_config r)")
  case True
  then have "setConfig r cfg = r\<lparr>m_config := cfg\<rparr>" by (simp add: setConfig_def)
  then show ?thesis using assms(1,6) True by simp
next
  case False
  then have "setConfig r cfg = (resizeImage r (w, h))\<lparr>m_config := cfg\<rparr>"
    using assms(1) by (simp add: setConfig_def)
  then show ?thesis using resizeImage_length(1)[OF assms(2-5), of r] by simp
qed

lemma render_frame_size:
  assumes "render scene r = Some (Inr r')"
  shows "length (m_frameBuffer r') = length (m_frameBuffer r) \<and> m_config r' = m_config r"
  using renderLoop_frame[of scene "pixels (m_config r)" "resetImage r" r'] assms
  by (simp add: render_def resetImage_def)

section \<open>Rendering the example scenes\<close>

lemma exScene_generateRay [simp]:
  "generateRay (exScene f g) v =
     \<lparr>origin = \<lparr>vx = fadd (x2 v) (Fin (1/2)), vy = Fin (1/2), vz = Fin (- 1)\<rparr>,
      direction = \<lparr>vx = Fin 0, vy = Fin 0, vz = Fin 1\<rparr>, tmin = Fin 0, tmax = Fin 0\<rparr>"
  by (simp add: exScene_def)

lemma ex_pixels: "pixels (exConfig m sh i cm col) = [(0, 0), (1, 0)]"
  by (simp add: pixels_def upto.simps)

lemma ex_miss:
  "instersectRayVolumeBounds (pixelRay (exScene f g) (exConfig m sh i cm col) 0 0)
      (volumeBounds (exScene f g))
   = (False, \<lparr>origin = \<lparr>vx = Fin (- 1/2), vy = Fin (1/2), vz = Fin (- 1)\<rparr>,
               direction = \<lparr>vx = Fin 0, vy = Fin 0, vz = Fin 1\<rparr>, tmin = Fin 0, tmax = Fin 0\<rparr>)"
  by (simp add: instersectRayVolumeBounds_def pixelRay_def volumeBounds_def Let_def lowerUpper_def
      std_max_def std_min_def vec_defs fl_arith fl_cmp)

lemma ex_hit:
  "instersectRayVolumeBounds (pixelRay (exScene f g) (exConfig m sh i cm col) 1 0)
      (volumeBounds (exScene f g))
   = (True, \<lparr>origin = \<lparr>vx = Fin (1/2), vy = Fin (1/2), vz = Fin (- 1)\<rparr>,
              direction = \<lparr>vx = Fin 0, vy = Fin 0, vz = Fin 1\<rparr>, tmin = Fin 1, tmax = Fin 2\<rparr>)"
  by (simp add: instersectRayVolumeBounds_def pixelRay_def volumeBounds_def Let_def lowerUpper_def
      std_max_def std_min_def vec_defs fl_arith fl_cmp)

lemma ex_newRenderer:
  "newRenderer (exConfig m sh i cm col) =
     \<lparr>m_config = exConfig m sh i cm col, m_frameBuffer = [vec4_of (Fin 0), vec4_of (Fin 0)]\<rparr>"
  by (simp add: newRenderer_def resizeImage_def Let_def numeral_2_eq_2)

lemma ex_slice:
  "traceRaySlice (exScene vx g)
     \<lparr>origin = \<lparr>vx = Fin (1/2), vy = Fin (1/2), vz = Fin (- 1)\<rparr>,
      direction = \<lparr>vx = Fin 0, vy = Fin 0, vz = Fin 1\<rparr>, tmin = Fin 1, tmax = Fin 2\<rparr>
     (volumeCenter (exScene vx g)) (planeNormal (exScene vx g))
   = rgba (1/2) (1/2) (1/2) 1"
  by (simp add: traceRaySlice_def volumeCenter_def planeNormal_def normalize_def dot_def Let_def
      std_max_def rgba_def vec_defs fl_arith fl_cmp)

section \<open>Pixels whose ray misses the volume\<close>

text \<open>
  C9. After \<open>render\<close> has returned, every pixel \<open>(x, y)\<close> of the image whose ray fails the
  test \<open>instersectRayVolumeBounds\<close> holds the cleared colour \<open>(0, 0, 0, 0)\<close>:
  \<open>resetImage\<close> clears the slot at the start of the pass and \<open>fillColor\<close> writes only the
  slots of pixels that hit, which are other slots. The frame buffer has the size of the
  resolution (as \<open>resizeImage\<close> leaves it) and the resolution is a pair of 32-bit integers.
\<close>

theorem render_missed_pixel_cleared:
  assumes "render scene r = Some (Inr r')"
    and "renderResolution (m_config r) = (w, h)" "int32 w" "int32 h"
    and "length (m_frameBuffer r) = nat (w * h)"
    and "0 \<le> x" "x < w" "0 \<le> y" "y < h"
    and "\<not> fst (instersectRayVolumeBounds (pixelRay scene (m_config r) x y) (volumeBounds scene))"
  shows "pixelIndex (m_config r') x y < length (m_frameBuffer r')
       \<and> m_frameBuffer r' ! pixelIndex (m_config r') x y = vec4_of (Fin 0)"
proof -
  let ?cfg = "m_config r"
  let ?i = "pixelIndex ?cfg x y"
  have w: "fst (renderResolution ?cfg) = w" and h: "snd (renderResolution ?cfg) = h"
    using assms(2) by simp_all
  have run: "renderLoop scene (pixels ?cfg) (resetImage r) = Some (Inr r')"
    using assms(1) by (simp add: render_def)
  have cfg0: "m_config (resetImage r) = ?cfg" by (simp add: resetImage_def)
  note fr = renderLoop_frame[OF run, unfolded cfg0]
  have idx: "?i = nat (w * y + x)" "w * y + x < w * h"
    using pixelIndex_grid[OF assms(3,4,6,7,8,9) w] by simp_all
  have "0 \<le> w * y + x" using assms by simp
  then have len: "?i < length (m_frameBuffer r)" using idx assms(5) by simp
  have other: "\<forall>p \<in> set (pixels ?cfg). hitPixel scene ?cfg p
                 \<longrightarrow> pixelIndex ?cfg (fst p) (snd p) \<noteq> ?i"
  proof (intro ballI impI notI)
    fix p assume p: "p \<in> set (pixels ?cfg)" and hit: "hitPixel scene ?cfg p"
      and eq: "pixelIndex ?cfg (fst p) (snd p) = ?i"
    have g: "0 \<le> fst p" "fst p < w" "0 \<le> snd p" "snd p < h"
      using p w h by (auto simp: set_pixels)
    have "fst p = x \<and> snd p = y"
      using pixelIndex_inj[OF assms(3,4) w g assms(6,7,8,9) eq] .
    then show False using hit assms(10) by (simp add: hitPixel_def)
  qed
  have "m_frameBuffer r' ! ?i = m_frameBuffer (resetImage r) ! ?i" using fr other by blast
  also have "\<dots> = vec4_of (Fin 0)" using len by (simp add: resetImage_def)
  finally show ?thesis using fr len by (simp add: resetImage_def)
qed

theorem render_missed_pixel_cleared_witness:
  "render (exScene vx exGradient) (newRenderer (exConfig RenderSlicer False (Fin 0) [] (rgba 1 1 1 1)))
     = Some (Inr \<lparr>m_config = exConfig RenderSlicer False (Fin 0) [] (rgba 1 1 1 1),
                   m_frameBuffer = [vec4_of (Fin 0), rgba (1/2) (1/2) (1/2) 1]\<rparr>)
   \<and> \<not> fst (instersectRayVolumeBounds
              (pixelRay (exScene vx exGradient) (exConfig RenderSlicer False (Fin 0) [] (rgba 1 1 1 1)) 0 0)
              (volumeBounds (exScene vx exGradient)))
   \<and> pixelIndex (exConfig RenderSlicer False (Fin 0) [] (rgba 1 1 1 1)) 0 0 = 0
   \<and> [vec4_of (Fin 0), rgba (1/2) (1/2) (1/2) 1]
        ! pixelIndex (exConfig RenderSlicer False (Fin 0) [] (rgba 1 1 1 1)) 0 0 = vec4_of (Fin 0)"
proof -
  let ?S = "exScene vx exGradient"
  let ?C = "exConfig RenderSlicer False (Fin 0) [] (rgba 1 1 1 1)"
  let ?r' = "\<lparr>m_config = ?C, m_frameBuffer = [vec4_of (Fin 0), rgba (1/2) (1/2) (1/2) 1]\<rparr>"
  have run: "render ?S (newRenderer ?C) = Some (Inr ?r')"
    by (simp add: render_def ex_newRenderer resetImage_def ex_pixels renderPixel_def ex_miss ex_hit
        tracePixel_def ex_slice fillColor_def int32_def pixelIndex_def Let_def)
  have miss: "\<not> fst (instersectRayVolumeBounds (pixelRay ?S (m_config (newRenderer ?C)) 0 0) (volumeBounds ?S))"
    by (simp add: ex_newRenderer ex_miss)
  have len: "length (m_frameBuffer (newRenderer ?C)) = nat (2 * 1)"
    by (simp add: ex_newRenderer)
  have res: "renderResolution (m_config (newRenderer ?C)) = (2, 1)"
    by (simp add: ex_newRenderer)
  show ?thesis
    using render_missed_pixel_cleared[OF run res _ _ len _ _ _ _ miss] run miss
    by (simp add: int32_def ex_newRenderer pixelIndex_def)
qed

section \<open>The bisection bracket of the isosurface tracer\<close>

lemma fge_not_feq: "fge a b \<Longrightarrow> (\<not> feq a b) = fgt a b"
  by (cases a; cases b) (auto simp: fl_cmp)

lemma iso_march_hit:
  assumes below: "\<forall>j<k. fle (marchT ray step j) (tmax ray)
                    \<and> \<not> fge (getSampleInterpolate scene (marchPos ray step j)) (isoValue cfg)"
    and hit: "fle (marchT ray step k) (tmax ray)"
             "fge (getSampleInterpolate scene (marchPos ray step k)) (isoValue cfg)"
    and jk: "j \<le> k"
  shows "while_option (\<lambda>s. iso_ret s = None \<and> fle (iso_t s) (tmax ray))
           (isoBody scene cfg ray step)
           \<lparr>iso_t = marchT ray step j, iso_pos = marchPos ray step j, iso_ret = None\<rparr>
         = Some \<lparr>iso_t = marchT ray step k, iso_pos = marchPos ray step k,
                  iso_ret = Some (isoHit scene cfg ray (marchT ray step k)
                                    (getSampleInterpolate scene (marchPos ray step k)))\<rparr>"
  using jk
proof (induction "k - j" arbitrary: j)
  case 0
  then have j: "j = k" by simp
  show ?case unfolding j
    by (subst while_option_unfold, simp add: hit isoBody_def Let_def)
       (subst while_option_unfold, simp)
next
  case (Suc n)
  then have lt: "j < k" and n: "n = k - Suc j" and le: "Suc j \<le> k" by simp_all
  have b: "fle (marchT ray step j) (tmax ray)"
    "\<not> fge (getSampleInterpolate scene (marchPos ray step j)) (isoValue cfg)"
    using below lt by simp_all
  show ?case
    using Suc.hyps(1)[OF n le]
    by (subst while_option_unfold) (simp add: b isoBody_def Let_def)
qed

text \<open>
  C8. \<open>render\<close> is the only caller of \<open>traceRayISO\<close> and passes the constant
  \<^verbatim>\<open>sampleStep = 1.0f\<close>. With volume shading enabled, when the first sample of the march
  that reaches the iso value is the one at parameter \<open>t\<close> (sample \<open>k\<close> of the march), the
  tracer returns the Phong shading at the parameter \<open>t_new\<close>: the result of
  \<open>bisectionAccuracy\<close> over the bracket \<open>[t - sampleStep, t]\<close> when the sample is strictly
  greater than the iso value, and \<open>t\<close> itself, without bisection, when the sample equals
  the iso value. The pixel of \<open>render\<close> in isosurface mode is that colour.
\<close>

theorem traceRayISO_bisects_last_step:
  assumes "volumeShading cfg"
    and "\<forall>j<k. fle (marchT ray sampleStep0 j) (tmax ray)
              \<and> \<not> fge (getSampleInterpolate scene (marchPos ray sampleStep0 j)) (isoValue cfg)"
    and "fle (marchT ray sampleStep0 k) (tmax ray)"
    and "fge (getSampleInterpolate scene (marchPos ray sampleStep0 k)) (isoValue cfg)"
    and "t = marchT ray sampleStep0 k"
    and "t_new = (if fgt (getSampleInterpolate scene (marchPos ray sampleStep0 k)) (isoValue cfg)
                  then bisectionAccuracy scene ray (fsub t sampleStep0) t (isoValue cfg)
                  else t)"
  shows "traceRayISO scene cfg ray sampleStep0 =
           Some (vec4_v3 (computePhongShading isoColor
                   (getGradientInterpolate scene (vadd (origin ray) (vscale t_new (direction ray))))
                   (position scene) (direction ray)) (Fin 1))
       \<and> (renderMode cfg = RenderIso \<longrightarrow>
            tracePixel scene cfg ray =
              Some (Inr (vec4_v3 (computePhongShading isoColor
                   (getGradientInterpolate scene (vadd (origin ray) (vscale t_new (direction ray))))
                   (position scene) (direction ray)) (Fin 1))))"
proof -
  let ?val = "getSampleInterpolate scene (marchPos ray sampleStep0 k)"
  have init: "isoInit ray = \<lparr>iso_t = marchT ray sampleStep0 0, iso_pos = marchPos ray sampleStep0 0,
                               iso_ret = None\<rparr>"
    by (simp add: isoInit_def)
  have loop: "while_option (\<lambda>s. iso_ret s = None \<and> fle (iso_t s) (tmax ray))
           (isoBody scene cfg ray sampleStep0) (isoInit ray)
         = Some \<lparr>iso_t = t, iso_pos = marchPos ray sampleStep0 k,
                  iso_ret = Some (isoHit scene cfg ray t ?val)\<rparr>"
    unfolding init assms(5) by (rule iso_march_hit[OF assms(2,3,4)]) simp
  have ref: "isoRefine scene ray (isoValue cfg) t ?val = t_new"
    using fge_not_feq[OF assms(4)] by (simp add: isoRefine_def assms(6) sampleStep0_def)
  have hit: "isoHit scene cfg ray t ?val =
      vec4_v3 (computePhongShading isoColor
                   (getGradientInterpolate scene (vadd (origin ray) (vscale t_new (direction ray))))
                   (position scene) (direction ray)) (Fin 1)"
    using assms(1) by (simp add: isoHit_def Let_def ref)
  have r: "traceRayISO scene cfg ray sampleStep0 =
           Some (vec4_v3 (computePhongShading isoColor
                   (getGradientInterpolate scene (vadd (origin ray) (vscale t_new (direction ray))))
                   (position scene) (direction ray)) (Fin 1))"
    by (simp add: traceRayISO_def loop hit)
  then show ?thesis by (simp add: tracePixel_def)
qed

theorem traceRayISO_bisects_last_step_witness:
  "volumeShading (exConfig RenderIso True (Fin (1/2)) [] (rgba 1 1 1 1))
   \<and> fle (marchT (exRay (Fin 0) (Fin 2)) sampleStep0 0) (tmax (exRay (Fin 0) (Fin 2)))
   \<and> \<not> fge (getSampleInterpolate (exScene vx exGradient)
               (marchPos (exRay (Fin 0) (Fin 2)) sampleStep0 0)) (Fin (1/2))
   \<and> marchT (exRay (Fin 0) (Fin 2)) sampleStep0 1 = Fin 1
   \<and> fgt (getSampleInterpolate (exScene vx exGradient)
            (marchPos (exRay (Fin 0) (Fin 2)) sampleStep0 1)) (Fin (1/2))
   \<and> fsub (Fin 1) sampleStep0 = Fin 0
   \<and> traceRayISO (exScene vx exGradient) (exConfig RenderIso True (Fin (1/2)) [] (rgba 1 1 1 1))
        (exRay (Fin 0) (Fin 2)) sampleStep0
      = Some (vec4_v3 (computePhongShading isoColor
           (exGradient (vadd (origin (exRay (Fin 0) (Fin 2)))
              (vscale (bisectionAccuracy (exScene vx exGradient) (exRay (Fin 0) (Fin 2)) (Fin 0) (Fin 1)
                         (Fin (1/2)))
                 (direction (exRay (Fin 0) (Fin 2))))))
           (position (exScene vx exGradient)) (direction (exRay (Fin 0) (Fin 2)))) (Fin 1))"
proof -
  let ?S = "exScene vx exGradient"
  let ?C = "exConfig RenderIso True (Fin (1/2)) [] (rgba 1 1 1 1)"
  let ?ray = "exRay (Fin 0) (Fin 2)"
  have t1: "marchT ?ray sampleStep0 1 = Fin 1" by (simp add: sampleStep0_def fl_arith)
  have h2: "\<forall>j<1. fle (marchT ?ray sampleStep0 j) (tmax ?ray)
          \<and> \<not> fge (getSampleInterpolate ?S (marchPos ?ray sampleStep0 j)) (isoValue ?C)"
    by (simp add: vec_defs fl_arith fl_cmp)
  have h3: "fle (marchT ?ray sampleStep0 1) (tmax ?ray)"
    by (simp add: sampleStep0_def fl_arith fl_cmp)
  have h4: "fge (getSampleInterpolate ?S (marchPos ?ray sampleStep0 1)) (isoValue ?C)"
    by (simp add: sampleStep0_def vec_defs fl_arith fl_cmp)
  have g: "fgt (getSampleInterpolate ?S (marchPos ?ray sampleStep0 1)) (Fin (1/2))"
    by (simp add: sampleStep0_def vec_defs fl_arith fl_cmp)
  have s: "fsub (Fin 1) sampleStep0 = Fin 0" by (simp add: sampleStep0_def fl_arith)
  note T = traceRayISO_bisects_last_step[of ?C 1 ?ray ?S "Fin 1"
      "bisectionAccuracy ?S ?ray (Fin 0) (Fin 1) (Fin (1/2))", OF _ h2 h3 h4]
  have "traceRayISO ?S ?C ?ray sampleStep0
      = Some (vec4_v3 (computePhongShading isoColor
           (exGradient (vadd (origin ?ray)
              (vscale (bisectionAccuracy ?S ?ray (Fin 0) (Fin 1) (Fin (1/2))) (direction ?ray))))
           (position ?S) (direction ?ray)) (Fin 1))"
    using T g s t1 by simp
  moreover have "fle (marchT ?ray sampleStep0 0) (tmax ?ray)"
    "\<not> fge (getSampleInterpolate ?S (marchPos ?ray sampleStep0 0)) (Fin (1/2))"
    by (simp_all add: vec_defs fl_arith fl_cmp)
  ultimately show ?thesis using t1 g s by simp
qed

section \<open>The contribution of a sample in Composite-1D mode\<close>

lemma ex_lookup_single:
  "getTFValue (exConfig m sh i [c] col) (Fin 0) = Inr c"
  "getTFValue (exConfig m sh i [c] col) (Fin 1) = Inr c"
  "getTFValue (exConfig m sh i [c] col) (Fin 5) = Inr c"
  by (simp_all add: getTFValue_def getTFIndex_def Let_def fl_arith)

lemma compositeBody_proj:
  assumes "getTFValue cfg (getSampleInterpolate scene (comp_pos s)) = Inr TFval"
  shows "comp_t (compositeBody scene cfg ray step s) = fsub (comp_t s) step"
    and "comp_pos (compositeBody scene cfg ray step s)
           = vsub (comp_pos s) (vscale step (direction ray))"
    and "comp_err (compositeBody scene cfg ray step s) = None"
    and "ca (comp_C (compositeBody scene cfg ray step s))
           = fadd (if volumeShading cfg
                      \<and> \<not> gradientNonZero (getGradientInterpolate scene (comp_pos s))
                   then Fin 0 else ca TFval)
                  (fmul (fsub (Fin 1) (ca TFval)) (ca (comp_C s)))"
  using assms
  by (simp_all add: compositeBody_def compositeContribution_def Let_def v4add_def v4scale_def
      vec4_v3_def vec4_of_def)

text \<open>
  C1. The claim: a sample whose gradient is zero contributes the raw transfer-function
  colour weighted by the opacity, as a sample does when shading is disabled. The code, with
  shading enabled, in a uniform region (gradient zero) whose table entry is
  \<open>(1, 1, 1, 1)\<close>: the guard
  \<^verbatim>\<open>if (!glm::all(glm::equal(gradient.dir, glm::vec3(0))))\<close> has no \<^verbatim>\<open>else\<close>, the
  contribution \<open>C_i\<close> keeps its initial value \<open>(0, 0, 0, 0)\<close>, and the ray with the two
  samples at \<open>t = 1\<close> and \<open>t = 0\<close> returns \<open>(0, 0, 0, 0)\<close>. With shading disabled the
  same ray returns the raw colour \<open>(1, 1, 1, 1)\<close>.
\<close>

theorem composite_zero_gradient_sample_dropped:
  "\<not> gradientNonZero (getGradientInterpolate (exScene (\<lambda>p. Fin 0) exFlat) p)
   \<and> getTFValue (exConfig RenderComposite True (Fin 0) [rgba 1 1 1 1] (rgba 1 1 1 1))
        (getSampleInterpolate (exScene (\<lambda>p. Fin 0) exFlat) p) = Inr (rgba 1 1 1 1)
   \<and> compositeContribution (exScene (\<lambda>p. Fin 0) exFlat)
        (exConfig RenderComposite True (Fin 0) [rgba 1 1 1 1] (rgba 1 1 1 1))
        (exRay (Fin 0) (Fin 1)) p (rgba 1 1 1 1) = rgba 0 0 0 0
   \<and> traceRayComposite (exScene (\<lambda>p. Fin 0) exFlat)
        (exConfig RenderComposite True (Fin 0) [rgba 1 1 1 1] (rgba 1 1 1 1))
        (exRay (Fin 0) (Fin 1)) sampleStep0 = Some (Inr (rgba 0 0 0 0))
   \<and> compositeContribution (exScene (\<lambda>p. Fin 0) exFlat)
        (exConfig RenderComposite False (Fin 0) [rgba 1 1 1 1] (rgba 1 1 1 1))
        (exRay (Fin 0) (Fin 1)) p (rgba 1 1 1 1) = rgba 1 1 1 1
   \<and> traceRayComposite (exScene (\<lambda>p. Fin 0) exFlat)
        (exConfig RenderComposite False (Fin 0) [rgba 1 1 1 1] (rgba 1 1 1 1))
        (exRay (Fin 0) (Fin 1)) sampleStep0 = Some (Inr (rgba 1 1 1 1))"
proof -
  let ?S = "exScene (\<lambda>p. Fin 0) exFlat"
  let ?ray = "exRay (Fin 0) (Fin 1)"
  let ?s0 = "\<lparr>comp_t = Fin 1, comp_pos = \<lparr>vx = Fin 1, vy = Fin 0, vz = Fin 0\<rparr>,
              comp_C = vec4_of (Fin 0), comp_err = None\<rparr>"
  have g: "\<not> gradientNonZero (getGradientInterpolate ?S p)"
    by (simp add: gradientNonZero_def exFlat_def vec3_of_def fl_cmp)
  have s0: "compositeInit ?ray = ?s0" by (simp add: compositeInit_def vec_defs fl_arith)
  have c0: "compositeCond ?ray ?s0" by (simp add: compositeCond_def fl_cmp)
  have run: "traceRayComposite ?S (exConfig RenderComposite sh (Fin 0) [rgba 1 1 1 1] (rgba 1 1 1 1))
        ?ray sampleStep0 = Some (Inr (if sh then rgba 0 0 0 0 else rgba 1 1 1 1))" for sh
  proof -
    let ?C = "exConfig RenderComposite sh (Fin 0) [rgba 1 1 1 1] (rgba 1 1 1 1)"
    let ?s1 = "\<lparr>comp_t = Fin 0, comp_pos = \<lparr>vx = Fin 0, vy = Fin 0, vz = Fin 0\<rparr>,
                comp_C = (if sh then rgba 0 0 0 0 else rgba 1 1 1 1), comp_err = None\<rparr>"
    let ?s2 = "\<lparr>comp_t = Fin (- 1), comp_pos = \<lparr>vx = Fin (- 1), vy = Fin 0, vz = Fin 0\<rparr>,
                comp_C = (if sh then rgba 0 0 0 0 else rgba 1 1 1 1), comp_err = None\<rparr>"
    have b0: "compositeBody ?S ?C ?ray sampleStep0 ?s0 = ?s1"
      by (simp add: compositeBody_def compositeContribution_def ex_lookup_single Let_def
          gradientNonZero_def exFlat_def sampleStep0_def rgba_def vec_defs fl_arith fl_cmp)
    have c1: "compositeCond ?ray ?s1" by (simp add: compositeCond_def fl_cmp)
    have b1: "compositeBody ?S ?C ?ray sampleStep0 ?s1 = ?s2"
      by (simp add: compositeBody_def compositeContribution_def ex_lookup_single Let_def
          gradientNonZero_def exFlat_def sampleStep0_def rgba_def vec_defs fl_arith fl_cmp)
    have c2: "\<not> compositeCond ?ray ?s2" by (simp add: compositeCond_def fl_cmp)
    have "while_option (compositeCond ?ray) (compositeBody ?S ?C ?ray sampleStep0) ?s0 = Some ?s2"
      by (subst while_option_unfold, simp only: c0 if_True b0,
          subst while_option_unfold, simp only: c1 if_True b1)
         (subst while_option_unfold, simp only: c2 if_False)
    then show ?thesis by (simp add: traceRayComposite_def s0)
  qed
  have k1: "compositeContribution ?S (exConfig RenderComposite True (Fin 0) [rgba 1 1 1 1] (rgba 1 1 1 1))
        ?ray p (rgba 1 1 1 1) = rgba 0 0 0 0"
    by (simp add: compositeContribution_def Let_def gradientNonZero_def exFlat_def rgba_def
        vec_defs fl_cmp)
  have k2: "compositeContribution ?S (exConfig RenderComposite False (Fin 0) [rgba 1 1 1 1] (rgba 1 1 1 1))
        ?ray p (rgba 1 1 1 1) = rgba 1 1 1 1"
    by (simp add: compositeContribution_def Let_def rgba_def vec_defs fl_arith)
  have l: "getTFValue (exConfig RenderComposite True (Fin 0) [rgba 1 1 1 1] (rgba 1 1 1 1))
        (getSampleInterpolate ?S p) = Inr (rgba 1 1 1 1)"
    by (simp add: ex_lookup_single)
  show ?thesis using g l k1 k2 run[of True] run[of False] by simp
qed

section \<open>Accumulated alpha\<close>

text \<open>
  C2. The claim: the accumulated alpha never decreases from one step of the march to the
  next. The code of \<open>traceRayComposite\<close> with shading enabled, on the ray from \<open>0\<close> to
  \<open>1\<close> with step \<open>1\<close>, a table whose entry has opacity \<open>1/2\<close> (in \<open>[0, 1]\<close>) and
  a gradient that is zero at the second sample of the march: the accumulated alpha is
  \<open>1/2\<close> after the first pass of the loop and \<open>0 + (1 - 1/2) * 1/2 = 1/4\<close> after the
  second, because the sample with gradient zero adds \<open>(0, 0, 0, 0)\<close> (the missing
  \<^verbatim>\<open>else\<close> of C1) while the accumulated colour is still scaled by \<open>1 - A\<close>.
\<close>

theorem composite_alpha_decreases:
  "fle (Fin 0) (Fin (1/2)) \<and> fle (Fin (1/2)) (Fin 1)
   \<and> tfColorMap (exConfig RenderComposite True (Fin 0) [rgba 1 1 1 (1/2)] (rgba 1 1 1 1)) = [rgba 1 1 1 (1/2)]
   \<and> ca (comp_C (compositeMarch (exScene vx exGradient)
            (exConfig RenderComposite True (Fin 0) [rgba 1 1 1 (1/2)] (rgba 1 1 1 1))
            (exRay (Fin 0) (Fin 1)) sampleStep0 1)) = Fin (1/2)
   \<and> ca (comp_C (compositeMarch (exScene vx exGradient)
            (exConfig RenderComposite True (Fin 0) [rgba 1 1 1 (1/2)] (rgba 1 1 1 1))
            (exRay (Fin 0) (Fin 1)) sampleStep0 2)) = Fin (1/4)
   \<and> \<not> fle (Fin (1/2)) (Fin (1/4))"
proof -
  let ?S = "exScene vx exGradient"
  let ?C = "exConfig RenderComposite True (Fin 0) [rgba 1 1 1 (1/2)] (rgba 1 1 1 1)"
  let ?ray = "exRay (Fin 0) (Fin 1)"
  let ?s0 = "compositeInit ?ray"
  let ?s1 = "compositeBody ?S ?C ?ray sampleStep0 ?s0"
  let ?s2 = "compositeBody ?S ?C ?ray sampleStep0 ?s1"
  have p0: "comp_pos ?s0 = \<lparr>vx = Fin 1, vy = Fin 0, vz = Fin 0\<rparr>" "comp_t ?s0 = Fin 1"
    "comp_err ?s0 = None" "ca (comp_C ?s0) = Fin 0"
    by (simp_all add: compositeInit_def vec_defs fl_arith)
  have l0: "getTFValue ?C (getSampleInterpolate ?S (comp_pos ?s0)) = Inr (rgba 1 1 1 (1/2))"
    by (simp add: p0 ex_lookup_single)
  note b1 = compositeBody_proj[OF l0, of ?ray sampleStep0]
  have p1: "comp_pos ?s1 = \<lparr>vx = Fin 0, vy = Fin 0, vz = Fin 0\<rparr>" "comp_t ?s1 = Fin 0"
    "comp_err ?s1 = None" "ca (comp_C ?s1) = Fin (1/2)"
    using b1 by (simp_all add: p0 sampleStep0_def vec_defs fl_arith fl_cmp gradientNonZero_def exGradient_def)
  have l1: "getTFValue ?C (getSampleInterpolate ?S (comp_pos ?s1)) = Inr (rgba 1 1 1 (1/2))"
    by (simp add: p1 ex_lookup_single)
  note b2 = compositeBody_proj[OF l1, of ?ray sampleStep0]
  have p2: "ca (comp_C ?s2) = Fin (1/4)"
    using b2(4) by (simp add: p1 vec_defs fl_arith fl_cmp gradientNonZero_def exGradient_def)
  have c0: "compositeCond ?ray ?s0" by (simp add: compositeCond_def p0 fl_cmp)
  have c1: "compositeCond ?ray ?s1" by (simp add: compositeCond_def p1 fl_cmp)
  have m1: "compositeMarch ?S ?C ?ray sampleStep0 1 = ?s1"
    using c0 by (simp add: compositeMarch_def)
  have m2: "compositeMarch ?S ?C ?ray sampleStep0 2 = ?s2"
    using c0 c1 by (simp add: compositeMarch_def numeral_2_eq_2)
  show ?thesis
    by (simp only: m1 m2 p1 p2) (simp add: fl_cmp)
qed

section \<open>The 2D opacity function\<close>

text \<open>A value that is \<open>+0\<close>, positive or \<open>+inf\<close>.\<close>

lemma fdiv_pos_pos:
  assumes "fin a" "0 < rv a" "fin b" "0 < rv b"
  shows "fdiv a b = PInf \<or> (\<exists>y. 0 \<le> y \<and> fdiv a b = Fin y)"
proof -
  obtain x where a: "a = Fin x" using assms(1,2) by (cases a) auto
  obtain z where b: "b = Fin z" using assms(3,4) by (cases b) auto
  have "fdiv a b = fround False (x / z)" using assms(2,4) by (simp add: a b fdiv_def)
  then show ?thesis using fround_nonneg[of "x / z"] assms(2,4) a b by simp
qed

lemma fmul_nonneg:
  assumes "a = PInf \<or> (\<exists>y. 0 \<le> y \<and> a = Fin y)" "b = PInf \<or> (\<exists>y. 0 \<le> y \<and> b = Fin y)"
  shows "fmul a b = NaN \<or> fmul a b = PInf \<or> (\<exists>y. 0 \<le> y \<and> fmul a b = Fin y)"
proof -
  consider (inf_inf) "a = PInf" "b = PInf" | (inf_fin) y where "a = PInf" "0 \<le> y" "b = Fin y"
    | (fin_inf) y where "0 \<le> y" "a = Fin y" "b = PInf"
    | (ff) x y where "0 \<le> x" "a = Fin x" "0 \<le> y" "b = Fin y"
    using assms by blast
  then show ?thesis
  proof cases
    case ff
    have "fmul a b = fround False (x * y)" using ff by (simp add: fmul_def not_less)
    then show ?thesis using fround_nonneg[of "x * y"] ff by simp
  qed (auto simp: fmul_def inf_s_def)
qed

lemma fabs_nonneg: "fabs a = NaN \<or> fabs a = PInf \<or> (\<exists>y. 0 \<le> y \<and> fabs a = Fin y)"
  by (cases a) auto

lemma fmul_NaN_right: "fmul a NaN = NaN"
  by (simp add: fmul_def)

text \<open>
  C10, as amended. For a gradient magnitude of zero and an intensity different from the
  apex \<open>TF2DIntensity\<close> (radius and maximum gradient magnitude positive), the test
  \<^verbatim>\<open>gradientMagnitude >= slope * input\<close> fails, the branch with the division
  \<^verbatim>\<open>input / (gradientMagnitude / slope)\<close> is not entered and the function returns \<open>0\<close>,
  provided the product \<^verbatim>\<open>slope * input\<close> as binary32 computes it is not zero.
\<close>

theorem getTF2DOpacity_zero_gradient:
  assumes "fin (maxMagnitude scene)" "0 < rv (maxMagnitude scene)"
    and "fin (TF2DRadius cfg)" "0 < rv (TF2DRadius cfg)"
    and "is_zero g" and "\<not> feq intensity (TF2DIntensity cfg)"
    and "\<not> is_zero (fmul (fdiv (maxMagnitude scene) (TF2DRadius cfg))
                          (fabs (fsub intensity (TF2DIntensity cfg))))"
  shows "\<not> tf2dInside scene cfg intensity g \<and> getTF2DOpacity scene cfg intensity g = Fin 0"
proof -
  define slope where "slope = fdiv (maxMagnitude scene) (TF2DRadius cfg)"
  define input where "input = fabs (fsub intensity (TF2DIntensity cfg))"
  have slope: "slope = PInf \<or> (\<exists>y. 0 \<le> y \<and> slope = Fin y)"
    unfolding slope_def by (rule fdiv_pos_pos[OF assms(1-4)])
  have p: "fmul slope input = NaN \<or> fmul slope input = PInf
           \<or> (\<exists>y. 0 \<le> y \<and> fmul slope input = Fin y)"
  proof (cases "input = NaN")
    case True
    then show ?thesis by (simp add: fmul_NaN_right)
  next
    case False
    then have "input = PInf \<or> (\<exists>y. 0 \<le> y \<and> input = Fin y)"
      using fabs_nonneg[of "fsub intensity (TF2DIntensity cfg)"] by (simp add: input_def)
    then show ?thesis by (rule fmul_nonneg[OF slope])
  qed
  have nz: "\<not> is_zero (fmul slope input)" using assms(7) by (simp add: slope_def input_def)
  have "\<not> fge g (fmul slope input)"
    using p nz assms(5) by (cases g) (auto simp: fl_cmp)
  then have "\<not> tf2dInside scene cfg intensity g"
    by (simp add: tf2dInside_def slope_def input_def)
  then show ?thesis by (simp add: getTF2DOpacity_def)
qed

text \<open>
  The claim as stated fails when the product underflows: with maximum gradient magnitude
  \<open>1\<close>, radius \<open>2^100\<close>, apex \<open>0\<close> and intensity \<open>2^-100\<close>, the slope is \<open>2^-100\<close>
  and the product \<open>2^-200\<close> rounds to \<open>0\<close>. The test \<open>0 \<ge> 0\<close> passes, the division
  \<open>input / (0 / slope)\<close> is a division by zero, and the function returns NaN.
\<close>

lemma getTF2DOpacity_underflow:
  assumes "is_float r" "is_float (1 / r)" "0 < r" "(1 / r) * (1 / r) \<le> 1 / 2 ^ 150"
  shows "tf2dInside (exScene f g) ((exConfig m sh i cm (rgba 1 1 1 1))\<lparr>TF2DRadius := Fin r\<rparr>)
           (Fin (1 / r)) (Fin 0)"
    and "getTF2DOpacity (exScene f g) ((exConfig m sh i cm (rgba 1 1 1 1))\<lparr>TF2DRadius := Fin r\<rparr>)
           (Fin (1 / r)) (Fin 0) = NaN"
proof -
  have u: "fround False ((1 / r) * (1 / r)) = Fin 0"
    using fround_underflow[of "(1 / r) * (1 / r)" False] assms(3,4) by (simp add: zero_s_def)
  have slope: "fdiv (Fin 1) (Fin r) = Fin (1 / r)"
    using assms(1-3) by (simp add: fl_arith)
  have input: "fabs (fsub (Fin (1 / r)) (Fin 0)) = Fin (1 / r)"
    using assms(1-3) by (simp add: fl_arith)
  have prod: "fmul (Fin (1 / r)) (Fin (1 / r)) = Fin 0"
    using u assms(3) by (simp add: fmul_def)
  show ins: "tf2dInside (exScene f g) ((exConfig m sh i cm (rgba 1 1 1 1))\<lparr>TF2DRadius := Fin r\<rparr>)
        (Fin (1 / r)) (Fin 0)"
    by (simp add: tf2dInside_def Let_def slope input prod fl_cmp)
  have z: "fdiv (Fin 0) (Fin (1 / r)) = Fin 0"
    using assms(3) by (simp add: fl_arith)
  have q: "fdiv (Fin (1 / r)) (Fin 0) = PInf"
    using assms(3) by (simp add: fdiv_def inf_s_def)
  show "getTF2DOpacity (exScene f g) ((exConfig m sh i cm (rgba 1 1 1 1))\<lparr>TF2DRadius := Fin r\<rparr>)
        (Fin (1 / r)) (Fin 0) = NaN"
    by (simp add: getTF2DOpacity_def ins Let_def slope input z q) (simp add: fl_arith)
qed

theorem getTF2DOpacity_underflow_counterexample:
  "0 < rv (maxMagnitude (exScene vx exGradient))
   \<and> 0 < rv (TF2DRadius ((exConfig RenderTF2D False (Fin 0) [] (rgba 1 1 1 1))\<lparr>TF2DRadius := Fin (2 ^ 100)\<rparr>))
   \<and> is_zero (Fin 0)
   \<and> \<not> feq (Fin (1 / 2 ^ 100))
          (TF2DIntensity ((exConfig RenderTF2D False (Fin 0) [] (rgba 1 1 1 1))\<lparr>TF2DRadius := Fin (2 ^ 100)\<rparr>))
   \<and> tf2dInside (exScene vx exGradient)
        ((exConfig RenderTF2D False (Fin 0) [] (rgba 1 1 1 1))\<lparr>TF2DRadius := Fin (2 ^ 100)\<rparr>)
        (Fin (1 / 2 ^ 100)) (Fin 0)
   \<and> getTF2DOpacity (exScene vx exGradient)
        ((exConfig RenderTF2D False (Fin 0) [] (rgba 1 1 1 1))\<lparr>TF2DRadius := Fin (2 ^ 100)\<rparr>)
        (Fin (1 / 2 ^ 100)) (Fin 0) = NaN"
  using getTF2DOpacity_underflow[of "2 ^ 100" vx exGradient RenderTF2D False "Fin 0" "[]"] float_pows
  by (simp add: fl_cmp)

theorem getTF2DOpacity_zero_gradient_witness:
  "\<not> is_zero (fmul (fdiv (maxMagnitude (exScene vx exGradient))
                        (TF2DRadius (exConfig RenderTF2D False (Fin 0) [] (rgba 1 1 1 1))))
                  (fabs (fsub (Fin 1) (TF2DIntensity (exConfig RenderTF2D False (Fin 0) [] (rgba 1 1 1 1))))))
   \<and> \<not> tf2dInside (exScene vx exGradient) (exConfig RenderTF2D False (Fin 0) [] (rgba 1 1 1 1)) (Fin 1) (Fin 0)
   \<and> getTF2DOpacity (exScene vx exGradient) (exConfig RenderTF2D False (Fin 0) [] (rgba 1 1 1 1)) (Fin 1) (Fin 0) = Fin 0"
  using getTF2DOpacity_zero_gradient[of "exScene vx exGradient" "exConfig RenderTF2D False (Fin 0) [] (rgba 1 1 1 1)" "Fin 0" "Fin 1"]
  by (simp add: fl_arith fl_cmp)

section \<open>The 1D transfer function\<close>

lemma is_float_of_int: assumes "\<bar>m\<bar> \<le> 2 ^ 24" shows "is_float (of_int m)"
proof (cases "\<bar>m\<bar> < 2 ^ 24")
  case True
  then show ?thesis using is_float_mul_pow2[of m 0] by simp
next
  case False
  then have "m = 2 ^ 24 \<or> m = - (2 ^ 24)" using assms by linarith
  then show ?thesis using float_pows(1) by auto
qed

lemma float_of_int_small: "0 \<le> m \<Longrightarrow> m \<le> 2 ^ 24 \<Longrightarrow> float_of_int m = Fin (of_int m)"
  using is_float_of_int[of m] by (simp add: float_of_int_def fround_float mk_fin_def zero_s_def)

lemma to_size_t_zero: "is_zero z \<Longrightarrow> to_size_t z = Inr 0"
  by (cases z) auto

lemma fsub_same_zero: "fin a \<Longrightarrow> fin b \<Longrightarrow> rv a = rv b \<Longrightarrow> is_zero (fsub a b)"
  by (cases a; cases b) (auto simp: fsub_def fadd_def)

lemma fdiv_zero_left: "is_zero z \<Longrightarrow> fin b \<Longrightarrow> rv b \<noteq> 0 \<Longrightarrow> is_zero (fdiv z b)"
  by (cases z; cases b) (auto simp: fdiv_def fround_def round_real_0 mk_fin_def zero_s_def)

lemma fmul_zero_left: "is_zero z \<Longrightarrow> fin b \<Longrightarrow> is_zero (fmul z b)"
  by (cases z; cases b) (auto simp: fmul_def fround_def round_real_0 mk_fin_def zero_s_def)

lemma fmul_zero_right: "fin a \<Longrightarrow> is_zero z \<Longrightarrow> is_zero (fmul a z)"
  by (cases a; cases z) (auto simp: fmul_def fround_def round_real_0 mk_fin_def zero_s_def)

text \<open>The scaled position \<^verbatim>\<open>range01 * static_cast<float>(size)\<close> that is cast to an index.\<close>

lemma scaled_position_ge:
  assumes r: "valid rng" "fin rng" "0 < rv rng"
    and v: "fin val" "fin start" "rv start + rv rng \<le> rv val"
    and n: "0 < n" "n \<le> 2 ^ 24"
  shows "fmul (fdiv (fsub val start) rng) (float_of_int (int n)) = PInf
       \<or> (\<exists>z. real n \<le> z \<and> fmul (fdiv (fsub val start) rng) (float_of_int (int n)) = Fin z)"
proof -
  obtain rr where rr: "rng = Fin rr" "is_float rr" "0 < rr"
    using r by (cases rng) auto
  have fn: "float_of_int (int n) = Fin (real n)" "is_float (real n)"
    using float_of_int_small[of "int n"] is_float_of_int[of "int n"] n by simp_all
  have d0: "0 < rv val - rv start" using v(3) rr by simp
  have "fsub val start = fround False (rv val - rv start)"
    using v(1,2) d0 by (cases val; cases start) (auto simp: fsub_def fadd_def)
  then have d: "fsub val start = PInf \<or> (\<exists>x. rr \<le> x \<and> fsub val start = Fin x)"
    using fround_ge[OF rr(2,3), of "rv val - rv start"] v(3) rr(1) by auto
  then show ?thesis
  proof
    assume "fsub val start = PInf"
    then show ?thesis using rr fn n by (simp add: fdiv_def fmul_def inf_s_def)
  next
    assume "\<exists>x. rr \<le> x \<and> fsub val start = Fin x"
    then obtain x where x: "rr \<le> x" "fsub val start = Fin x" by blast
    have "fdiv (Fin x) (Fin rr) = fround False (x / rr)"
      using x(1) rr(3) by (simp add: fdiv_def)
    moreover have "1 \<le> x / rr" using x(1) rr(3) by simp
    ultimately have q: "fdiv (Fin x) (Fin rr) = PInf \<or> (\<exists>y. 1 \<le> y \<and> fdiv (Fin x) (Fin rr) = Fin y)"
      using fround_ge[of 1 "x / rr"] float_vals(2) by auto
    then show ?thesis
    proof
      assume "fdiv (Fin x) (Fin rr) = PInf"
      then show ?thesis using x rr fn n by (simp add: fmul_def inf_s_def)
    next
      assume "\<exists>y. 1 \<le> y \<and> fdiv (Fin x) (Fin rr) = Fin y"
      then obtain y where y: "1 \<le> y" "fdiv (Fin x) (Fin rr) = Fin y" by blast
      have "fmul (Fin y) (Fin (real n)) = fround False (y * real n)"
        using y(1) by (simp add: fmul_def)
      moreover have "real n \<le> y * real n" using y(1) n(1) by simp
      moreover have "0 < real n" using n(1) by simp
      ultimately have "fmul (Fin y) (Fin (real n)) = PInf
          \<or> (\<exists>z. real n \<le> z \<and> fmul (Fin y) (Fin (real n)) = Fin z)"
        using fround_ge[OF fn(2), of "y * real n"] by auto
      then show ?thesis using x y rr fn by simp
    qed
  qed
qed

text \<open>
  C6, as amended. For a table of at least one and at most \<open>2^24\<close> entries (sizes that
  \<^verbatim>\<open>float\<close> represents exactly) and a positive domain range, a value equal to the domain
  start is looked up at index 0, and a value \<open>\<ge> start + range\<close> is looked up at the last
  index, provided the scaled position \<^verbatim>\<open>range01 * float(size)\<close> that binary32 computes is
  below \<open>2^64\<close>, the range of \<^verbatim>\<open>size_t\<close> into which it is cast before the clamp.
\<close>

theorem getTFIndex_start_and_clamp:
  assumes "tfColorMap cfg \<noteq> []" "length (tfColorMap cfg) \<le> 2 ^ 24"
    and "fin (tfColorMapIndexStart cfg)"
    and "valid (tfColorMapIndexRange cfg)" "fin (tfColorMapIndexRange cfg)"
    and "0 < rv (tfColorMapIndexRange cfg)"
  shows "(\<forall>val. fin val \<and> rv val = rv (tfColorMapIndexStart cfg) \<longrightarrow>
            getTFIndex cfg val = Inr 0 \<and> getTFValue cfg val = Inr (tfColorMap cfg ! 0))
       \<and> (\<forall>val. fin val \<and> rv (tfColorMapIndexStart cfg) + rv (tfColorMapIndexRange cfg) \<le> rv val
              \<and> flt (fmul (fdiv (fsub val (tfColorMapIndexStart cfg)) (tfColorMapIndexRange cfg))
                           (float_of_int (int (length (tfColorMap cfg)))))
                     (Fin (2 ^ 64)) \<longrightarrow>
            getTFIndex cfg val = Inr (length (tfColorMap cfg) - 1)
            \<and> getTFValue cfg val = Inr (tfColorMap cfg ! (length (tfColorMap cfg) - 1)))"
proof (intro conjI allI impI)
  define n where "n = length (tfColorMap cfg)"
  have n: "0 < n" "n \<le> 2 ^ 24" using assms(1,2) by (simp_all add: n_def)
  have fn: "float_of_int (int n) = Fin (real n)"
    using float_of_int_small[of "int n"] n by simp
  {
    fix val assume v: "fin val \<and> rv val = rv (tfColorMapIndexStart cfg)"
    define x where "x = fmul (fdiv (fsub val (tfColorMapIndexStart cfg)) (tfColorMapIndexRange cfg))
                             (float_of_int (int n))"
    have "is_zero (fsub val (tfColorMapIndexStart cfg))"
      using v assms(3) by (intro fsub_same_zero) simp_all
    then have "is_zero (fdiv (fsub val (tfColorMapIndexStart cfg)) (tfColorMapIndexRange cfg))"
      using assms(5,6) by (intro fdiv_zero_left) simp_all
    then have "is_zero x" unfolding x_def fn by (intro fmul_zero_left) simp_all
    then have "to_size_t x = Inr 0" by (rule to_size_t_zero)
    then show "getTFIndex cfg val = Inr 0"
      using n by (simp add: getTFIndex_def Let_def x_def n_def)
    then show "getTFValue cfg val = Inr (tfColorMap cfg ! 0)"
      using n by (simp add: getTFValue_def n_def)
  }
  {
    fix val
    assume v: "fin val \<and> rv (tfColorMapIndexStart cfg) + rv (tfColorMapIndexRange cfg) \<le> rv val
              \<and> flt (fmul (fdiv (fsub val (tfColorMapIndexStart cfg)) (tfColorMapIndexRange cfg))
                           (float_of_int (int (length (tfColorMap cfg)))))
                     (Fin (2 ^ 64))"
    define x where "x = fmul (fdiv (fsub val (tfColorMapIndexStart cfg)) (tfColorMapIndexRange cfg))
                             (float_of_int (int n))"
    have lt: "flt x (Fin (2 ^ 64))" using v by (simp add: x_def n_def)
    have "x = PInf \<or> (\<exists>z. real n \<le> z \<and> x = Fin z)"
      unfolding x_def using scaled_position_ge[OF assms(4,5,6) _ assms(3) _ n, of val] v by blast
    then obtain z where z: "real n \<le> z" "x = Fin z" using lt by (auto simp: flt_def)
    have "z < 2 ^ 64" using lt z(2) by (simp add: flt_def)
    then have "to_size_t x = Inr (nat \<lfloor>z\<rfloor>)" using z n(1) by simp
    moreover have "n \<le> nat \<lfloor>z\<rfloor>" using z(1) by (simp add: le_nat_floor)
    ultimately show "getTFIndex cfg val = Inr (length (tfColorMap cfg) - 1)"
      using n by (simp add: getTFIndex_def Let_def x_def[symmetric] n_def[symmetric] min_def)
    then show "getTFValue cfg val = Inr (tfColorMap cfg ! (length (tfColorMap cfg) - 1))"
      using n by (simp add: getTFValue_def n_def)
  }
qed

text \<open>
  The claim as stated (every value \<open>\<ge> start + range\<close>) fails at the value \<open>2^70\<close>
  for a table of two entries over the domain \<open>[0, 1)\<close>: the scaled position \<open>2^71\<close> is
  not a value of \<^verbatim>\<open>size_t\<close>, so the cast that precedes \<^verbatim>\<open>std::min\<close> is undefined.
\<close>

theorem getTFIndex_huge_value_counterexample:
  "tfColorMap (exConfig RenderComposite False (Fin 0) [rgba 0 0 0 0, rgba 1 1 1 1] (rgba 1 1 1 1)) \<noteq> []
   \<and> fge (Fin (2 ^ 70)) (fadd (Fin 0) (Fin 1))
   \<and> getTFIndex (exConfig RenderComposite False (Fin 0) [rgba 0 0 0 0, rgba 1 1 1 1] (rgba 1 1 1 1))
        (Fin (2 ^ 70)) = Inl CastOutOfRange
   \<and> getTFValue (exConfig RenderComposite False (Fin 0) [rgba 0 0 0 0, rgba 1 1 1 1] (rgba 1 1 1 1))
        (Fin (2 ^ 70)) = Inl CastOutOfRange"
  using float_pows by (simp add: getTFValue_def getTFIndex_def fl_arith fl_cmp)

theorem getTFIndex_start_and_clamp_witness:
  "getTFIndex (exConfig RenderComposite False (Fin 0) [rgba 0 0 0 0, rgba 1 1 1 1] (rgba 1 1 1 1)) (Fin 0) = Inr 0
   \<and> flt (fmul (fdiv (fsub (Fin 5) (Fin 0)) (Fin 1)) (float_of_int 2)) (Fin (2 ^ 64))
   \<and> getTFIndex (exConfig RenderComposite False (Fin 0) [rgba 0 0 0 0, rgba 1 1 1 1] (rgba 1 1 1 1)) (Fin 5) = Inr 1
   \<and> getTFValue (exConfig RenderComposite False (Fin 0) [rgba 0 0 0 0, rgba 1 1 1 1] (rgba 1 1 1 1)) (Fin 5) = Inr (rgba 1 1 1 1)"
proof -
  have ten: "is_float 10" using is_float_mul_pow2[of 10 0] by simp
  have s: "fmul (fdiv (fsub (Fin 5) (Fin 0)) (Fin 1)) (float_of_int 2) = Fin 10"
    using ten by (simp add: fl_arith)
  show ?thesis
    using getTFIndex_start_and_clamp[of "exConfig RenderComposite False (Fin 0) [rgba 0 0 0 0, rgba 1 1 1 1] (rgba 1 1 1 1)"]
      s float_vals
    by (simp add: fl_cmp)
qed

section \<open>Bisection\<close>

lemma flt_Fin_mono: "flt a (Fin x) \<Longrightarrow> x \<le> y \<Longrightarrow> flt a (Fin y)"
  by (cases a) (auto simp: fl_cmp)

lemma mk_fin_rv [simp]: "fin (mk_fin s r)" "rv (mk_fin s r) = r"
  by (simp_all add: mk_fin_def zero_s_def)

lemma fround_between:
  assumes "is_float a" "is_float b" "a \<le> x" "x \<le> b"
  shows "fin (fround s x)" "a \<le> rv (fround s x)" "rv (fround s x) \<le> b"
proof -
  note r = round_real_between[OF assms]
  have "fround s x = mk_fin s (round_real x)"
    using r(3) by (simp add: fround_def is_float_def)
  then show "fin (fround s x)" "a \<le> rv (fround s x)" "rv (fround s x) \<le> b"
    using r(1,2) by simp_all
qed

lemma valid_fin_float: "valid a \<Longrightarrow> fin a \<Longrightarrow> is_float (rv a)"
  by (cases a) (simp_all add: is_float_0)

lemma fadd_fin_cases:
  assumes "fin a" "fin b"
  shows "fadd a b = NZero \<and> rv a + rv b = 0 \<or> fadd a b = Fin 0 \<and> rv a + rv b = 0
       \<or> fadd a b = fround (rv a + rv b < 0) (rv a + rv b)"
  using assms by (cases a; cases b) (auto simp: fadd_def)

text \<open>
  The midpoint \<^verbatim>\<open>(t_left + t_right) / 2\<close> of two values of the format below \<open>2^127\<close> in
  magnitude: the sum does not overflow, and both roundings keep the result in the bracket.
\<close>

lemma midpoint_bracket:
  assumes v: "valid l" "valid r" and f: "fin l" "fin r" and le: "rv l \<le> rv r"
    and b: "\<bar>rv l\<bar> < 2 ^ 127" "\<bar>rv r\<bar> < 2 ^ 127"
  shows "fin (fdiv (fadd l r) (Fin 2))"
    and "rv l \<le> rv (fdiv (fadd l r) (Fin 2))"
    and "rv (fdiv (fadd l r) (Fin 2)) \<le> rv r"
proof -
  have fl: "is_float (rv l)" and fr: "is_float (rv r)"
    using v f by (simp_all add: valid_fin_float)
  have dl: "is_float (2 * rv l)" and dr: "is_float (2 * rv r)"
    using fl fr b by (auto intro!: is_float_double)
  have s: "fin (fadd l r) \<and> 2 * rv l \<le> rv (fadd l r) \<and> rv (fadd l r) \<le> 2 * rv r"
  proof -
    consider "fadd l r = NZero \<and> rv l + rv r = 0" | "fadd l r = Fin 0 \<and> rv l + rv r = 0"
      | "fadd l r = fround (rv l + rv r < 0) (rv l + rv r)"
      using fadd_fin_cases[OF f] by blast
    then show ?thesis
    proof cases
      case 1 then show ?thesis using le by simp
    next
      case 2 then show ?thesis using le by simp
    next
      case 3
      show ?thesis
        unfolding 3 using fround_between[OF dl dr, of "rv l + rv r"] le by simp
    qed
  qed
  have m: "fdiv (fadd l r) (Fin 2) = fround (sign_bit (fadd l r)) (rv (fadd l r) / 2)"
    using s by (simp add: fdiv_def fin_def)
  have "rv l \<le> rv (fadd l r) / 2" "rv (fadd l r) / 2 \<le> rv r" using s by simp_all
  then show "fin (fdiv (fadd l r) (Fin 2))"
    and "rv l \<le> rv (fdiv (fadd l r) (Fin 2))"
    and "rv (fdiv (fadd l r) (Fin 2)) \<le> rv r"
    unfolding m using fround_between[OF fl fr, of "rv (fadd l r) / 2"] by simp_all
qed

lemma bisectionLoop_inv:
  assumes "valid l" "valid r" "fin l" "fin r" "rv l \<le> rv r"
    "\<bar>rv l\<bar> < 2 ^ 127" "\<bar>rv r\<bar> < 2 ^ 127" "i < max_iter"
  shows "case bisectionLoop scene ray isoVal i l r t of (t', i', conv) \<Rightarrow>
           fin t' \<and> rv l \<le> rv t' \<and> rv t' \<le> rv r \<and> i' \<le> max_iter
           \<and> (if conv then i' < max_iter
                 \<and> flt (fabs (fsub (getSampleInterpolate scene
                                       (vadd (origin ray) (vscale t' (direction ray)))) isoVal)) threshold
               else i' = max_iter)"
  using assms
proof (induction scene ray isoVal i l r t rule: bisectionLoop.induct)
  case (1 scene ray isoVal i t_left t_right t)
  define t' where "t' = fdiv (fadd t_left t_right) (Fin 2)"
  define val where "val = getSampleInterpolate scene (vadd (origin ray) (vscale t' (direction ray)))"
  have mid: "fin t'" "rv t_left \<le> rv t'" "rv t' \<le> rv t_right"
    using midpoint_bracket[OF "1.prems"(1-7)] by (simp_all add: t'_def)
  have vt: "valid t'" by (simp add: t'_def)
  have bt: "\<bar>rv t'\<bar> < 2 ^ 127" using mid "1.prems"(6,7) by linarith
  show ?case
  proof (cases "flt (fabs (fsub val isoVal)) threshold")
    case True
    then show ?thesis
      using mid "1.prems"(8)
      by (subst bisectionLoop.simps) (simp add: Let_def t'_def[symmetric] val_def[symmetric])
  next
    case False
    show ?thesis
    proof (cases "Suc i < max_iter")
      case more: True
      show ?thesis
      proof (cases "fgt val isoVal")
        case True
        have "case bisectionLoop scene ray isoVal (Suc i) t_left t' t' of (t'', i', conv) \<Rightarrow>
           fin t'' \<and> rv t_left \<le> rv t'' \<and> rv t'' \<le> rv t' \<and> i' \<le> max_iter
           \<and> (if conv then i' < max_iter
                 \<and> flt (fabs (fsub (getSampleInterpolate scene
                                       (vadd (origin ray) (vscale t'' (direction ray)))) isoVal)) threshold
               else i' = max_iter)"
          using "1.IH"(1)[of t' "vadd (origin ray) (vscale t' (direction ray))" val]
            False True "1.prems" mid more vt bt
          by (simp add: val_def t'_def)
        then show ?thesis
          using False True "1.prems"(8) mid
          by (subst bisectionLoop.simps)
             (auto simp: Let_def t'_def[symmetric] val_def[symmetric] split: prod.splits)
      next
        case F2: False
        have "case bisectionLoop scene ray isoVal (Suc i) t' t_right t' of (t'', i', conv) \<Rightarrow>
           fin t'' \<and> rv t' \<le> rv t'' \<and> rv t'' \<le> rv t_right \<and> i' \<le> max_iter
           \<and> (if conv then i' < max_iter
                 \<and> flt (fabs (fsub (getSampleInterpolate scene
                                       (vadd (origin ray) (vscale t'' (direction ray)))) isoVal)) threshold
               else i' = max_iter)"
          using "1.IH"(2)[of t' "vadd (origin ray) (vscale t' (direction ray))" val]
            False F2 "1.prems" mid more vt bt
          by (simp add: val_def t'_def)
        then show ?thesis
          using False F2 "1.prems"(8) mid
          by (subst bisectionLoop.simps)
             (auto simp: Let_def t'_def[symmetric] val_def[symmetric] split: prod.splits)
      qed
    next
      case last: False
      then have i: "Suc i = max_iter" using "1.prems"(8) by simp
      have stop: "\<And>a b. bisectionLoop scene ray isoVal (Suc i) a b t' = (t', max_iter, False)"
        using i by (subst bisectionLoop.simps) simp
      show ?thesis
        using False "1.prems"(8) mid stop
        by (subst bisectionLoop.simps)
           (auto simp: Let_def t'_def[symmetric] val_def[symmetric])
    qed
  qed
qed


text \<open>
  The claim as stated fails when the sum \<open>t_left + t_right\<close> overflows: for
  \<open>t0 = t1 = 2^127\<close> the sum is \<open>+inf\<close>, so is the midpoint, and \<open>bisectionAccuracy\<close>
  returns \<open>+inf\<close> (here in its first pass, on a field that is the iso value everywhere),
  which is not in \<open>[t0, t1]\<close>.
\<close>

lemma bisectionAccuracy_overflow:
  assumes "0 < x" "2 ^ 128 \<le> x + x"
  shows "bisectionAccuracy (exScene (\<lambda>p. Fin 0) g) ray (Fin x) (Fin x) (Fin 0) = PInf"
proof -
  have s: "fadd (Fin x) (Fin x) = PInf"
    using fround_overflow[of "x + x" False] assms by (simp add: fadd_def inf_s_def)
  have m: "fdiv PInf (Fin 2) = PInf" by (simp add: fdiv_def inf_s_def)
  have z: "flt (fabs (fsub (Fin 0) (Fin 0))) threshold"
    by (simp add: threshold_def fl_arith fl_cmp)
  have "bisectionLoop (exScene (\<lambda>p. Fin 0) g) ray (Fin 0) 0 (Fin x) (Fin x) PInf = (PInf, 0, True)"
    by (subst bisectionLoop.simps) (simp add: max_iter_def Let_def s m z)
  then show ?thesis by (simp add: bisectionAccuracy_def s m)
qed



section \<open>Termination of a march and the isosurface tracer\<close>

text \<open>
  The position of a value on the grid of multiples of \<open>2^-149\<close>, between the positions
  of the infinities: a loop counter that strictly increases climbs this grid.
\<close>

lemma is_float_grid_bound:
  assumes "is_float r"
  shows "\<exists>k::int. r = of_int k * 2 powr (- 149) \<and> \<bar>k\<bar> < 2 ^ 277"
proof -
  obtain k :: int where k: "r = of_int k * 2 powr (- 149)" using is_float_grid[OF assms] by blast
  have p: "(2::real) powr (- 149) = 1 / 2 ^ 149" by (simp add: powr_neg_numeral)
  have "\<bar>r\<bar> < 2 ^ 128" using assms by (simp add: is_float_def)
  then have "\<bar>of_int k :: real\<bar> < 2 ^ 128 * 2 ^ 149" unfolding k p by (simp add: abs_mult field_simps)
  then have "\<bar>of_int k :: real\<bar> < 2 ^ 277" by simp
  then have "of_int \<bar>k\<bar> < (of_int (2 ^ 277) :: real)" by simp
  then have "\<bar>k\<bar> < 2 ^ 277" by (simp only: of_int_less_iff)
  then show ?thesis using k by blast
qed

lemma flt_grid:
  assumes "flt a b" "valid b" "fin b"
  shows "\<exists>k::int. \<bar>k\<bar> < 2 ^ 277 \<and> rv b = of_int k * 2 powr (- 149)
           \<and> (a = NInf \<or> fin a \<and> \<lfloor>rv a / 2 powr (- 149)\<rfloor> < k)"
proof -
  obtain k :: int where k: "rv b = of_int k * 2 powr (- 149)" "\<bar>k\<bar> < 2 ^ 277"
    using is_float_grid_bound[OF valid_fin_float[OF assms(2,3)]] by blast
  have "a = NInf \<or> fin a \<and> rv a < rv b"
    using assms(1,3) by (cases a; cases b) (auto simp: flt_def)
  moreover have "\<lfloor>rv a / 2 powr (- 149)\<rfloor> < k" if "rv a < rv b"
  proof -
    have "rv a / 2 powr (- 149) < of_int k" using that unfolding k(1) by (simp add: field_simps)
    then show ?thesis by (simp add: floor_less_iff)
  qed
  ultimately show ?thesis using k by blast
qed

lemma while_option_None_invariant:
  assumes "P s" and "\<And>t. P t \<Longrightarrow> b t \<and> P (c t)"
  shows "while_option b c s = None"
proof -
  have "P ((c ^^ k) s)" for k
    by (induction k) (use assms in auto)
  then have "\<forall>k. b ((c ^^ k) s)" using assms(2) by blast
  then show ?thesis by (simp add: while_option_def)
qed

lemma fle_flt_not_fge: "fle a m \<Longrightarrow> flt m i \<Longrightarrow> \<not> fge a i"
  by (cases a; cases m; cases i) (auto simp: fl_cmp)

lemma flt_not_PInf: "flt a b \<Longrightarrow> fin a \<or> a = NInf"
  by (cases a; cases b) (auto simp: flt_def)

text \<open>
  The march of \<open>traceRayISO\<close> ends when no sample reaches the iso value and the
  parameter \<open>t\<close> increases at every step (\<^verbatim>\<open>t + sampleStep > t\<close> in binary32).
\<close>

lemma traceRayISO_terminates:
  assumes adv: "\<forall>k. fle (marchT ray step k) (tmax ray)
                  \<longrightarrow> flt (marchT ray step k) (marchT ray step (Suc k))"
    and below: "\<forall>k. fle (marchT ray step k) (tmax ray) \<longrightarrow>
           \<not> fge (getSampleInterpolate scene (marchPos ray step k)) (isoValue cfg)"
  shows "\<exists>r. while_option (\<lambda>s. iso_ret s = None \<and> fle (iso_t s) (tmax ray))
                (isoBody scene cfg ray step) (isoInit ray) = Some r"
proof -
  let ?b = "\<lambda>s :: iso_state. iso_ret s = None \<and> fle (iso_t s) (tmax ray)"
  let ?c = "isoBody scene cfg ray step"
  define P :: "iso_state \<Rightarrow> bool"
    where "P = (\<lambda>s. \<exists>k. iso_t s = marchT ray step k \<and> iso_pos s = marchPos ray step k)"
  define g :: "fl \<Rightarrow> int"
    where "g = (\<lambda>a. case a of Fin r \<Rightarrow> \<lfloor>r / 2 powr (- 149)\<rfloor> | NZero \<Rightarrow> 0
                      | PInf \<Rightarrow> 2 ^ 278 | NInf \<Rightarrow> - (2 ^ 278) | NaN \<Rightarrow> 0)"
  define f :: "iso_state \<Rightarrow> nat"
    where "f = (\<lambda>s. if ?b s then Suc (nat (2 ^ 278 - g (iso_t s))) else 0)"
  have init: "P (isoInit ray)" unfolding P_def by (rule exI[of _ 0]) (simp add: isoInit_def)
  have gfin: "g a = \<lfloor>rv a / 2 powr (- 149)\<rfloor>" if "fin a" for a
    using that by (cases a) (simp_all add: g_def)
  have dec: "P (?c s) \<and> f (?c s) < f s" if s: "P s \<and> ?b s" for s
  proof -
    obtain k where k: "iso_t s = marchT ray step k" "iso_pos s = marchPos ray step k"
      using s unfolding P_def by blast
    have le: "fle (marchT ray step k) (tmax ray)" using s k by simp
    have nohit: "\<not> fge (getSampleInterpolate scene (iso_pos s)) (isoValue cfg)"
      using below le k by simp
    have cs: "?c s = s\<lparr>iso_t := marchT ray step (Suc k), iso_pos := marchPos ray step (Suc k)\<rparr>"
      using nohit k by (simp add: isoBody_def Let_def)
    have P': "P (?c s)" unfolding P_def cs by (rule exI[of _ "Suc k"]) simp
    have "f (?c s) < f s"
    proof (cases "?b (?c s)")
      case False
      have "f (?c s) = 0" using False by (simp add: f_def)
      moreover have "0 < f s" using s by (simp add: f_def)
      ultimately show ?thesis by simp
    next
      case True
      let ?t = "marchT ray step k" and ?t' = "marchT ray step (Suc k)"
      have le': "fle ?t' (tmax ray)" using True by (simp add: cs)
      have up: "flt ?t ?t'" using adv le by blast
      have "flt ?t' (marchT ray step (Suc (Suc k)))" using adv le' by blast
      then have "fin ?t' \<or> ?t' = NInf" by (rule flt_not_PInf)
      moreover have "?t' \<noteq> NInf" using up by (auto simp: flt_def split: if_splits)
      ultimately have ft': "fin ?t'" by simp
      have vt': "valid ?t'" by simp
      obtain j :: int where j: "\<bar>j\<bar> < 2 ^ 277" "rv ?t' = of_int j * 2 powr (- 149)"
        "?t = NInf \<or> fin ?t \<and> \<lfloor>rv ?t / 2 powr (- 149)\<rfloor> < j"
        using flt_grid[OF up vt' ft'] by blast
      have g': "g ?t' = j" using gfin[OF ft'] j(2) by simp
      have gt: "g ?t < j"
        using j(1,3) gfin[of ?t] by (auto simp: g_def)
      have "nat (2 ^ 278 - g ?t') < nat (2 ^ 278 - g ?t)"
        using g' gt j(1) by simp
      then show ?thesis using s True k by (simp add: f_def cs)
    qed
    then show ?thesis using P' by simp
  qed
  show ?thesis by (rule measure_while_option_Some[of P ?b ?c f, OF _ init]) (use dec in blast)
qed

lemma traceRayISO_miss_partial:
  assumes res: "while_option (\<lambda>s. iso_ret s = None \<and> fle (iso_t s) (tmax ray))
                (isoBody scene cfg ray step) (isoInit ray) = Some r"
    and below: "\<forall>k. fle (marchT ray step k) (tmax ray) \<longrightarrow>
           \<not> fge (getSampleInterpolate scene (marchPos ray step k)) (isoValue cfg)"
  shows "iso_ret r = None"
proof -
  have "iso_ret r = None \<and> (\<exists>k. iso_t r = marchT ray step k \<and> iso_pos r = marchPos ray step k)"
  proof (rule while_option_rule[OF _ res,
        where P = "\<lambda>s. iso_ret s = None \<and> (\<exists>k. iso_t s = marchT ray step k \<and> iso_pos s = marchPos ray step k)"])
    show "iso_ret (isoInit ray) = None \<and>
       (\<exists>k. iso_t (isoInit ray) = marchT ray step k \<and> iso_pos (isoInit ray) = marchPos ray step k)"
      by (auto simp: isoInit_def intro: exI[of _ 0])
  next
    fix s :: iso_state
    assume P: "iso_ret s = None \<and> (\<exists>k. iso_t s = marchT ray step k \<and> iso_pos s = marchPos ray step k)"
      and b: "iso_ret s = None \<and> fle (iso_t s) (tmax ray)"
    then obtain k where k: "iso_t s = marchT ray step k" "iso_pos s = marchPos ray step k" by blast
    have "\<not> fge (getSampleInterpolate scene (iso_pos s)) (isoValue cfg)"
      using below b k by auto
    then have "isoBody scene cfg ray step s =
        s\<lparr>iso_t := marchT ray step (Suc k), iso_pos := marchPos ray step (Suc k)\<rparr>"
      using k by (simp add: isoBody_def Let_def)
    then show "iso_ret (isoBody scene cfg ray step s) = None \<and>
       (\<exists>k. iso_t (isoBody scene cfg ray step s) = marchT ray step k
            \<and> iso_pos (isoBody scene cfg ray step s) = marchPos ray step k)"
      using P by (auto intro: exI[of _ "Suc k"])
  qed
  then show ?thesis by simp
qed

lemma traceRayISO_black_total:
  assumes adv: "\<forall>k. fle (marchT ray step k) (tmax ray)
                  \<longrightarrow> flt (marchT ray step k) (marchT ray step (Suc k))"
    and below: "\<forall>k. fle (marchT ray step k) (tmax ray) \<longrightarrow>
           \<not> fge (getSampleInterpolate scene (marchPos ray step k)) (isoValue cfg)"
  shows "traceRayISO scene cfg ray step = Some black"
proof -
  obtain r where r: "while_option (\<lambda>s. iso_ret s = None \<and> fle (iso_t s) (tmax ray))
                (isoBody scene cfg ray step) (isoInit ray) = Some r"
    using traceRayISO_terminates[OF adv below] by blast
  have "iso_ret r = None" using traceRayISO_miss_partial[OF r below] .
  then show ?thesis using r by (simp add: traceRayISO_def black_def)
qed

lemma traceRayISO_black_partial:
  assumes "traceRayISO scene cfg ray step = Some c"
    and "\<forall>p. \<not> fge (getSampleInterpolate scene p) (isoValue cfg)"
  shows "c = black"
proof -
  obtain r where r: "while_option (\<lambda>s. iso_ret s = None \<and> fle (iso_t s) (tmax ray))
                (isoBody scene cfg ray step) (isoInit ray) = Some r"
    and c: "c = (case iso_ret r of Some c \<Rightarrow> c | None \<Rightarrow> vec4_v3 (vec3_of (Fin 0)) (Fin 1))"
    using assms(1) by (auto simp: traceRayISO_def)
  have "iso_ret r = None" using traceRayISO_miss_partial[OF r] assms(2) by simp
  then show ?thesis using c by (simp add: black_def)
qed

text \<open>
  A march whose parameter does not move (\<^verbatim>\<open>t + sampleStep == t\<close>, as for \<open>t = 2^24\<close>
  and step \<open>1\<close>) never ends when no sample reaches the iso value.
\<close>

lemma traceRayISO_stall:
  assumes "fadd (tmin ray) step = tmin ray" "fle (tmin ray) (tmax ray)"
    and "\<forall>p. \<not> fge (getSampleInterpolate scene p) (isoValue cfg)"
  shows "traceRayISO scene cfg ray step = None"
proof -
  have "while_option (\<lambda>s. iso_ret s = None \<and> fle (iso_t s) (tmax ray))
          (isoBody scene cfg ray step) (isoInit ray) = None"
  proof (rule while_option_None_invariant[where P = "\<lambda>s. iso_t s = tmin ray \<and> iso_ret s = None"])
    show "iso_t (isoInit ray) = tmin ray \<and> iso_ret (isoInit ray) = None"
      by (simp add: isoInit_def)
  next
    fix t :: iso_state
    assume "iso_t t = tmin ray \<and> iso_ret t = None"
    then show "(iso_ret t = None \<and> fle (iso_t t) (tmax ray))
        \<and> iso_t (isoBody scene cfg ray step t) = tmin ray
        \<and> iso_ret (isoBody scene cfg ray step t) = None"
      using assms by (simp add: isoBody_def Let_def)
  qed
  then show ?thesis by (simp add: traceRayISO_def)
qed

lemma fround_tie_2_24: "fround s (2 ^ 24 + 1) = Fin (2 ^ 24)"
  using round_real_tie_2_24 by (simp add: fround_def mk_fin_def)

text \<open>
  A march with step \<open>1\<close> from an integer \<open>a\<close> with \<open>0 \<le> a \<le> 2^24\<close>: the parameter
  counts up to \<open>2^24\<close> and stays there. It increases at every step up to a \<open>tmax\<close>
  below \<open>2^24\<close>.
\<close>

lemma marchT_unit:
  assumes "tmin ray = Fin (of_int a)" "0 \<le> a" "a \<le> 2 ^ 24"
  shows "marchT ray (Fin 1) k = Fin (of_int (min (a + int k) (2 ^ 24)))"
proof (induction k)
  case 0
  then show ?case using assms by simp
next
  case (Suc k)
  show ?case
  proof (cases "a + int k < 2 ^ 24")
    case True
    have f: "is_float (of_int (a + int k + 1))"
      using True assms(2) by (intro is_float_of_int) simp
    have "fadd (Fin (of_int (a + int k))) (Fin 1) = Fin (of_int (a + int k + 1))"
      using f assms(2) by (simp add: fadd_def fround_float mk_fin_def)
    then show ?thesis using Suc True by (simp add: min_def)
  next
    case False
    have "fadd (Fin (2 ^ 24)) (Fin 1) = Fin (2 ^ 24)"
      using fround_tie_2_24[of False] by (simp add: fadd_def)
    then show ?thesis using Suc False by (simp add: min_def)
  qed
qed

lemma unit_march_advances:
  assumes "tmin ray = Fin (of_int a)" "0 \<le> a" "a \<le> 2 ^ 24" "tmax ray = Fin b" "b < 2 ^ 24"
  shows "\<forall>k. fle (marchT ray (Fin 1) k) (tmax ray)
              \<longrightarrow> flt (marchT ray (Fin 1) k) (marchT ray (Fin 1) (Suc k))"
proof (intro allI impI)
  fix k assume le: "fle (marchT ray (Fin 1) k) (tmax ray)"
  note m = marchT_unit[OF assms(1,2,3)]
  have "real_of_int (min (a + int k) (2 ^ 24)) \<le> b"
    using le by (simp add: m[of k] assms(4) Fin_ops)
  then have "real_of_int (min (a + int k) (2 ^ 24)) < 2 ^ 24" using assms(5) by linarith
  then have "min (a + int k) (2 ^ 24) < 2 ^ 24"
    by (metis of_int_less_iff of_int_numeral of_int_power)
  then have lt: "a + int k < 2 ^ 24" by (simp add: min_def split: if_splits)
  have m1: "marchT ray (Fin 1) k = Fin (of_int (a + int k))"
    using lt by (simp only: m) (simp add: min_def)
  have m2: "marchT ray (Fin 1) (Suc k) = Fin (of_int (a + int k + 1))"
    using lt by (simp only: m) (simp add: min_def)
  show "flt (marchT ray (Fin 1) k) (marchT ray (Fin 1) (Suc k))"
    unfolding m1 m2 by (simp add: Fin_ops)
qed

section \<open>No isosurface along the ray\<close>

text \<open>
  C7, as amended. \<open>traceRayISO\<close> returns opaque black \<open>(0, 0, 0, 1)\<close> when the
  parameter of the march increases at every step up to \<open>tmax\<close>
  (\<^verbatim>\<open>t + sampleStep > t\<close> in binary32) and no sample of the march reaches the iso value,
  and whenever it returns at all on such a march it returns opaque black; in particular
  when every sample of the field is at most the field's maximum and the iso value is
  strictly above the maximum. Once \<open>render\<close> in isosurface mode has returned for such a
  field, every pixel whose ray hits the volume holds \<open>(0, 0, 0, 1)\<close>.
\<close>

theorem traceRayISO_no_crossing_black:
  "((\<forall>k. fle (marchT ray step k) (tmax ray) \<longrightarrow> flt (marchT ray step k) (marchT ray step (Suc k)))
      \<and> (\<forall>k. fle (marchT ray step k) (tmax ray) \<longrightarrow>
             \<not> fge (getSampleInterpolate scene (marchPos ray step k)) (isoValue cfg))
     \<longrightarrow> traceRayISO scene cfg ray step = Some black)
   \<and> (traceRayISO scene cfg ray step = Some c
      \<and> (\<forall>k. fle (marchT ray step k) (tmax ray) \<longrightarrow>
             \<not> fge (getSampleInterpolate scene (marchPos ray step k)) (isoValue cfg))
     \<longrightarrow> c = black)
   \<and> ((\<forall>k. fle (marchT ray step k) (tmax ray) \<longrightarrow> flt (marchT ray step k) (marchT ray step (Suc k)))
      \<and> (\<forall>p. fle (getSampleInterpolate scene p) (maximum scene))
      \<and> flt (maximum scene) (isoValue cfg)
     \<longrightarrow> traceRayISO scene cfg ray step = Some black)
   \<and> (renderMode (m_config r) = RenderIso
      \<and> (\<forall>p. fle (getSampleInterpolate scene p) (maximum scene))
      \<and> flt (maximum scene) (isoValue (m_config r))
      \<and> render scene r = Some (Inr r')
      \<and> renderResolution (m_config r) = (w, h) \<and> int32 w \<and> int32 h
      \<and> 0 \<le> x \<and> x < w \<and> 0 \<le> y \<and> y < h
      \<and> hitPixel scene (m_config r) (x, y)
     \<longrightarrow> m_frameBuffer r' ! pixelIndex (m_config r') x y = black)"
proof (intro conjI impI)
  assume a: "(\<forall>k. fle (marchT ray step k) (tmax ray) \<longrightarrow> flt (marchT ray step k) (marchT ray step (Suc k)))
      \<and> (\<forall>k. fle (marchT ray step k) (tmax ray) \<longrightarrow>
             \<not> fge (getSampleInterpolate scene (marchPos ray step k)) (isoValue cfg))"
  then show "traceRayISO scene cfg ray step = Some black"
    using traceRayISO_black_total[of ray step scene cfg] by blast
next
  assume a: "traceRayISO scene cfg ray step = Some c
      \<and> (\<forall>k. fle (marchT ray step k) (tmax ray) \<longrightarrow>
             \<not> fge (getSampleInterpolate scene (marchPos ray step k)) (isoValue cfg))"
  then obtain s where s: "while_option (\<lambda>s. iso_ret s = None \<and> fle (iso_t s) (tmax ray))
                (isoBody scene cfg ray step) (isoInit ray) = Some s"
    and c: "c = (case iso_ret s of Some c \<Rightarrow> c | None \<Rightarrow> vec4_v3 (vec3_of (Fin 0)) (Fin 1))"
    by (auto simp: traceRayISO_def)
  have "iso_ret s = None" using traceRayISO_miss_partial[OF s] a by blast
  then show "c = black" using c by (simp add: black_def)
next
  assume a: "(\<forall>k. fle (marchT ray step k) (tmax ray) \<longrightarrow> flt (marchT ray step k) (marchT ray step (Suc k)))
      \<and> (\<forall>p. fle (getSampleInterpolate scene p) (maximum scene))
      \<and> flt (maximum scene) (isoValue cfg)"
  then have "\<forall>p. \<not> fge (getSampleInterpolate scene p) (isoValue cfg)"
    using fle_flt_not_fge by blast
  then show "traceRayISO scene cfg ray step = Some black"
    using a traceRayISO_black_total[of ray step scene cfg] by blast
next
  let ?cfg = "m_config r"
  assume a: "renderMode ?cfg = RenderIso
      \<and> (\<forall>p. fle (getSampleInterpolate scene p) (maximum scene))
      \<and> flt (maximum scene) (isoValue ?cfg)
      \<and> render scene r = Some (Inr r')
      \<and> renderResolution ?cfg = (w, h) \<and> int32 w \<and> int32 h
      \<and> 0 \<le> x \<and> x < w \<and> 0 \<le> y \<and> y < h
      \<and> hitPixel scene ?cfg (x, y)"
  have below: "\<forall>p. \<not> fge (getSampleInterpolate scene p) (isoValue ?cfg)"
    using a fle_flt_not_fge by blast
  have w: "fst (renderResolution ?cfg) = w" and h: "snd (renderResolution ?cfg) = h"
    using a by simp_all
  have run: "renderLoop scene (pixels ?cfg) (resetImage r) = Some (Inr r')"
    using a by (simp add: render_def)
  have cfg0: "m_config (resetImage r) = ?cfg" by (simp add: resetImage_def)
  have cfg': "m_config r' = ?cfg" using renderLoop_frame[OF run] cfg0 by simp
  have mem: "(x, y) \<in> set (pixels ?cfg)" using a w h by (simp add: set_pixels)
  have hit0: "hitPixel scene (m_config (resetImage r)) (x, y)" using a cfg0 by simp
  obtain q c where q: "q \<in> set (pixels ?cfg)" "hitPixel scene ?cfg q"
    and c: "tracePixel scene ?cfg (clippedRay scene ?cfg q) = Some (Inr c)"
      "m_frameBuffer r' ! pixelIndex ?cfg x y = c"
    using renderLoop_hit[OF run mem hit0] unfolding cfg0 by auto
  have "traceRayISO scene ?cfg (clippedRay scene ?cfg q) sampleStep0 = Some c"
    using c(1) a by (auto simp: tracePixel_def)
  then have "c = black" using traceRayISO_black_partial below by blast
  then show "m_frameBuffer r' ! pixelIndex (m_config r') x y = black"
    using c(2) cfg' by simp
qed

text \<open>
  The claim as stated fails when the march stalls: from \<open>tmin = 2^24\<close> with the step
  \<open>1\<close> that \<open>render\<close> passes, \<open>t + 1\<close> rounds back to \<open>t = 2^24\<close> (a tie, to the even
  significand), the condition \<open>t \<le> tmax = 2^24 + 2\<close> stays true, and on a field below the
  iso value the loop never ends: \<open>traceRayISO\<close> returns nothing.
\<close>

theorem traceRayISO_stall_counterexample:
  "fadd (Fin (2 ^ 24)) sampleStep0 = Fin (2 ^ 24)
   \<and> fle (Fin (2 ^ 24)) (Fin (2 ^ 24 + 2))
   \<and> \<not> fge (Fin (1/2)) (isoValue (exConfig RenderIso True (Fin 2) [] (rgba 1 1 1 1)))
   \<and> traceRayISO (exScene (\<lambda>p. Fin (1/2)) exGradient) (exConfig RenderIso True (Fin 2) [] (rgba 1 1 1 1))
        (exRay (Fin (2 ^ 24)) (Fin (2 ^ 24 + 2))) sampleStep0 = None"
proof -
  have s: "fadd (Fin (2 ^ 24)) sampleStep0 = Fin (2 ^ 24)"
    using fround_tie_2_24[of False] by (simp add: fadd_def sampleStep0_def)
  have l: "fle (Fin (2 ^ 24)) (Fin (2 ^ 24 + 2))" by (simp add: fl_cmp)
  have "traceRayISO (exScene (\<lambda>p. Fin (1/2)) exGradient) (exConfig RenderIso True (Fin 2) [] (rgba 1 1 1 1))
        (exRay (Fin (2 ^ 24)) (Fin (2 ^ 24 + 2))) sampleStep0 = None"
    by (rule traceRayISO_stall) (use s l in \<open>simp_all add: fl_cmp\<close>)
  then show ?thesis using s l by (simp add: fl_cmp)
qed

theorem traceRayISO_no_crossing_black_witness:
  "fle (marchT (exRay (Fin 0) (Fin 3)) (Fin 1) 3) (Fin 3)
   \<and> flt (marchT (exRay (Fin 0) (Fin 3)) (Fin 1) 3) (marchT (exRay (Fin 0) (Fin 3)) (Fin 1) 4)
   \<and> \<not> fle (marchT (exRay (Fin 0) (Fin 3)) (Fin 1) 4) (Fin 3)
   \<and> traceRayISO (exScene (\<lambda>p. Fin (1/2)) exGradient) (exConfig RenderIso True (Fin 2) [] (rgba 1 1 1 1))
      (exRay (Fin 0) (Fin 3)) (Fin 1) = Some black
   \<and> render (exScene (\<lambda>p. Fin (1/2)) exGradient) (newRenderer (exConfig RenderIso True (Fin 2) [] (rgba 1 1 1 1)))
      = Some (Inr \<lparr>m_config = exConfig RenderIso True (Fin 2) [] (rgba 1 1 1 1),
                    m_frameBuffer = [vec4_of (Fin 0), black]\<rparr>)
   \<and> hitPixel (exScene (\<lambda>p. Fin (1/2)) exGradient) (exConfig RenderIso True (Fin 2) [] (rgba 1 1 1 1)) (1, 0)
   \<and> [vec4_of (Fin 0), black] ! pixelIndex (exConfig RenderIso True (Fin 2) [] (rgba 1 1 1 1)) 1 0 = black"
proof -
  let ?S = "exScene (\<lambda>p. Fin (1/2)) exGradient"
  let ?C = "exConfig RenderIso True (Fin 2) [] (rgba 1 1 1 1)"
  let ?ray = "\<lparr>origin = \<lparr>vx = Fin (1/2), vy = Fin (1/2), vz = Fin (- 1)\<rparr>,
              direction = \<lparr>vx = Fin 0, vy = Fin 0, vz = Fin 1\<rparr>, tmin = Fin 1, tmax = Fin 2\<rparr>"
  note T = traceRayISO_no_crossing_black
  have a1: "\<forall>k. fle (marchT (exRay (Fin 0) (Fin 3)) (Fin 1) k) (tmax (exRay (Fin 0) (Fin 3)))
      \<longrightarrow> flt (marchT (exRay (Fin 0) (Fin 3)) (Fin 1) k) (marchT (exRay (Fin 0) (Fin 3)) (Fin 1) (Suc k))"
    by (rule unit_march_advances[where a = 0 and b = 3]) simp_all
  have a2: "\<forall>k. fle (marchT ?ray sampleStep0 k) (tmax ?ray)
      \<longrightarrow> flt (marchT ?ray sampleStep0 k) (marchT ?ray sampleStep0 (Suc k))"
    unfolding sampleStep0_def by (rule unit_march_advances[where a = 1 and b = 2]) simp_all
  have t1: "traceRayISO ?S ?C (exRay (Fin 0) (Fin 3)) (Fin 1) = Some black"
    using T[of "exRay (Fin 0) (Fin 3)" "Fin 1" ?S ?C] a1 by (simp add: fl_cmp)
  have t2: "traceRayISO ?S ?C ?ray sampleStep0 = Some black"
    using T[of ?ray sampleStep0 ?S ?C] a2 by (simp add: fl_cmp)
  have run: "render ?S (newRenderer ?C) = Some (Inr \<lparr>m_config = ?C, m_frameBuffer = [vec4_of (Fin 0), black]\<rparr>)"
    by (simp add: render_def ex_newRenderer resetImage_def ex_pixels renderPixel_def ex_miss ex_hit
        tracePixel_def t2 fillColor_def int32_def pixelIndex_def Let_def)
  have hit: "hitPixel ?S ?C (1, 0)" by (simp add: hitPixel_def ex_hit)
  have m: "marchT (exRay (Fin 0) (Fin 3)) (Fin 1) k = Fin (of_int (min (int k) (2 ^ 24)))" for k
    using marchT_unit[of "exRay (Fin 0) (Fin 3)" 0 k] by simp
  have k3: "fle (marchT (exRay (Fin 0) (Fin 3)) (Fin 1) 3) (Fin 3)"
    "\<not> fle (marchT (exRay (Fin 0) (Fin 3)) (Fin 1) 4) (Fin 3)"
    by (simp_all only: m) (simp_all add: Fin_ops)
  have s34: "flt (marchT (exRay (Fin 0) (Fin 3)) (Fin 1) 3) (marchT (exRay (Fin 0) (Fin 3)) (Fin 1) 4)"
    by (simp only: m) (simp add: Fin_ops)
  show ?thesis
    using t1 run hit k3 s34 T[of _ _ ?S _ _ "newRenderer ?C" _ 2 1 1 0]
    by (simp add: pixelIndex_def)
qed

section \<open>The early exit of the TF-2D march\<close>

lemma iter_while_Suc:
  "iter_while b c (Suc n) s =
     (if b (iter_while b c n s) then c (iter_while b c n s) else iter_while b c n s)"
proof (induction n arbitrary: s)
  case 0
  show ?case by simp
next
  case (Suc n)
  show ?case
  proof (cases "b s")
    case True
    have "iter_while b c (Suc (Suc n)) s = iter_while b c (Suc n) (c s)" using True by simp
    also have "\<dots> = (if b (iter_while b c n (c s)) then c (iter_while b c n (c s))
                       else iter_while b c n (c s))"
      by (rule Suc.IH)
    finally show ?thesis using True by simp
  next
    case False
    then show ?thesis by simp
  qed
qed

lemma iter_while_stop: "\<not> b s \<Longrightarrow> iter_while b c n s = s"
  by (cases n) simp_all

lemma iter_while_invariant:
  assumes "P s" and "\<And>t. P t \<Longrightarrow> b t \<Longrightarrow> P (c t)"
  shows "P (iter_while b c n s)"
  using assms(1)
proof (induction n arbitrary: s)
  case 0
  then show ?case by simp
next
  case (Suc n)
  then show ?case using assms(2) by auto
qed

lemma while_option_iter_while:
  assumes "while_option b c s = Some r"
  shows "\<exists>n. r = iter_while b c n s"
proof (rule while_option_rule[OF _ assms, where P = "\<lambda>t. \<exists>n. t = iter_while b c n s"])
  show "\<exists>n. s = iter_while b c n s" by (rule exI[of _ 0]) simp
next
  fix t assume "\<exists>n. t = iter_while b c n s" and bt: "b t"
  then obtain n where "t = iter_while b c n s" by blast
  then have "c t = iter_while b c (Suc n) s" using bt by (simp only: iter_while_Suc if_True)
  then show "\<exists>n. c t = iter_while b c n s" by blast
qed

lemma while_option_prefix:
  assumes imp: "\<And>t. b' t \<Longrightarrow> b t" and res: "while_option b' c s = Some s'"
  shows "while_option b c s = while_option b c s'"
proof (rule while_option_rule[OF _ res, where P = "\<lambda>t. while_option b c s = while_option b c t"])
  show "while_option b c s = while_option b c s" by simp
next
  fix t assume eq: "while_option b c s = while_option b c t" and bt: "b' t"
  have "while_option b c t = while_option b c (c t)"
    using imp[OF bt] by (subst while_option_unfold) simp
  then show "while_option b c s = while_option b c (c t)" using eq by simp
qed

lemma while_option_iter_while_weaker:
  assumes imp: "\<And>t. b' t \<Longrightarrow> b t" and res: "while_option b' c s = Some s'"
  shows "\<exists>n. s' = iter_while b c n s"
proof (rule while_option_rule[OF _ res, where P = "\<lambda>t. \<exists>n. t = iter_while b c n s"])
  show "\<exists>n. s = iter_while b c n s" by (rule exI[of _ 0]) simp
next
  fix t assume "\<exists>n. t = iter_while b c n s" and bt: "b' t"
  then obtain n where "t = iter_while b c n s" by blast
  then have "c t = iter_while b c (Suc n) s" using imp[OF bt] by (simp only: iter_while_Suc if_True)
  then show "\<exists>n. c t = iter_while b c n s" by blast
qed


lemma while_option_weaker_terminates:
  assumes imp: "\<And>t. b' t \<Longrightarrow> b t" and res: "while_option b c s = Some r"
  shows "\<exists>r'. while_option b' c s = Some r'"
proof -
  have "\<exists>k. \<not> b ((c ^^ k) s)" using res by (auto simp: while_option_def split: if_splits)
  then have "\<exists>k. \<not> b' ((c ^^ k) s)" using imp by blast
  then show ?thesis by (simp add: while_option_def)
qed

lemma pow2_149: "(2::real) powr (- 149) = 1 / 2 ^ 149"
  by (simp add: powr_neg_numeral)

lemma round_real_min_subnormal: "round_real (2 powr (- 149)) = 2 powr (- 149)"
  using round_real_dyadic[of 1 "- 149"] by simp

text \<open>The sum of two numbers of the format is zero or at least \<open>2^-149\<close> in magnitude: an
  addition never underflows to zero.\<close>

lemma round_real_sum_nonzero:
  assumes "is_float x" "is_float y" "x + y \<noteq> 0"
  shows "round_real (x + y) \<noteq> 0"
proof -
  obtain i :: int where i: "x = of_int i * 2 powr (- 149)" using is_float_grid[OF assms(1)] by blast
  obtain j :: int where j: "y = of_int j * 2 powr (- 149)" using is_float_grid[OF assms(2)] by blast
  have s: "x + y = of_int (i + j) * 2 powr (- 149)" by (simp add: i j algebra_simps)
  have nz: "i + j \<noteq> 0" using assms(3) s by auto
  have q: "0 < (2::real) powr (- 149)" by simp
  show ?thesis
  proof (cases "0 < i + j")
    case True
    then have "(1::real) \<le> of_int (i + j)" by linarith
    then have "1 * 2 powr (- 149) \<le> of_int (i + j) * (2::real) powr (- 149)"
      using q by (intro mult_right_mono) simp_all
    then have "2 powr (- 149) \<le> x + y" using s by simp
    then have "round_real (2 powr (- 149)) \<le> round_real (x + y)" by (rule round_real_mono)
    then have "2 powr (- 149) \<le> round_real (x + y)" by (simp only: round_real_min_subnormal)
    then show ?thesis using q by linarith
  next
    case False
    then have "of_int (i + j) \<le> (- 1 :: real)" using nz by linarith
    then have "of_int (i + j) * (2::real) powr (- 149) \<le> - 1 * 2 powr (- 149)"
      using q by (intro mult_right_mono) simp_all
    then have "x + y \<le> - (2 powr (- 149))" using s by simp
    then have "round_real (x + y) \<le> round_real (- (2 powr (- 149)))" by (rule round_real_mono)
    then have "round_real (x + y) \<le> - (2 powr (- 149))"
      by (simp only: round_real_minus round_real_min_subnormal)
    then show ?thesis using q by linarith
  qed
qed

lemma fround_nonzero: "round_real x \<noteq> 0 \<Longrightarrow> fround s x \<noteq> NZero"
  by (simp add: fround_def Let_def mk_fin_def inf_s_def)

lemma fadd_not_NZero:
  assumes "valid a" "valid b" "a \<noteq> NZero"
  shows "fadd a b \<noteq> NZero"
proof (cases "fin a \<and> fin b")
  case False
  then show ?thesis by (cases a; cases b) (auto simp: fadd_def)
next
  case True
  then have f: "is_float (rv a)" "is_float (rv b)" using assms(1,2) by (simp_all add: valid_fin_float)
  show ?thesis
  proof (cases "rv a + rv b = 0")
    case z: True
    then show ?thesis using True assms(3) by (cases a; cases b) (auto simp: fadd_def)
  next
    case nz: False
    have "fadd a b = fround (rv a + rv b < 0) (rv a + rv b)"
      using True nz by (cases a; cases b) (auto simp: fadd_def)
    then show ?thesis using fround_nonzero[OF round_real_sum_nonzero[OF f nz]] by simp
  qed
qed

lemma fadd_zero_right:
  assumes "valid a" "a \<noteq> NZero" "is_zero z"
  shows "fadd a z = a"
proof (cases a)
  case (Fin x)
  then have "is_float x" using assms(1) by simp
  then show ?thesis using Fin assms(3)
    by (cases z) (auto simp: fadd_def fround_float mk_fin_def)
qed (use assms in \<open>cases z; auto simp: fadd_def\<close>)+

lemma fmul_fin_args: "fin (fmul a b) \<Longrightarrow> fin a \<and> fin b"
  by (cases a; cases b) (auto simp: fmul_def inf_s_def split: if_splits)

lemma fsub_one_fin:
  assumes "valid a" "fin a" "0 \<le> rv a"
  shows "fin (fsub (Fin 1) a)"
proof -
  have fa: "is_float (- rv a)" using valid_fin_float[OF assms(1,2)] by simp
  have "fsub (Fin 1) a = Fin 0 \<or> fsub (Fin 1) a = fround (1 - rv a < 0) (1 - rv a)"
    using assms(2) by (cases a) (auto simp: fsub_def fadd_def)
  then show ?thesis
    using fround_between(1)[OF fa float_vals(2), of "1 - rv a"] assms(3) by auto
qed

lemma tf2dRegular_init: "tf2dRegular (tf2dInit ray)"
  by (simp add: tf2dRegular_def tf2dInit_def vec4_of_def vec4_v3_def vec3_of_def is_float_0)

lemma tf2dRegular_body:
  assumes "tf2dRegular s"
  shows "tf2dRegular (tf2dBody scene cfg ray step s)"
proof (cases "getTFValue cfg (getSampleInterpolate scene (tf_pos s))")
  case (Inl e)
  then show ?thesis using assms by (simp add: tf2dBody_def tf2dRegular_def Let_def)
next
  case (Inr v)
  then show ?thesis
    using assms fadd_not_NZero
    by (simp add: tf2dBody_def tf2dRegular_def Let_def vadd_def vec4_v3_def)
qed

lemma tf2dBody_step:
  assumes "getTFValue cfg (getSampleInterpolate scene (tf_pos s)) = Inr v"
  shows "tf2dBody scene cfg ray step s =
     \<lparr>tf_t = fadd (tf_t s) step,
      tf_pos = vadd (tf_pos s) (vscale step (direction ray)),
      tf_Ci = vadd (tf_Ci s)
        \<lparr>vx = fmul (fmul (cr (TF2DColor cfg)) (tf2dSampleOpacity scene cfg (tf_pos s))) (fsub (Fin 1) (tf_Ai s)),
         vy = fmul (fmul (cg (TF2DColor cfg)) (tf2dSampleOpacity scene cfg (tf_pos s))) (fsub (Fin 1) (tf_Ai s)),
         vz = fmul (fmul (cb (TF2DColor cfg)) (tf2dSampleOpacity scene cfg (tf_pos s))) (fsub (Fin 1) (tf_Ai s))\<rparr>,
      tf_Ai = fadd (tf_Ai s) (fmul (fsub (Fin 1) (tf_Ai s)) (tf2dSampleOpacity scene cfg (tf_pos s))),
      tf_C = vec4_v3
        (vadd (tf_Ci s)
          \<lparr>vx = fmul (fmul (cr (TF2DColor cfg)) (tf2dSampleOpacity scene cfg (tf_pos s))) (fsub (Fin 1) (tf_Ai s)),
           vy = fmul (fmul (cg (TF2DColor cfg)) (tf2dSampleOpacity scene cfg (tf_pos s))) (fsub (Fin 1) (tf_Ai s)),
           vz = fmul (fmul (cb (TF2DColor cfg)) (tf2dSampleOpacity scene cfg (tf_pos s))) (fsub (Fin 1) (tf_Ai s))\<rparr>)
        (fadd (tf_Ai s) (fmul (fsub (Fin 1) (tf_Ai s)) (tf2dSampleOpacity scene cfg (tf_pos s)))),
      tf_err = None\<rparr>"
  using assms by (simp add: tf2dBody_def Let_def tf2dSampleOpacity_def)


text \<open>
  A sample that leaves the accumulators unchanged: its opacity is zero, or the accumulated
  alpha is exactly \<open>1\<close> (the transparency \<open>1 - Ai\<close> is zero); the products with the
  colour are finite.
\<close>

lemma tf2dBody_skip:
  assumes reg: "tf2dRegular s" and ge: "fge (tf_Ai s) d095"
    and look: "getTFValue cfg (getSampleInterpolate scene (tf_pos s)) = Inr v"
    and finc: "fin (fmul (cr (TF2DColor cfg)) (tf2dSampleOpacity scene cfg (tf_pos s)))"
              "fin (fmul (cg (TF2DColor cfg)) (tf2dSampleOpacity scene cfg (tf_pos s)))"
              "fin (fmul (cb (TF2DColor cfg)) (tf2dSampleOpacity scene cfg (tf_pos s)))"
    and skip: "is_zero (tf2dSampleOpacity scene cfg (tf_pos s)) \<and> fin (tf_Ai s) \<or> tf_Ai s = Fin 1"
  shows "tf_Ci (tf2dBody scene cfg ray step s) = tf_Ci s"
    and "tf_Ai (tf2dBody scene cfg ray step s) = tf_Ai s"
    and "tf_C (tf2dBody scene cfg ray step s) = tf_C s"
    and "tf_err (tf2dBody scene cfg ray step s) = None"
proof -
  let ?op = "tf2dSampleOpacity scene cfg (tf_pos s)"
  let ?tr = "fsub (Fin 1) (tf_Ai s)"
  have a: "valid (tf_Ai s)" "tf_Ai s \<noteq> NZero" and c: "tf_C s = vec4_v3 (tf_Ci s) (tf_Ai s)"
    and vc: "valid (vx (tf_Ci s))" "valid (vy (tf_Ci s))" "valid (vz (tf_Ci s))"
    and nz: "vx (tf_Ci s) \<noteq> NZero" "vy (tf_Ci s) \<noteq> NZero" "vz (tf_Ci s) \<noteq> NZero"
    using reg by (simp_all add: tf2dRegular_def)
  have fa: "fin (tf_Ai s)" using skip by auto
  have pos: "0 \<le> rv (tf_Ai s)"
    using ge fa by (cases "tf_Ai s") (auto simp: fl_cmp d095_def)
  have tr: "fin ?tr" using fsub_one_fin[OF a(1) fa pos] .
  have fop: "fin ?op" using fmul_fin_args[OF finc(1)] by simp
  have z1: "is_zero ?op \<or> is_zero ?tr"
  proof -
    have "is_zero (fsub (Fin 1) (Fin 1))" by (simp add: fsub_def fadd_def)
    then show ?thesis using skip by auto
  qed
  have z: "is_zero (fmul (fmul k ?op) ?tr)" if "fin (fmul k ?op)" for k
  proof -
    have "fin k" using fmul_fin_args[OF that] by simp
    then show ?thesis
      using z1 fmul_zero_left[OF fmul_zero_right[of k ?op] tr] fmul_zero_right[OF that, of ?tr]
      by blast
  qed
  have za: "is_zero (fmul ?tr ?op)"
    using z1 fmul_zero_right[OF tr, of ?op] fmul_zero_left[OF _ fop, of ?tr] by blast
  have Ai: "fadd (tf_Ai s) (fmul ?tr ?op) = tf_Ai s"
    using fadd_zero_right[OF a za] .
  have Ci: "vadd (tf_Ci s)
      \<lparr>vx = fmul (fmul (cr (TF2DColor cfg)) ?op) ?tr,
       vy = fmul (fmul (cg (TF2DColor cfg)) ?op) ?tr,
       vz = fmul (fmul (cb (TF2DColor cfg)) ?op) ?tr\<rparr> = tf_Ci s"
    using fadd_zero_right[OF vc(1) nz(1) z[OF finc(1)]] fadd_zero_right[OF vc(2) nz(2) z[OF finc(2)]]
      fadd_zero_right[OF vc(3) nz(3) z[OF finc(3)]]
    by (simp add: vadd_def)
  note st = tf2dBody_step[OF look, of ray step]
  show "tf_Ci (tf2dBody scene cfg ray step s) = tf_Ci s" by (simp add: st Ci)
  show "tf_Ai (tf2dBody scene cfg ray step s) = tf_Ai s" by (simp add: st Ai)
  show "tf_C (tf2dBody scene cfg ray step s) = tf_C s" by (simp add: st Ai Ci c)
  show "tf_err (tf2dBody scene cfg ray step s) = None" by (simp add: st)
qed

text \<open>
  C3, as amended. Whenever the march of all samples up to \<open>tmax\<close> returns,
  \<open>traceRayTF2D\<close> returns, and returns the same colour, provided every sample that the
  full march evaluates once the accumulated alpha is \<open>\<ge> 0.95\<close> has a defined 1D
  lookup (which the loop body also performs) and finite products of its 2D opacity with
  the colour, and either its 2D opacity is zero (the accumulated alpha being finite) or
  the accumulated alpha is exactly \<open>1\<close>.
\<close>

theorem traceRayTF2D_early_exit:
  assumes full: "traceRayTF2D_full scene cfg ray step = Some res"
    and skipped: "\<forall>n. tf2dCondFull ray (tf2dMarchFull scene cfg ray step n)
                      \<and> fge (tf_Ai (tf2dMarchFull scene cfg ray step n)) d095
       \<longrightarrow> (\<exists>v. getTFValue cfg (getSampleInterpolate scene
                                   (tf_pos (tf2dMarchFull scene cfg ray step n))) = Inr v)
          \<and> fin (fmul (cr (TF2DColor cfg))
                   (tf2dSampleOpacity scene cfg (tf_pos (tf2dMarchFull scene cfg ray step n))))
          \<and> fin (fmul (cg (TF2DColor cfg))
                   (tf2dSampleOpacity scene cfg (tf_pos (tf2dMarchFull scene cfg ray step n))))
          \<and> fin (fmul (cb (TF2DColor cfg))
                   (tf2dSampleOpacity scene cfg (tf_pos (tf2dMarchFull scene cfg ray step n))))
          \<and> (is_zero (tf2dSampleOpacity scene cfg (tf_pos (tf2dMarchFull scene cfg ray step n)))
               \<and> fin (tf_Ai (tf2dMarchFull scene cfg ray step n))
             \<or> tf_Ai (tf2dMarchFull scene cfg ray step n) = Fin 1)"
  shows "traceRayTF2D scene cfg ray step = Some res"
proof -
  let ?c = "tf2dBody scene cfg ray step"
  let ?bE = "tf2dCond ray" and ?bF = "tf2dCondFull ray"
  let ?s0 = "tf2dInit ray"
  have imp: "\<And>t. ?bE t \<Longrightarrow> ?bF t" by (simp add: tf2dCond_def tf2dCondFull_def)
  obtain sF where sF: "while_option ?bF ?c ?s0 = Some sF" and res: "res = tf2dResult sF"
    using full by (auto simp: traceRayTF2D_full_def)
  obtain sE where sE: "while_option ?bE ?c ?s0 = Some sE"
    using while_option_weaker_terminates[where b' = ?bE and b = ?bF, OF imp sF] by blast
  have regE: "tf2dRegular sE"
    by (rule while_option_rule[OF _ sE, where P = tf2dRegular])
       (use tf2dRegular_init tf2dRegular_body in auto)
  obtain k where k: "sE = iter_while ?bF ?c k ?s0"
    using while_option_iter_while_weaker[where b' = ?bE and b = ?bF, OF imp sE] by blast
  have stopE: "\<not> ?bE sE" using while_option_stop[OF sE] .
  have cont: "while_option ?bF ?c sE = Some sF"
    using while_option_prefix[where b' = ?bE and b = ?bF, OF imp sE] sF by simp
  have same: "tf2dResult sF = tf2dResult sE"
  proof (cases "?bF sE")
    case False
    then have "while_option ?bF ?c sE = Some sE" by (subst while_option_unfold) simp
    then show ?thesis using cont by simp
  next
    case True
    then have ge: "fge (tf_Ai sE) d095" and e0: "tf_err sE = None"
      using stopE by (auto simp: tf2dCond_def tf2dCondFull_def)
    let ?Q = "\<lambda>t. tf_err t = None \<and> tf_Ci t = tf_Ci sE \<and> tf_Ai t = tf_Ai sE \<and> tf_C t = tf_C sE
                  \<and> (\<exists>n. t = iter_while ?bF ?c n ?s0)"
    have "?Q sF"
    proof (rule while_option_rule[OF _ cont, where P = ?Q])
      show "?Q sE" using e0 k by blast
    next
      fix t :: tf2d_state assume Q: "?Q t" and b: "?bF t"
      then obtain n where n: "t = iter_while ?bF ?c n ?s0" by blast
      have reg: "tf2dRegular t" using regE Q by (simp add: tf2dRegular_def)
      have get: "fge (tf_Ai t) d095" using ge Q by simp
      have "?bF (tf2dMarchFull scene cfg ray step n)
            \<and> fge (tf_Ai (tf2dMarchFull scene cfg ray step n)) d095"
        using b get n by (simp add: tf2dMarchFull_def)
      then obtain v where look: "getTFValue cfg (getSampleInterpolate scene (tf_pos t)) = Inr v"
        and finc: "fin (fmul (cr (TF2DColor cfg)) (tf2dSampleOpacity scene cfg (tf_pos t)))"
                  "fin (fmul (cg (TF2DColor cfg)) (tf2dSampleOpacity scene cfg (tf_pos t)))"
                  "fin (fmul (cb (TF2DColor cfg)) (tf2dSampleOpacity scene cfg (tf_pos t)))"
        and skip: "is_zero (tf2dSampleOpacity scene cfg (tf_pos t)) \<and> fin (tf_Ai t) \<or> tf_Ai t = Fin 1"
        using skipped[THEN spec, of n] n by (auto simp: tf2dMarchFull_def)
      note z = tf2dBody_skip[OF reg get look finc skip, of ray step]
      have "?c t = iter_while ?bF ?c (Suc n) ?s0"
        using n b by (simp only: iter_while_Suc if_True)
      then have ex: "\<exists>m. ?c t = iter_while ?bF ?c m ?s0" by (rule exI[of _ "Suc n"])
      from Q have q: "tf_Ci t = tf_Ci sE" "tf_Ai t = tf_Ai sE" "tf_C t = tf_C sE" by blast+
      have "tf_err (?c t) = None" by (rule z(4))
      moreover have "tf_Ci (?c t) = tf_Ci sE" using z(1) q(1) by (rule trans)
      moreover have "tf_Ai (?c t) = tf_Ai sE" using z(2) q(2) by (rule trans)
      moreover have "tf_C (?c t) = tf_C sE" using z(3) q(3) by (rule trans)
      ultimately show "?Q (?c t)" using ex by (intro conjI)
    qed
    then show ?thesis using e0 by (simp add: tf2dResult_def)
  qed
  show ?thesis
    using sE same res by (simp add: traceRayTF2D_def)
qed

lemma ex_opacity:
  "is_float a \<Longrightarrow> 0 \<le> a \<Longrightarrow>
   tf2dSampleOpacity (exScene (\<lambda>p. Fin 0) exGradient) (exConfig m sh i cm (rgba r g b a)) p = Fin a"
  by (simp add: tf2dSampleOpacity_def getTF2DOpacity_def tf2dInside_def Let_def exGradient_def
      fl_arith fl_cmp)

lemma exStepField_opacity:
  "is_float a \<Longrightarrow> 0 \<le> a \<Longrightarrow>
   tf2dSampleOpacity (exScene exStepField exGradient) (exConfig m sh i cm (rgba r g b a)) p
     = (if feq (vx p) (Fin 0) then Fin a else Fin 0)"
  by (simp add: tf2dSampleOpacity_def getTF2DOpacity_def tf2dInside_def Let_def exGradient_def
      exStepField_def fl_arith fl_cmp)

lemma exStepField_lookup:
  "getTFValue (exConfig m sh i [c] col) (exStepField p) = Inr c"
  by (simp add: exStepField_def ex_lookup_single)

text \<open>
  The claim as stated fails when a skipped sample has a non-zero opacity: a constant
  field at the apex intensity with TF-2D alpha \<open>31/32\<close>, two samples. The early exit
  returns after the first sample with alpha \<open>31/32 \<ge> 0.95\<close>; the full march composites
  the second sample and returns alpha \<open>1023/1024\<close>.
\<close>

theorem traceRayTF2D_early_exit_counterexample:
  "traceRayTF2D (exScene (\<lambda>p. Fin 0) exGradient)
      (exConfig RenderTF2D False (Fin 0) [rgba 0 0 0 0] (rgba 1 1 1 (31/32)))
      (exRay (Fin 0) (Fin 1)) sampleStep0
     = Some (Inr (rgba (31/32) (31/32) (31/32) (31/32)))
   \<and> traceRayTF2D_full (exScene (\<lambda>p. Fin 0) exGradient)
      (exConfig RenderTF2D False (Fin 0) [rgba 0 0 0 0] (rgba 1 1 1 (31/32)))
      (exRay (Fin 0) (Fin 1)) sampleStep0
     = Some (Inr (rgba (1023/1024) (1023/1024) (1023/1024) (1023/1024)))
   \<and> rgba (31/32) (31/32) (31/32) (31/32) \<noteq> rgba (1023/1024) (1023/1024) (1023/1024) (1023/1024)"
proof -
  let ?S = "exScene (\<lambda>p. Fin 0) exGradient"
  let ?C = "exConfig RenderTF2D False (Fin 0) [rgba 0 0 0 0] (rgba 1 1 1 (31/32))"
  let ?ray = "exRay (Fin 0) (Fin 1)"
  let ?c = "tf2dBody ?S ?C ?ray (Fin 1)"
  let ?s0 = "tf2dInit ?ray"
  let ?s1 = "\<lparr>tf_t = Fin 1, tf_pos = \<lparr>vx = Fin 1, vy = Fin 0, vz = Fin 0\<rparr>,
              tf_Ci = vec3_of (Fin (31/32)), tf_Ai = Fin (31/32),
              tf_C = vec4_of (Fin (31/32)), tf_err = None\<rparr>"
  let ?s2 = "\<lparr>tf_t = Fin 2, tf_pos = \<lparr>vx = Fin 2, vy = Fin 0, vz = Fin 0\<rparr>,
              tf_Ci = vec3_of (Fin (1023/1024)), tf_Ai = Fin (1023/1024),
              tf_C = vec4_of (Fin (1023/1024)), tf_err = None\<rparr>"
  have look: "getTFValue ?C (getSampleInterpolate ?S p) = Inr (rgba 0 0 0 0)" for p
    by (simp add: ex_lookup_single)
  have op: "tf2dSampleOpacity ?S ?C p = Fin (31/32)" for p
    by (simp add: ex_opacity float_vals)
  have s0: "?s0 = \<lparr>tf_t = Fin 0, tf_pos = \<lparr>vx = Fin 0, vy = Fin 0, vz = Fin 0\<rparr>,
              tf_Ci = vec3_of (Fin 0), tf_Ai = Fin 0, tf_C = vec4_of (Fin 0), tf_err = None\<rparr>"
    by (simp add: tf2dInit_def vec_defs fl_arith)
  have b0: "?c ?s0 = ?s1"
    by (simp add: s0 tf2dBody_step[OF look] op vec_defs Fin_ops float_vals)
  have b1: "?c ?s1 = ?s2"
    by (simp add: tf2dBody_step[OF look] op vec_defs Fin_ops float_vals)
  have c0: "tf2dCond ?ray ?s0" "tf2dCondFull ?ray ?s0"
    by (simp_all add: s0 tf2dCond_def tf2dCondFull_def d095_def Fin_ops)
  have c1: "\<not> tf2dCond ?ray ?s1" "tf2dCondFull ?ray ?s1"
    by (simp_all add: tf2dCond_def tf2dCondFull_def d095_def Fin_ops)
  have c2: "\<not> tf2dCondFull ?ray ?s2"
    by (simp add: tf2dCondFull_def Fin_ops)
  have e: "while_option (tf2dCond ?ray) ?c ?s0 = Some ?s1"
    by (subst while_option_unfold, simp only: c0 if_True b0)
       (subst while_option_unfold, simp only: c1 if_False)
  have f: "while_option (tf2dCondFull ?ray) ?c ?s0 = Some ?s2"
    by (subst while_option_unfold, simp only: c0 if_True b0,
        subst while_option_unfold, simp only: c1 if_True b1)
       (subst while_option_unfold, simp only: c2 if_False)
  show ?thesis
    by (simp only: traceRayTF2D_def traceRayTF2D_full_def sampleStep0_def e f)
       (simp add: tf2dResult_def rgba_def vec4_of_def)
qed


lemma ex_march_transparent:
  defines "S \<equiv> exScene exStepField exGradient"
    and "C \<equiv> exConfig RenderTF2D False (Fin 0) [rgba 0 0 0 0] (rgba 1 1 1 (31/32))"
    and "ray \<equiv> exRay (Fin 0) (Fin 1)"
  shows "traceRayTF2D_full S C ray (Fin 1) = Some (Inr (rgba (31/32) (31/32) (31/32) (31/32)))"
    and "tf2dMarchFull S C ray (Fin 1) (Suc 0) =
           \<lparr>tf_t = Fin 1, tf_pos = \<lparr>vx = Fin 1, vy = Fin 0, vz = Fin 0\<rparr>,
            tf_Ci = vec3_of (Fin (31/32)), tf_Ai = Fin (31/32), tf_C = vec4_of (Fin (31/32)),
            tf_err = None\<rparr>"
    and "\<forall>n. tf2dCondFull ray (tf2dMarchFull S C ray (Fin 1) n)
                      \<and> fge (tf_Ai (tf2dMarchFull S C ray (Fin 1) n)) d095 \<longrightarrow> n = Suc 0"
proof -
  let ?c = "tf2dBody S C ray (Fin 1)"
  let ?s0 = "tf2dInit ray"
  let ?s1 = "\<lparr>tf_t = Fin 1, tf_pos = \<lparr>vx = Fin 1, vy = Fin 0, vz = Fin 0\<rparr>,
              tf_Ci = vec3_of (Fin (31/32)), tf_Ai = Fin (31/32), tf_C = vec4_of (Fin (31/32)),
              tf_err = None\<rparr>"
  let ?s2 = "\<lparr>tf_t = Fin 2, tf_pos = \<lparr>vx = Fin 2, vy = Fin 0, vz = Fin 0\<rparr>,
              tf_Ci = vec3_of (Fin (31/32)), tf_Ai = Fin (31/32), tf_C = vec4_of (Fin (31/32)),
              tf_err = None\<rparr>"
  have look: "getTFValue C (getSampleInterpolate S p) = Inr (rgba 0 0 0 0)" for p
    by (simp add: S_def C_def exStepField_lookup ex_lookup_single)
  note op = exStepField_opacity ex_opacity float_vals
  have s0: "?s0 = \<lparr>tf_t = Fin 0, tf_pos = \<lparr>vx = Fin 0, vy = Fin 0, vz = Fin 0\<rparr>,
              tf_Ci = vec3_of (Fin 0), tf_Ai = Fin 0, tf_C = vec4_of (Fin 0), tf_err = None\<rparr>"
    by (simp add: ray_def tf2dInit_def vec_defs fl_arith)
  have b0: "?c ?s0 = ?s1"
    by (simp add: s0 tf2dBody_step[OF look]) (simp add: S_def C_def ray_def op vec_defs fl_arith fl_cmp)
  have b1: "?c ?s1 = ?s2"
    by (simp add: tf2dBody_step[OF look]) (simp add: S_def C_def ray_def op vec_defs fl_arith fl_cmp)
  have c0: "tf2dCondFull ray ?s0" "\<not> fge (tf_Ai ?s0) d095"
    unfolding s0 by (simp_all add: ray_def tf2dCondFull_def d095_def Fin_ops)
  have c1: "tf2dCondFull ray ?s1"
    by (simp_all add: ray_def tf2dCondFull_def Fin_ops)
  have c2: "\<not> tf2dCondFull ray ?s2"
    by (simp add: ray_def tf2dCondFull_def Fin_ops)
  have m0: "tf2dMarchFull S C ray (Fin 1) 0 = ?s0" by (simp add: tf2dMarchFull_def)
  show m1: "tf2dMarchFull S C ray (Fin 1) (Suc 0) = ?s1"
    using c0(1) b0 by (simp add: tf2dMarchFull_def)
  have m2: "tf2dMarchFull S C ray (Fin 1) (Suc (Suc n)) = ?s2" for n
    unfolding tf2dMarchFull_def
    by (simp only: iter_while.simps c0(1) if_True b0 c1 b1 iter_while_stop[where b = "tf2dCondFull ray", OF c2])
  show "traceRayTF2D_full S C ray (Fin 1) = Some (Inr (rgba (31/32) (31/32) (31/32) (31/32)))"
    unfolding traceRayTF2D_full_def
    by (subst while_option_unfold, simp only: c0 if_True b0,
        subst while_option_unfold, simp only: c1 if_True b1)
       (subst while_option_unfold, simp only: c2 if_False, simp add: tf2dResult_def rgba_def vec4_of_def)
  show "\<forall>n. tf2dCondFull ray (tf2dMarchFull S C ray (Fin 1) n)
                      \<and> fge (tf_Ai (tf2dMarchFull S C ray (Fin 1) n)) d095 \<longrightarrow> n = Suc 0"
  proof (intro allI impI)
    fix n
    assume a: "tf2dCondFull ray (tf2dMarchFull S C ray (Fin 1) n)
                      \<and> fge (tf_Ai (tf2dMarchFull S C ray (Fin 1) n)) d095"
    show "n = Suc 0"
    proof (cases n)
      case 0
      then show ?thesis using a c0(2) m0 by simp
    next
      case (Suc k)
      then show ?thesis using a c2 m2 by (cases k) auto
    qed
  qed
qed

lemma ex_march_opaque:
  defines "S \<equiv> exScene (\<lambda>p. Fin 0) exGradient"
    and "C \<equiv> exConfig RenderTF2D False (Fin 0) [rgba 0 0 0 0] (rgba 1 1 1 1)"
    and "ray \<equiv> exRay (Fin 0) (Fin 1)"
  shows "traceRayTF2D_full S C ray (Fin 1) = Some (Inr (rgba (1) (1) (1) (1)))"
    and "tf2dMarchFull S C ray (Fin 1) (Suc 0) =
           \<lparr>tf_t = Fin 1, tf_pos = \<lparr>vx = Fin 1, vy = Fin 0, vz = Fin 0\<rparr>,
            tf_Ci = vec3_of (Fin (1)), tf_Ai = Fin (1), tf_C = vec4_of (Fin (1)),
            tf_err = None\<rparr>"
    and "\<forall>n. tf2dCondFull ray (tf2dMarchFull S C ray (Fin 1) n)
                      \<and> fge (tf_Ai (tf2dMarchFull S C ray (Fin 1) n)) d095 \<longrightarrow> n = Suc 0"
proof -
  let ?c = "tf2dBody S C ray (Fin 1)"
  let ?s0 = "tf2dInit ray"
  let ?s1 = "\<lparr>tf_t = Fin 1, tf_pos = \<lparr>vx = Fin 1, vy = Fin 0, vz = Fin 0\<rparr>,
              tf_Ci = vec3_of (Fin (1)), tf_Ai = Fin (1), tf_C = vec4_of (Fin (1)),
              tf_err = None\<rparr>"
  let ?s2 = "\<lparr>tf_t = Fin 2, tf_pos = \<lparr>vx = Fin 2, vy = Fin 0, vz = Fin 0\<rparr>,
              tf_Ci = vec3_of (Fin (1)), tf_Ai = Fin (1), tf_C = vec4_of (Fin (1)),
              tf_err = None\<rparr>"
  have look: "getTFValue C (getSampleInterpolate S p) = Inr (rgba 0 0 0 0)" for p
    by (simp add: S_def C_def exStepField_lookup ex_lookup_single)
  note op = exStepField_opacity ex_opacity float_vals
  have s0: "?s0 = \<lparr>tf_t = Fin 0, tf_pos = \<lparr>vx = Fin 0, vy = Fin 0, vz = Fin 0\<rparr>,
              tf_Ci = vec3_of (Fin 0), tf_Ai = Fin 0, tf_C = vec4_of (Fin 0), tf_err = None\<rparr>"
    by (simp add: ray_def tf2dInit_def vec_defs fl_arith)
  have b0: "?c ?s0 = ?s1"
    by (simp add: s0 tf2dBody_step[OF look]) (simp add: S_def C_def ray_def op vec_defs fl_arith fl_cmp)
  have b1: "?c ?s1 = ?s2"
    by (simp add: tf2dBody_step[OF look]) (simp add: S_def C_def ray_def op vec_defs fl_arith fl_cmp)
  have c0: "tf2dCondFull ray ?s0" "\<not> fge (tf_Ai ?s0) d095"
    unfolding s0 by (simp_all add: ray_def tf2dCondFull_def d095_def Fin_ops)
  have c1: "tf2dCondFull ray ?s1"
    by (simp_all add: ray_def tf2dCondFull_def Fin_ops)
  have c2: "\<not> tf2dCondFull ray ?s2"
    by (simp add: ray_def tf2dCondFull_def Fin_ops)
  have m0: "tf2dMarchFull S C ray (Fin 1) 0 = ?s0" by (simp add: tf2dMarchFull_def)
  show m1: "tf2dMarchFull S C ray (Fin 1) (Suc 0) = ?s1"
    using c0(1) b0 by (simp add: tf2dMarchFull_def)
  have m2: "tf2dMarchFull S C ray (Fin 1) (Suc (Suc n)) = ?s2" for n
    unfolding tf2dMarchFull_def
    by (simp only: iter_while.simps c0(1) if_True b0 c1 b1 iter_while_stop[where b = "tf2dCondFull ray", OF c2])
  show "traceRayTF2D_full S C ray (Fin 1) = Some (Inr (rgba (1) (1) (1) (1)))"
    unfolding traceRayTF2D_full_def
    by (subst while_option_unfold, simp only: c0 if_True b0,
        subst while_option_unfold, simp only: c1 if_True b1)
       (subst while_option_unfold, simp only: c2 if_False, simp add: tf2dResult_def rgba_def vec4_of_def)
  show "\<forall>n. tf2dCondFull ray (tf2dMarchFull S C ray (Fin 1) n)
                      \<and> fge (tf_Ai (tf2dMarchFull S C ray (Fin 1) n)) d095 \<longrightarrow> n = Suc 0"
  proof (intro allI impI)
    fix n
    assume a: "tf2dCondFull ray (tf2dMarchFull S C ray (Fin 1) n)
                      \<and> fge (tf_Ai (tf2dMarchFull S C ray (Fin 1) n)) d095"
    show "n = Suc 0"
    proof (cases n)
      case 0
      then show ?thesis using a c0(2) m0 by simp
    next
      case (Suc k)
      then show ?thesis using a c2 m2 by (cases k) auto
    qed
  qed
qed

theorem traceRayTF2D_early_exit_witness:
  "traceRayTF2D_full (exScene exStepField exGradient)
      (exConfig RenderTF2D False (Fin 0) [rgba 0 0 0 0] (rgba 1 1 1 (31/32)))
      (exRay (Fin 0) (Fin 1)) sampleStep0 = Some (Inr (rgba (31/32) (31/32) (31/32) (31/32)))
   \<and> traceRayTF2D (exScene exStepField exGradient)
      (exConfig RenderTF2D False (Fin 0) [rgba 0 0 0 0] (rgba 1 1 1 (31/32)))
      (exRay (Fin 0) (Fin 1)) sampleStep0 = Some (Inr (rgba (31/32) (31/32) (31/32) (31/32)))
   \<and> tf2dSampleOpacity (exScene exStepField exGradient)
         (exConfig RenderTF2D False (Fin 0) [rgba 0 0 0 0] (rgba 1 1 1 (31/32)))
         \<lparr>vx = Fin 1, vy = Fin 0, vz = Fin 0\<rparr> = Fin 0
   \<and> traceRayTF2D_full (exScene (\<lambda>p. Fin 0) exGradient)
      (exConfig RenderTF2D False (Fin 0) [rgba 0 0 0 0] (rgba 1 1 1 1))
      (exRay (Fin 0) (Fin 1)) sampleStep0 = Some (Inr (rgba 1 1 1 1))
   \<and> traceRayTF2D (exScene (\<lambda>p. Fin 0) exGradient)
      (exConfig RenderTF2D False (Fin 0) [rgba 0 0 0 0] (rgba 1 1 1 1))
      (exRay (Fin 0) (Fin 1)) sampleStep0 = Some (Inr (rgba 1 1 1 1))
   \<and> tf2dSampleOpacity (exScene (\<lambda>p. Fin 0) exGradient)
         (exConfig RenderTF2D False (Fin 0) [rgba 0 0 0 0] (rgba 1 1 1 1))
         \<lparr>vx = Fin 1, vy = Fin 0, vz = Fin 0\<rparr> = Fin 1"
proof -
  let ?ray = "exRay (Fin 0) (Fin 1)"
  let ?S = "exScene exStepField exGradient"
  let ?C = "exConfig RenderTF2D False (Fin 0) [rgba 0 0 0 0] (rgba 1 1 1 (31/32))"
  note A = ex_march_transparent
  have opA: "tf2dSampleOpacity ?S ?C \<lparr>vx = Fin 1, vy = Fin 0, vz = Fin 0\<rparr> = Fin 0"
    by (simp add: exStepField_opacity float_vals Fin_ops)
  have skA: "\<forall>n. tf2dCondFull ?ray (tf2dMarchFull ?S ?C ?ray (Fin 1) n)
                      \<and> fge (tf_Ai (tf2dMarchFull ?S ?C ?ray (Fin 1) n)) d095
       \<longrightarrow> (\<exists>v. getTFValue ?C (getSampleInterpolate ?S
                                   (tf_pos (tf2dMarchFull ?S ?C ?ray (Fin 1) n))) = Inr v)
          \<and> fin (fmul (cr (TF2DColor ?C))
                   (tf2dSampleOpacity ?S ?C (tf_pos (tf2dMarchFull ?S ?C ?ray (Fin 1) n))))
          \<and> fin (fmul (cg (TF2DColor ?C))
                   (tf2dSampleOpacity ?S ?C (tf_pos (tf2dMarchFull ?S ?C ?ray (Fin 1) n))))
          \<and> fin (fmul (cb (TF2DColor ?C))
                   (tf2dSampleOpacity ?S ?C (tf_pos (tf2dMarchFull ?S ?C ?ray (Fin 1) n))))
          \<and> (is_zero (tf2dSampleOpacity ?S ?C (tf_pos (tf2dMarchFull ?S ?C ?ray (Fin 1) n)))
               \<and> fin (tf_Ai (tf2dMarchFull ?S ?C ?ray (Fin 1) n))
             \<or> tf_Ai (tf2dMarchFull ?S ?C ?ray (Fin 1) n) = Fin 1)"
  proof (intro allI impI)
    fix n
    assume "tf2dCondFull ?ray (tf2dMarchFull ?S ?C ?ray (Fin 1) n)
                      \<and> fge (tf_Ai (tf2dMarchFull ?S ?C ?ray (Fin 1) n)) d095"
    then have n: "n = Suc 0" using A(3) by blast
    show "(\<exists>v. getTFValue ?C (getSampleInterpolate ?S
                                   (tf_pos (tf2dMarchFull ?S ?C ?ray (Fin 1) n))) = Inr v)
          \<and> fin (fmul (cr (TF2DColor ?C))
                   (tf2dSampleOpacity ?S ?C (tf_pos (tf2dMarchFull ?S ?C ?ray (Fin 1) n))))
          \<and> fin (fmul (cg (TF2DColor ?C))
                   (tf2dSampleOpacity ?S ?C (tf_pos (tf2dMarchFull ?S ?C ?ray (Fin 1) n))))
          \<and> fin (fmul (cb (TF2DColor ?C))
                   (tf2dSampleOpacity ?S ?C (tf_pos (tf2dMarchFull ?S ?C ?ray (Fin 1) n))))
          \<and> (is_zero (tf2dSampleOpacity ?S ?C (tf_pos (tf2dMarchFull ?S ?C ?ray (Fin 1) n)))
               \<and> fin (tf_Ai (tf2dMarchFull ?S ?C ?ray (Fin 1) n))
             \<or> tf_Ai (tf2dMarchFull ?S ?C ?ray (Fin 1) n) = Fin 1)"
      unfolding n A(2) by (simp add: exStepField_lookup opA fl_arith)
  qed
  have eA: "traceRayTF2D ?S ?C ?ray (Fin 1) = Some (Inr (rgba (31/32) (31/32) (31/32) (31/32)))"
    using traceRayTF2D_early_exit[OF A(1) skA] .
  let ?S = "exScene (\<lambda>p. Fin 0) exGradient"
  let ?C = "exConfig RenderTF2D False (Fin 0) [rgba 0 0 0 0] (rgba 1 1 1 1)"
  note B = ex_march_opaque
  have opB: "tf2dSampleOpacity ?S ?C \<lparr>vx = Fin 1, vy = Fin 0, vz = Fin 0\<rparr> = Fin 1"
    by (simp add: ex_opacity float_vals)
  have skB: "\<forall>n. tf2dCondFull ?ray (tf2dMarchFull ?S ?C ?ray (Fin 1) n)
                      \<and> fge (tf_Ai (tf2dMarchFull ?S ?C ?ray (Fin 1) n)) d095
       \<longrightarrow> (\<exists>v. getTFValue ?C (getSampleInterpolate ?S
                                   (tf_pos (tf2dMarchFull ?S ?C ?ray (Fin 1) n))) = Inr v)
          \<and> fin (fmul (cr (TF2DColor ?C))
                   (tf2dSampleOpacity ?S ?C (tf_pos (tf2dMarchFull ?S ?C ?ray (Fin 1) n))))
          \<and> fin (fmul (cg (TF2DColor ?C))
                   (tf2dSampleOpacity ?S ?C (tf_pos (tf2dMarchFull ?S ?C ?ray (Fin 1) n))))
          \<and> fin (fmul (cb (TF2DColor ?C))
                   (tf2dSampleOpacity ?S ?C (tf_pos (tf2dMarchFull ?S ?C ?ray (Fin 1) n))))
          \<and> (is_zero (tf2dSampleOpacity ?S ?C (tf_pos (tf2dMarchFull ?S ?C ?ray (Fin 1) n)))
               \<and> fin (tf_Ai (tf2dMarchFull ?S ?C ?ray (Fin 1) n))
             \<or> tf_Ai (tf2dMarchFull ?S ?C ?ray (Fin 1) n) = Fin 1)"
  proof (intro allI impI)
    fix n
    assume "tf2dCondFull ?ray (tf2dMarchFull ?S ?C ?ray (Fin 1) n)
                      \<and> fge (tf_Ai (tf2dMarchFull ?S ?C ?ray (Fin 1) n)) d095"
    then have n: "n = Suc 0" using B(3) by blast
    show "(\<exists>v. getTFValue ?C (getSampleInterpolate ?S
                                   (tf_pos (tf2dMarchFull ?S ?C ?ray (Fin 1) n))) = Inr v)
          \<and> fin (fmul (cr (TF2DColor ?C))
                   (tf2dSampleOpacity ?S ?C (tf_pos (tf2dMarchFull ?S ?C ?ray (Fin 1) n))))
          \<and> fin (fmul (cg (TF2DColor ?C))
                   (tf2dSampleOpacity ?S ?C (tf_pos (tf2dMarchFull ?S ?C ?ray (Fin 1) n))))
          \<and> fin (fmul (cb (TF2DColor ?C))
                   (tf2dSampleOpacity ?S ?C (tf_pos (tf2dMarchFull ?S ?C ?ray (Fin 1) n))))
          \<and> (is_zero (tf2dSampleOpacity ?S ?C (tf_pos (tf2dMarchFull ?S ?C ?ray (Fin 1) n)))
               \<and> fin (tf_Ai (tf2dMarchFull ?S ?C ?ray (Fin 1) n))
             \<or> tf_Ai (tf2dMarchFull ?S ?C ?ray (Fin 1) n) = Fin 1)"
      unfolding n B(2) by (simp add: ex_lookup_single opB fl_arith)
  qed
  have eB: "traceRayTF2D ?S ?C ?ray (Fin 1) = Some (Inr (rgba 1 1 1 1))"
    using traceRayTF2D_early_exit[OF B(1) skB] .
  show ?thesis unfolding sampleStep0_def using A(1) eA opA B(1) eB opB by (intro conjI)
qed

end
